(* ===== verification/Py_Base.thy ===== *)
theory Py_Base
  imports Main
begin

section \<open>Prelude: the Python the code is written in\<close>

text \<open>
  What every other theory shares: results that may be an exception (\<open>error + 'a\<close>), the string
  operations the code calls (\<open>lower\<close>, \<open>strip\<close>, \<open>split\<close>, \<open>int\<close>, decimal formatting) and the JSON
  values a webhook carries. A Python \<open>str\<close> is a HOL \<open>string\<close> whose characters are the code points
  U+0000 to U+00FF; text outside that range is not modelled.
\<close>

named_theorems py_simps \<open>unfoldings of the Python prelude\<close>
named_theorems guard_simps \<open>characterisations of guards and early returns\<close>

subsection \<open>Results\<close>

definition bind_res :: "'e + 'a \<Rightarrow> ('a \<Rightarrow> 'e + 'b) \<Rightarrow> 'e + 'b" where
  "bind_res r f = (case r of Inl e \<Rightarrow> Inl e | Inr x \<Rightarrow> f x)"

lemma bind_res_simps [simp]:
  "bind_res (Inl e) f = Inl e"
  "bind_res (Inr x) f = f x"
  by (simp_all add: bind_res_def)

lemma bind_res_Inr_iff [guard_simps]:
  "bind_res r f = Inr y \<longleftrightarrow> (\<exists>x. r = Inr x \<and> f x = Inr y)"
  by (cases r) auto

lemma bind_res_Inl_iff [guard_simps]:
  "bind_res r f = Inl e \<longleftrightarrow> r = Inl e \<or> (\<exists>x. r = Inr x \<and> f x = Inl e)"
  by (cases r) auto

lemma bind_res_assoc:
  "bind_res (bind_res r f) g = bind_res r (\<lambda>x. bind_res (f x) g)"
  by (cases r) auto

subsection \<open>Characters\<close>

definition code_point :: "char \<Rightarrow> nat" where
  "code_point c = of_char c"

definition py_isspace :: "char \<Rightarrow> bool" where
  \<comment> \<open>\<open>str.isspace\<close>, which \<open>strip\<close> and \<open>split\<close> use\<close>
  "py_isspace c \<longleftrightarrow> (let n = code_point c in
     9 \<le> n \<and> n \<le> 13 \<or> 28 \<le> n \<and> n \<le> 32 \<or> n = 133 \<or> n = 160)"

definition int_isspace :: "char \<Rightarrow> bool" where
  \<comment> \<open>what \<open>int(s)\<close> skips: not the separators U+001C to U+001F\<close>
  "int_isspace c \<longleftrightarrow> (let n = code_point c in
     9 \<le> n \<and> n \<le> 13 \<or> n = 32 \<or> n = 133 \<or> n = 160)"

definition is_digit :: "char \<Rightarrow> bool" where
  "is_digit c \<longleftrightarrow> 48 \<le> code_point c \<and> code_point c \<le> 57"

definition digit_val :: "char \<Rightarrow> nat" where
  "digit_val c = code_point c - 48"

definition digit_char :: "nat \<Rightarrow> char" where
  "digit_char d = char_of (48 + d)"

definition is_upper :: "char \<Rightarrow> bool" where
  "is_upper c \<longleftrightarrow> (let n = code_point c in
     65 \<le> n \<and> n \<le> 90 \<or> 192 \<le> n \<and> n \<le> 222 \<and> n \<noteq> 215)"

definition lower_char :: "char \<Rightarrow> char" where
  "lower_char c = (if is_upper c then char_of (code_point c + 32) else c)"

lemma code_point_char_of [simp]: "code_point (char_of n) = n mod 256"
  by (simp add: code_point_def)

lemma code_point_less: "code_point c < 256"
  unfolding code_point_def by simp

lemma lower_char_not_upper [simp]: "\<not> is_upper (lower_char c)"
proof (cases "is_upper c")
  case True
  then have "code_point (lower_char c) = (code_point c + 32) mod 256"
    by (simp add: lower_char_def)
  moreover from True have "code_point c + 32 < 256"
    by (auto simp: is_upper_def Let_def)
  ultimately have *: "code_point (lower_char c) = code_point c + 32" by simp
  from True show ?thesis unfolding is_upper_def Let_def * by auto
next
  case False
  then show ?thesis by (simp add: lower_char_def)
qed

lemma lower_char_idem [simp]: "lower_char (lower_char c) = lower_char c"
  by (subst lower_char_def) simp

lemma digit_char_simps [simp]:
  "d < 10 \<Longrightarrow> code_point (digit_char d) = 48 + d"
  "d < 10 \<Longrightarrow> is_digit (digit_char d)"
  "d < 10 \<Longrightarrow> digit_val (digit_char d) = d"
  by (simp_all add: digit_char_def is_digit_def digit_val_def)

subsection \<open>\<open>str.lower\<close>, \<open>str.strip\<close>, truth of a string\<close>

definition str_lower :: "string \<Rightarrow> string" where
  "str_lower s = map lower_char s"

definition str_strip :: "string \<Rightarrow> string" where
  "str_strip s = rev (dropWhile py_isspace (rev (dropWhile py_isspace s)))"

abbreviation truthy :: "string \<Rightarrow> bool" where
  "truthy s \<equiv> s \<noteq> []"

lemma str_lower_idem [simp]: "str_lower (str_lower s) = str_lower s"
  by (simp add: str_lower_def)

lemma str_lower_Nil [simp]: "str_lower [] = []" "str_lower s = [] \<longleftrightarrow> s = []"
  by (simp_all add: str_lower_def)

lemma str_lower_length [simp]: "length (str_lower s) = length s"
  by (simp add: str_lower_def)

lemma dropWhile_idem [simp]: "dropWhile P (dropWhile P xs) = dropWhile P xs"
  by (induction xs) auto

lemma str_strip_Nil [simp]: "str_strip [] = []"
  by (simp add: str_strip_def)

lemma rev_dropWhile_rev_Cons:
  "\<not> P x \<Longrightarrow> rev (dropWhile P (rev (x # xs))) = x # rev (dropWhile P (rev xs))"
  by (auto simp: dropWhile_append)

lemma str_strip_idem [simp]: "str_strip (str_strip s) = str_strip s"
proof (cases "dropWhile py_isspace s")
  case Nil
  have "str_strip s = []" unfolding str_strip_def Nil by simp
  then show ?thesis by simp
next
  case (Cons x xs)
  then have x: "\<not> py_isspace x" by (metis hd_dropWhile list.discI list.sel(1))
  then have "str_strip s = x # rev (dropWhile py_isspace (rev xs))"
    unfolding str_strip_def Cons by (rule rev_dropWhile_rev_Cons)
  with x have "dropWhile py_isspace (str_strip s) = str_strip s" by simp
  then show ?thesis by (subst str_strip_def) (simp add: str_strip_def)
qed

subsection \<open>\<open>str.split(None, 1)\<close>\<close>

definition str_split1 :: "string \<Rightarrow> string list" where
  "str_split1 s =
     (let t = dropWhile py_isspace s;
          w = takeWhile (\<lambda>c. \<not> py_isspace c) t;
          r = dropWhile py_isspace (dropWhile (\<lambda>c. \<not> py_isspace c) t)
      in if t = [] then [] else if r = [] then [w] else [w, r])"

subsection \<open>\<open>int(s)\<close> and decimal formatting\<close>

fun digits_val :: "bool \<Rightarrow> int \<Rightarrow> string \<Rightarrow> int option" where
  "digits_val after_digit acc [] = (if after_digit then Some acc else None)"
| "digits_val after_digit acc (c # cs) =
     (if is_digit c then digits_val True (10 * acc + int (digit_val c)) cs
      else if c = CHR ''_'' \<and> after_digit then digits_val False acc cs
      else None)"

definition max_str_digits :: nat where
  \<comment> \<open>CPython's \<open>sys.int_info.default_max_str_digits\<close>\<close>
  "max_str_digits = 4300"

definition unsigned_int :: "string \<Rightarrow> int option" where
  "unsigned_int s =
     (if max_str_digits < length (filter is_digit s) then None else digits_val False 0 s)"

definition py_int :: "string \<Rightarrow> int option" where
  \<comment> \<open>\<open>int(s)\<close>; \<open>None\<close> is \<open>ValueError\<close>\<close>
  "py_int s =
     (let t = rev (dropWhile int_isspace (rev (dropWhile int_isspace s)))
      in case t of
           [] \<Rightarrow> None
         | c # cs \<Rightarrow>
             (if c = CHR ''-'' then map_option uminus (unsigned_int cs)
              else if c = CHR ''+'' then unsigned_int cs
              else unsigned_int t))"

fun show_nat :: "nat \<Rightarrow> string" where
  "show_nat n =
     (if n < 10 then [digit_char n] else show_nat (n div 10) @ [digit_char (n mod 10)])"

declare show_nat.simps [simp del]

definition show_int :: "int \<Rightarrow> string" where
  "show_int i = (if i < 0 then CHR ''-'' # show_nat (nat (- i)) else show_nat (nat i))"

lemma show_nat_digits: "\<forall>c \<in> set (show_nat n). is_digit c"
proof (induction n rule: show_nat.induct)
  case (1 n)
  show ?case
  proof (cases "n < 10")
    case True
    then show ?thesis by (simp add: show_nat.simps [of n])
  next
    case False
    with 1 show ?thesis by (simp add: show_nat.simps [of n])
  qed
qed

lemma show_nat_neq_Nil [simp]: "show_nat n \<noteq> []"
  by (subst show_nat.simps) simp

lemma digits_val_digits:
  "\<forall>c \<in> set xs. is_digit c \<Longrightarrow> b \<or> xs \<noteq> [] \<Longrightarrow>
   digits_val b acc xs = Some (foldl (\<lambda>v c. 10 * v + int (digit_val c)) acc xs)"
  by (induction xs arbitrary: b acc) auto

lemma digits_val_snoc:
  "\<forall>c \<in> set xs. is_digit c \<Longrightarrow> xs \<noteq> [] \<Longrightarrow> is_digit d \<Longrightarrow>
   digits_val b acc (xs @ [d]) =
     map_option (\<lambda>v. 10 * v + int (digit_val d)) (digits_val b acc xs)"
  by (simp add: digits_val_digits)

lemma digits_val_show_nat: "digits_val b 0 (show_nat n) = Some (int n)"
proof (induction n arbitrary: b rule: show_nat.induct)
  case (1 n)
  show ?case
  proof (cases "n < 10")
    case True
    then show ?thesis by (simp add: show_nat.simps [of n])
  next
    case False
    then have "digits_val b 0 (show_nat n) =
        map_option (\<lambda>v. 10 * v + int (n mod 10)) (digits_val b 0 (show_nat (n div 10)))"
      using show_nat_digits by (simp add: show_nat.simps [of n] digits_val_snoc)
    also have "\<dots> = Some (10 * int (n div 10) + int (n mod 10))"
      using 1 False by simp
    also have "10 * int (n div 10) + int (n mod 10) = int n"
      by (metis int_ops(7) mult_div_mod_eq of_nat_add of_nat_numeral)
    finally show ?thesis .
  qed
qed

lemma show_nat_inject [simp]: "show_nat m = show_nat n \<longleftrightarrow> m = n"
  using digits_val_show_nat [of True] by (metis of_nat_eq_iff option.inject)

lemma digit_not_special:
  assumes "is_digit c"
  shows "\<not> int_isspace c" "c \<noteq> CHR ''-''" "c \<noteq> CHR ''+''" "c \<noteq> CHR ''_''"
  using assms by (auto simp: is_digit_def int_isspace_def code_point_def)

lemma dropWhile_none: "\<forall>x \<in> set xs. \<not> P x \<Longrightarrow> dropWhile P xs = xs"
  by (cases xs) auto

lemma py_int_show_nat:
  assumes "length (show_nat n) \<le> max_str_digits"
  shows "py_int (show_nat n) = Some (int n)"
proof -
  have "\<forall>c \<in> set (show_nat n). \<not> int_isspace c"
    using show_nat_digits digit_not_special(1) by blast
  then have strip:
    "rev (dropWhile int_isspace (rev (dropWhile int_isspace (show_nat n)))) = show_nat n"
    by (simp add: dropWhile_none)
  obtain c cs where c: "show_nat n = c # cs" by (cases "show_nat n") auto
  then have "is_digit c" using show_nat_digits [of n] by simp
  moreover have "unsigned_int (show_nat n) = Some (int n)"
    using assms show_nat_digits [of n] digits_val_show_nat [of False n]
    by (simp add: unsigned_int_def not_less)
  ultimately show ?thesis
    using strip digit_not_special unfolding py_int_def c by (auto simp: Let_def)
qed

lemmas py_int_eval =
  py_int_def unsigned_int_def int_isspace_def is_digit_def digit_val_def code_point_def
  max_str_digits_def

subsection \<open>JSON values\<close>

datatype json =
    JNull
  | JBool bool
  | JInt int
  | JStr string
  | JList "json list"
  | JObj "(string \<times> json) list"

fun json_truthy :: "json \<Rightarrow> bool" where
  "json_truthy JNull = False"
| "json_truthy (JBool b) = b"
| "json_truthy (JInt i) = (i \<noteq> 0)"
| "json_truthy (JStr s) = truthy s"
| "json_truthy (JList xs) = (xs \<noteq> [])"
| "json_truthy (JObj kvs) = (kvs \<noteq> [])"

definition json_or :: "json \<Rightarrow> json \<Rightarrow> json" where
  \<comment> \<open>Python's \<open>a or b\<close>\<close>
  "json_or a b = (if json_truthy a then a else b)"

definition obj_get :: "(string \<times> json) list \<Rightarrow> string \<Rightarrow> json" where
  \<comment> \<open>\<open>d.get(k)\<close>: the value, or \<open>None\<close>\<close>
  "obj_get kvs k = (case map_of kvs k of None \<Rightarrow> JNull | Some v \<Rightarrow> v)"

end
