(* ===== verification/Tables.thy ===== *)
theory Tables
  imports Py_Base
begin

section \<open>Database tables\<close>

text \<open>
  A table is its rows in primary-key order and the next value of its sequence. The ORM calls of
  the code (\<open>create\<close>, \<open>filter(...).first()\<close>, \<open>exists\<close>, \<open>count\<close>, \<open>update\<close>, \<open>delete\<close>) are the list
  operations below; a query's condition is written out where the code makes it. The locale
  \<open>db_table\<close> is the contract between a row type and its primary key: each model interprets it once,
  and the lookup laws and the well-formedness of every operation come from there.
\<close>

record 'r tbl =
  tb_rows :: "'r list"
  tb_next :: int

definition tbl_empty :: "'r tbl" where
  "tbl_empty = \<lparr>tb_rows = [], tb_next = 1\<rparr>"

definition tbl_insert :: "(int \<Rightarrow> 'r \<Rightarrow> 'r) \<Rightarrow> 'r \<Rightarrow> 'r tbl \<Rightarrow> 'r tbl" where
  "tbl_insert set_pk r t =
     t\<lparr>tb_rows := tb_rows t @ [set_pk (tb_next t) r], tb_next := tb_next t + 1\<rparr>"

definition tbl_get :: "('r \<Rightarrow> int) \<Rightarrow> int \<Rightarrow> 'r tbl \<Rightarrow> 'r option" where
  "tbl_get pk k t = find (\<lambda>r. pk r = k) (tb_rows t)"

definition tbl_first :: "('r \<Rightarrow> bool) \<Rightarrow> 'r tbl \<Rightarrow> 'r option" where
  "tbl_first P t = find P (tb_rows t)"

definition tbl_filter :: "('r \<Rightarrow> bool) \<Rightarrow> 'r tbl \<Rightarrow> 'r list" where
  "tbl_filter P t = filter P (tb_rows t)"

definition tbl_exists :: "('r \<Rightarrow> bool) \<Rightarrow> 'r tbl \<Rightarrow> bool" where
  "tbl_exists P t = list_ex P (tb_rows t)"

definition tbl_count :: "('r \<Rightarrow> bool) \<Rightarrow> 'r tbl \<Rightarrow> nat" where
  "tbl_count P t = length (filter P (tb_rows t))"

definition tbl_update_where :: "('r \<Rightarrow> bool) \<Rightarrow> ('r \<Rightarrow> 'r) \<Rightarrow> 'r tbl \<Rightarrow> 'r tbl" where
  "tbl_update_where P f t = t\<lparr>tb_rows := map (\<lambda>r. if P r then f r else r) (tb_rows t)\<rparr>"

definition tbl_delete_where :: "('r \<Rightarrow> bool) \<Rightarrow> 'r tbl \<Rightarrow> 'r tbl" where
  "tbl_delete_where P t = t\<lparr>tb_rows := filter (\<lambda>r. \<not> P r) (tb_rows t)\<rparr>"

lemmas tbl_defs =
  tbl_empty_def tbl_insert_def tbl_get_def tbl_first_def tbl_filter_def tbl_exists_def
  tbl_count_def tbl_update_where_def tbl_delete_where_def

subsection \<open>Rows after each operation\<close>

lemma tbl_rows_simps [simp]:
  "tb_rows (tbl_insert sp r t) = tb_rows t @ [sp (tb_next t) r]"
  "tb_rows (tbl_update_where P f t) = map (\<lambda>r. if P r then f r else r) (tb_rows t)"
  "tb_rows (tbl_delete_where P t) = filter (\<lambda>r. \<not> P r) (tb_rows t)"
  "tb_rows tbl_empty = []"
  "tb_next (tbl_insert sp r t) = tb_next t + 1"
  "tb_next (tbl_update_where P f t) = tb_next t"
  "tb_next (tbl_delete_where P t) = tb_next t"
  "tb_next tbl_empty = 1"
  by (simp_all add: tbl_defs)

lemma tbl_exists_iff: "tbl_exists P t \<longleftrightarrow> (\<exists>r \<in> set (tb_rows t). P r)"
  by (simp add: tbl_exists_def list_ex_iff)

lemma tbl_first_Some: "tbl_first P t = Some r \<Longrightarrow> r \<in> set (tb_rows t) \<and> P r"
  unfolding tbl_first_def by (auto simp: find_Some_iff)

lemma tbl_first_None: "tbl_first P t = None \<longleftrightarrow> (\<forall>r \<in> set (tb_rows t). \<not> P r)"
  unfolding tbl_first_def by (auto simp: find_None_iff)

lemma tbl_get_Some: "tbl_get pk k t = Some r \<Longrightarrow> r \<in> set (tb_rows t) \<and> pk r = k"
  unfolding tbl_get_def by (auto simp: find_Some_iff)

lemma tbl_get_None: "tbl_get pk k t = None \<longleftrightarrow> k \<notin> pk ` set (tb_rows t)"
  unfolding tbl_get_def by (auto simp: find_None_iff)

lemma tbl_get_ex: "(\<exists>r. tbl_get pk k t = Some r) \<longleftrightarrow> k \<in> pk ` set (tb_rows t)"
  using tbl_get_None [of pk k t] by (cases "tbl_get pk k t") auto

lemma tbl_count_zero: "tbl_count P t = 0 \<longleftrightarrow> (\<forall>r \<in> set (tb_rows t). \<not> P r)"
  by (simp add: tbl_count_def filter_empty_conv)

lemma tbl_count_pos: "0 < tbl_count P t \<longleftrightarrow> (\<exists>r \<in> set (tb_rows t). P r)"
  using tbl_count_zero [of P t] by auto

lemma tbl_count_insert [simp]:
  "tbl_count P (tbl_insert sp r t) = tbl_count P t + (if P (sp (tb_next t) r) then 1 else 0)"
  by (simp add: tbl_count_def)

lemma tbl_count_delete_disjoint:
  "(\<And>r. r \<in> set (tb_rows t) \<Longrightarrow> P r \<Longrightarrow> \<not> Q r) \<Longrightarrow>
   tbl_count P (tbl_delete_where Q t) = tbl_count P t"
  by (simp add: tbl_count_def filter_filter) (metis (no_types, lifting) filter_cong)

lemma tbl_count_delete_le: "tbl_count P (tbl_delete_where Q t) \<le> tbl_count P t"
proof -
  have "length (filter P (filter (\<lambda>r. \<not> Q r) rs)) \<le> length (filter P rs)" for rs
    by (induction rs) auto
  then show ?thesis by (simp add: tbl_count_def)
qed

lemma tbl_count_update_same:
  "(\<And>r. r \<in> set (tb_rows t) \<Longrightarrow> P (if Q r then f r else r) = P r) \<Longrightarrow>
   tbl_count P (tbl_update_where Q f t) = tbl_count P t"
proof -
  assume *: "\<And>r. r \<in> set (tb_rows t) \<Longrightarrow> P (if Q r then f r else r) = P r"
  have "length (filter P (map (\<lambda>r. if Q r then f r else r) rs)) = length (filter P rs)"
    if "set rs \<subseteq> set (tb_rows t)" for rs
    using that
  proof (induction rs)
    case (Cons a rs)
    then show ?case using * [of a] by auto
  qed simp
  then show ?thesis by (simp add: tbl_count_def)
qed

subsection \<open>Primary keys\<close>


definition tbl_wf :: "('r \<Rightarrow> int) \<Rightarrow> 'r tbl \<Rightarrow> bool" where
  \<comment> \<open>keys are unique and were all handed out by the sequence\<close>
  "tbl_wf pk t \<longleftrightarrow>
     distinct (map pk (tb_rows t)) \<and> (\<forall>r \<in> set (tb_rows t). pk r < tb_next t)"

lemma tbl_wfD_inj: "tbl_wf pk t \<Longrightarrow> inj_on pk (set (tb_rows t))"
  by (simp add: tbl_wf_def distinct_map)

lemma tbl_wf_distinct_rows: "tbl_wf pk t \<Longrightarrow> distinct (tb_rows t)"
  by (simp add: tbl_wf_def distinct_map)

lemma tbl_get_iff:
  assumes "tbl_wf pk t"
  shows "tbl_get pk k t = Some r \<longleftrightarrow> r \<in> set (tb_rows t) \<and> pk r = k"
proof
  assume r: "r \<in> set (tb_rows t) \<and> pk r = k"
  then obtain r' where r': "tbl_get pk k t = Some r'" using tbl_get_ex [of pk k t] by auto
  with tbl_get_Some [OF r'] tbl_wfD_inj [OF assms] r have "r' = r" by (auto dest: inj_onD)
  with r' show "tbl_get pk k t = Some r" by simp
qed (rule tbl_get_Some)

lemma find_append_eq:
  "find P (xs @ ys) = (case find P xs of None \<Rightarrow> find P ys | Some x \<Rightarrow> Some x)"
  by (induction xs) auto

lemma update_map_key:
  assumes "\<And>r. r \<in> set (tb_rows t) \<Longrightarrow> P r \<Longrightarrow> g (f r) = g r"
  shows "map g (tb_rows (tbl_update_where P f t)) = map g (tb_rows t)"
  using assms by simp

lemma update_image_key:
  assumes "\<And>r. r \<in> set (tb_rows t) \<Longrightarrow> P r \<Longrightarrow> g (f r) = g r"
  shows "g ` set (tb_rows (tbl_update_where P f t)) = g ` set (tb_rows t)"
  using update_map_key [of t P g f, OF assms] by (metis list.set_map)

lemma tbl_wf_update_rows:
  assumes "tbl_wf pk t" and "\<And>r. r \<in> set (tb_rows t) \<Longrightarrow> P r \<Longrightarrow> pk (f r) = pk r"
  shows "tbl_wf pk (tbl_update_where P f t)"
  using assms update_map_key [of t P pk f] by (auto simp: tbl_wf_def simp del: map_map)

locale db_table =
  fixes pk :: "'r \<Rightarrow> int"
    and set_pk :: "int \<Rightarrow> 'r \<Rightarrow> 'r"
  assumes pk_set_pk: "pk (set_pk k r) = k"
begin

lemma wf_empty: "tbl_wf pk tbl_empty"
  by (simp add: tbl_wf_def)

lemma wf_insert: "tbl_wf pk t \<Longrightarrow> tbl_wf pk (tbl_insert set_pk r t)"
  by (fastforce simp: tbl_wf_def pk_set_pk)

lemma wf_update:
  assumes "tbl_wf pk t" and "\<And>r. pk (f r) = pk r"
  shows "tbl_wf pk (tbl_update_where P f t)"
proof -
  have "map pk (map (\<lambda>r. if P r then f r else r) (tb_rows t)) = map pk (tb_rows t)"
    using assms(2) by simp
  with assms show ?thesis by (auto simp: tbl_wf_def simp del: map_map)
qed

lemma wf_delete: "tbl_wf pk t \<Longrightarrow> tbl_wf pk (tbl_delete_where P t)"
  by (auto simp: tbl_wf_def distinct_map intro: inj_on_subset)

lemma new_key_fresh: "tbl_wf pk t \<Longrightarrow> tbl_get pk (tb_next t) t = None"
  by (auto simp: tbl_wf_def tbl_get_None)

lemma get_insert:
  "tbl_wf pk t \<Longrightarrow>
   tbl_get pk k (tbl_insert set_pk r t) =
     (if k = tb_next t then Some (set_pk k r) else tbl_get pk k t)"
  using new_key_fresh [of t]
  by (auto simp: tbl_get_def pk_set_pk find_append_eq split: option.splits)

lemma get_update:
  assumes "\<And>r. pk (f r) = pk r"
  shows "tbl_get pk k (tbl_update_where (\<lambda>r. pk r = j) f t) =
     (if k = j then map_option f (tbl_get pk k t) else tbl_get pk k t)"
proof -
  have "find (\<lambda>r. pk r = k) (map (\<lambda>r. if pk r = j then f r else r) rs) =
      (if k = j then map_option f (find (\<lambda>r. pk r = k) rs) else find (\<lambda>r. pk r = k) rs)" for rs
    by (induction rs) (auto simp: assms)
  then show ?thesis by (simp add: tbl_get_def)
qed

lemma get_delete:
  "tbl_get pk k (tbl_delete_where (\<lambda>r. pk r = j) t) =
     (if k = j then None else tbl_get pk k t)"
proof -
  have "find (\<lambda>r. pk r = k) (filter (\<lambda>r. pk r \<noteq> j) rs) =
      (if k = j then None else find (\<lambda>r. pk r = k) rs)" for rs
    by (induction rs) auto
  then show ?thesis by (simp add: tbl_get_def)
qed

lemma update_row_Un:
  assumes "tbl_wf pk t" and "r \<in> set (tb_rows t)"
  shows "set (tb_rows (tbl_update_where (\<lambda>x. pk x = pk r) f t)) =
     insert (f r) (set (tb_rows t) - {r})"
proof -
  have "pk x = pk r \<longleftrightarrow> x = r" if "x \<in> set (tb_rows t)" for x
    using that assms tbl_wfD_inj [OF assms(1)] by (auto dest: inj_onD)
  then show ?thesis using assms(2) by (auto split: if_splits)
qed

lemma delete_row_set:
  assumes "tbl_wf pk t" and "r \<in> set (tb_rows t)"
  shows "set (tb_rows (tbl_delete_where (\<lambda>x. pk x = pk r) t)) = set (tb_rows t) - {r}"
proof -
  have "pk x = pk r \<longleftrightarrow> x = r" if "x \<in> set (tb_rows t)" for x
    using that assms tbl_wfD_inj [OF assms(1)] by (auto dest: inj_onD)
  then show ?thesis by auto
qed

lemma another_row:
  assumes "tbl_wf pk t" and "2 \<le> tbl_count P t"
  shows "\<exists>x \<in> set (tb_rows t). P x \<and> x \<noteq> r"
proof (rule ccontr)
  assume "\<not> ?thesis"
  then have "set (filter P (tb_rows t)) \<subseteq> {r}" by auto
  then have "card (set (filter P (tb_rows t))) \<le> 1"
    using card_mono [of "{r}"] by fastforce
  moreover have "distinct (filter P (tb_rows t))"
    using assms(1) by (simp add: tbl_wf_distinct_rows)
  ultimately show False using assms(2)
    by (simp add: tbl_count_def distinct_card [symmetric])
qed

end

subsection \<open>Unique columns and ordered querysets\<close>

definition tbl_unique :: "('r \<Rightarrow> 'k) \<Rightarrow> 'r tbl \<Rightarrow> bool" where
  "tbl_unique key t \<longleftrightarrow> inj_on key (set (tb_rows t))"

lemma tbl_uniqueD:
  "tbl_unique key t \<Longrightarrow> x \<in> set (tb_rows t) \<Longrightarrow> y \<in> set (tb_rows t) \<Longrightarrow> key x = key y \<Longrightarrow> x = y"
  by (auto simp: tbl_unique_def dest: inj_onD)

locale unique_key = db_table pk set_pk
  for pk :: "'r \<Rightarrow> int" and set_pk :: "int \<Rightarrow> 'r \<Rightarrow> 'r" +
  fixes key :: "'r \<Rightarrow> 'k"
  assumes key_set_pk: "key (set_pk k r) = key r"
begin

lemma unique_insert:
  "tbl_unique key t \<Longrightarrow> \<not> tbl_exists (\<lambda>x. key x = key r) t \<Longrightarrow>
   tbl_unique key (tbl_insert set_pk r t)"
  by (force simp: tbl_unique_def tbl_exists_iff key_set_pk inj_on_def)

lemma unique_update:
  assumes "tbl_unique key t" and "\<And>r. key (f r) = key r"
  shows "tbl_unique key (tbl_update_where P f t)"
proof -
  let ?g = "\<lambda>x. if P x then f x else x"
  have key: "key (?g x) = key x" for x by (simp add: assms(2))
  have "inj_on key (?g ` set (tb_rows t))"
  proof (rule inj_onI)
    fix a b assume "a \<in> ?g ` set (tb_rows t)" "b \<in> ?g ` set (tb_rows t)" and "key a = key b"
    then obtain x y where "x \<in> set (tb_rows t)" "y \<in> set (tb_rows t)" "a = ?g x" "b = ?g y"
      by blast
    moreover from this \<open>key a = key b\<close> have "key x = key y" using key [of x] key [of y] by metis
    ultimately show "a = b" using tbl_uniqueD [OF assms(1)] by metis
  qed
  then show ?thesis by (simp add: tbl_unique_def)
qed

lemma unique_delete: "tbl_unique key t \<Longrightarrow> tbl_unique key (tbl_delete_where P t)"
  by (auto simp: tbl_unique_def intro: inj_on_subset)

lemma first_by_key:
  assumes "tbl_unique key t" and "x \<in> set (tb_rows t)" and "key x = c"
  shows "tbl_first (\<lambda>r. key r = c) t = Some x"
proof -
  obtain y where y: "tbl_first (\<lambda>r. key r = c) t = Some y"
    using tbl_first_None [of "\<lambda>r. key r = c" t] assms(2,3)
    by (cases "tbl_first (\<lambda>r. key r = c) t") auto
  with tbl_first_Some [OF y] assms have "y = x" by (auto dest: tbl_uniqueD)
  with y show ?thesis by simp
qed

end

definition order_by :: "('r \<Rightarrow> 'k::linorder) \<Rightarrow> 'r list \<Rightarrow> 'r list" where
  \<comment> \<open>\<open>Meta.ordering\<close>; rows with equal keys come in primary-key order here, SQL leaves it open\<close>
  "order_by f rows = sort_key f rows"

lemma order_by_set [simp]: "set (order_by f rows) = set rows"
  by (simp add: order_by_def)

end
