(* ===== verification/Errors.thy ===== *)
theory Errors
  imports Py_Base
begin

section \<open>Exceptions and the project-wide handler (core/exceptions.py)\<close>

text \<open>
  The exceptions a request can end in: the REST framework's own classes, the two the project
  derives from \<open>APIException\<close> (\<open>PlanLimitExceeded\<close>, \<open>BillingNotConfigured\<close>), and those nothing
  in the views catches (database errors, Django's own \<open>ValidationError\<close>, Python built-ins), which
  only \<open>api_exception_handler\<close> stands in front of. The framework's handler is a parameter.
\<close>

datatype exn =
    NotAuthenticated
  | PermissionDenied string
  | MethodNotAllowed
  | Http404
  | ValidationError "string option" string \<comment> \<open>the field it is about, if any, and the message\<close>
  | APIException string
  | PlanLimitExceeded string
  | BillingNotConfigured
  | StripeError string
  | IntegrityError string \<comment> \<open>the violated constraint\<close>
  | DataError \<comment> \<open>a value longer than its column\<close>
  | ProtectedError
  | MultipleObjectsReturned
  | DjangoValidationError string
  | PyValueError
  | PyTypeError
  | PyKeyError
  | PyAttributeError
  | ImproperlyConfigured string
  | PyImportError string
  | TokenError string

fun status_code :: "exn \<Rightarrow> nat option" where
  \<comment> \<open>\<open>None\<close>: not one of the REST framework's exceptions\<close>
  "status_code NotAuthenticated = Some 401"
| "status_code (PermissionDenied _) = Some 403"
| "status_code Http404 = Some 404"
| "status_code MethodNotAllowed = Some 405"
| "status_code (ValidationError _ _) = Some 400"
| "status_code (APIException _) = Some 500"
| "status_code (PlanLimitExceeded _) = Some 402"
| "status_code BillingNotConfigured = Some 503"
| "status_code _ = None"

abbreviation unhandled :: "exn \<Rightarrow> bool" where
  "unhandled e \<equiv> status_code e = None"

type_synonym response = "nat \<times> json"

definition api_exception_handler ::
  "(exn \<Rightarrow> response option) \<Rightarrow> bool \<Rightarrow> exn \<Rightarrow> response option" where
  \<comment> \<open>\<open>None\<close> leaves the exception to Django, whose debug page shows the traceback\<close>
  "api_exception_handler drf_exception_handler debug exc =
     (case drf_exception_handler exc of
        Some response \<Rightarrow> Some response
      | None \<Rightarrow>
          (if debug then None
           else Some (500, JObj [(''detail'', JStr ''Internal server error.'')])))"

text \<open>What the code relies on of the framework's handler: it knows its own exceptions only.\<close>

definition drf_handler_ok :: "(exn \<Rightarrow> response option) \<Rightarrow> bool" where
  "drf_handler_ok h \<longleftrightarrow> (\<forall>e. map_option fst (h e) = status_code e)"

lemma drf_handler_unhandled: "drf_handler_ok h \<Longrightarrow> unhandled e \<Longrightarrow> h e = None"
  unfolding drf_handler_ok_def by (metis option.map_disc_iff)

lemma api_exception_handler_status:
  "drf_handler_ok h \<Longrightarrow>
   map_option fst (api_exception_handler h False e) =
     Some (case status_code e of Some c \<Rightarrow> c | None \<Rightarrow> 500)"
  by (auto simp: api_exception_handler_def drf_handler_ok_def split: option.splits)
     (metis map_option_eq_Some option.distinct(1) option.inject fst_conv)+

end
