(* ===== verification/Schema.thy ===== *)
theory Schema
  imports Tables Errors
begin

section \<open>The models: rows, tables and the database\<close>

text \<open>
  One record per Django model, with the columns the models declare (\<open>accounts\<close>, \<open>organizations\<close>,
  \<open>billing\<close>, \<open>projects\<close>), one table per model, and the database as the record of the tables. Foreign
  keys are the primary keys they hold. Times are integers (microseconds). The two token tables
  belong to the JWT library: of them the code uses the owner of an outstanding token and which
  tokens are blacklisted. The task queue is what \<open>delay\<close> hands to Celery.
\<close>

type_synonym key = int
type_synonym time = int

subsection \<open>accounts\<close>

record user =
  u_id :: key
  u_password :: string \<comment> \<open>the stored hash\<close>
  u_last_login :: "time option"
  u_is_superuser :: bool
  u_first_name :: string
  u_last_name :: string
  u_is_staff :: bool
  u_is_active :: bool
  u_date_joined :: time
  u_email :: string
  u_is_email_verified :: bool

subsection \<open>organizations\<close>

record organization =
  o_id :: key
  o_name :: string
  o_slug :: string
  o_created_by :: "key option"
  o_created_at :: time

record membership =
  m_id :: key
  m_user :: key
  m_org :: key
  m_role :: string
  m_created_at :: time

record invitation =
  i_id :: key
  i_org :: key
  i_email :: string
  i_role :: string
  i_token :: string
  i_status :: string
  i_invited_by :: "key option"
  i_created_at :: time
  i_expires_at :: time

subsection \<open>billing\<close>

record plan =
  p_id :: key
  p_code :: string
  p_name :: string
  p_stripe_price_id :: string
  p_limits :: "(string \<times> int option) list" \<comment> \<open>the JSON object; \<open>None\<close> is \<open>null\<close>\<close>
  p_is_active :: bool

record subscription =
  s_id :: key
  s_org :: key
  s_plan :: key
  s_stripe_customer_id :: string
  s_stripe_subscription_id :: string
  s_status :: string
  s_current_period_end :: "time option"
  s_updated_at :: time

record webhook_event =
  w_id :: key
  w_stripe_event_id :: string
  w_type :: string
  w_processed_at :: time

subsection \<open>projects\<close>

record project =
  pr_id :: key
  pr_org :: key
  pr_name :: string
  pr_description :: string
  pr_created_by :: "key option"
  pr_created_at :: time

subsection \<open>JWT sessions and the task queue\<close>

record outstanding_token =
  ot_id :: key
  ot_user :: "key option"

datatype task =
    Send_Verification_Email key
  | Send_Password_Reset_Email key
  | Send_Invitation_Email key

subsection \<open>The database\<close>

record db =
  db_users :: "user tbl"
  db_orgs :: "organization tbl"
  db_members :: "membership tbl"
  db_invites :: "invitation tbl"
  db_plans :: "plan tbl"
  db_subs :: "subscription tbl"
  db_events :: "webhook_event tbl"
  db_projects :: "project tbl"
  db_tokens :: "outstanding_token tbl"
  db_blacklist :: "key list"
  db_queue :: "task list"

definition empty_db :: db where
  "empty_db = \<lparr>db_users = tbl_empty, db_orgs = tbl_empty, db_members = tbl_empty,
     db_invites = tbl_empty, db_plans = tbl_empty, db_subs = tbl_empty, db_events = tbl_empty,
     db_projects = tbl_empty, db_tokens = tbl_empty, db_blacklist = [], db_queue = []\<rparr>"

text \<open>A handler returns its result or the exception it raised, and the database it leaves.\<close>

type_synonym 'a outcome = "(exn + 'a) \<times> db"

text \<open>\<open>transaction.atomic()\<close>: an exception inside the block restores the database it started from.\<close>

definition atomic :: "(db \<Rightarrow> 'a outcome) \<Rightarrow> db \<Rightarrow> 'a outcome" where
  "atomic block d = (case block d of (Inl e, _) \<Rightarrow> (Inl e, d) | (Inr x, d') \<Rightarrow> (Inr x, d'))"

lemma atomic_rollback: "atomic b d = (Inl e, d') \<Longrightarrow> d' = d"
  by (auto simp: atomic_def split: prod.splits sum.splits)

lemma atomic_commit: "atomic b d = (Inr x, d') \<longleftrightarrow> b d = (Inr x, d')"
  by (auto simp: atomic_def split: prod.splits sum.splits)

lemma atomic_raise: "atomic b d = (Inl e, d') \<longleftrightarrow> d' = d \<and> fst (b d) = Inl e"
  by (auto simp: atomic_def split: prod.splits sum.splits)

subsection \<open>Every model is a keyed table\<close>

abbreviation set_u_id :: "key \<Rightarrow> user \<Rightarrow> user" where
  "set_u_id k \<equiv> u_id_update (\<lambda>_. k)"
abbreviation set_o_id :: "key \<Rightarrow> organization \<Rightarrow> organization" where
  "set_o_id k \<equiv> o_id_update (\<lambda>_. k)"
abbreviation set_m_id :: "key \<Rightarrow> membership \<Rightarrow> membership" where
  "set_m_id k \<equiv> m_id_update (\<lambda>_. k)"
abbreviation set_i_id :: "key \<Rightarrow> invitation \<Rightarrow> invitation" where
  "set_i_id k \<equiv> i_id_update (\<lambda>_. k)"
abbreviation set_p_id :: "key \<Rightarrow> plan \<Rightarrow> plan" where
  "set_p_id k \<equiv> p_id_update (\<lambda>_. k)"
abbreviation set_s_id :: "key \<Rightarrow> subscription \<Rightarrow> subscription" where
  "set_s_id k \<equiv> s_id_update (\<lambda>_. k)"
abbreviation set_w_id :: "key \<Rightarrow> webhook_event \<Rightarrow> webhook_event" where
  "set_w_id k \<equiv> w_id_update (\<lambda>_. k)"
abbreviation set_pr_id :: "key \<Rightarrow> project \<Rightarrow> project" where
  "set_pr_id k \<equiv> pr_id_update (\<lambda>_. k)"

interpretation user_t: db_table u_id set_u_id by unfold_locales simp
interpretation org_t: db_table o_id set_o_id by unfold_locales simp
interpretation member_t: db_table m_id set_m_id by unfold_locales simp
interpretation invite_t: db_table i_id set_i_id by unfold_locales simp
interpretation plan_t: db_table p_id set_p_id by unfold_locales simp
interpretation sub_t: db_table s_id set_s_id by unfold_locales simp
interpretation event_t: db_table w_id set_w_id by unfold_locales simp
interpretation project_t: db_table pr_id set_pr_id by unfold_locales simp

text \<open>Keys of every table well-formed: the part of the database invariant PostgreSQL itself keeps.\<close>

definition keys_ok :: "db \<Rightarrow> bool" where
  "keys_ok d \<longleftrightarrow>
     tbl_wf u_id (db_users d) \<and> tbl_wf o_id (db_orgs d) \<and> tbl_wf m_id (db_members d) \<and>
     tbl_wf i_id (db_invites d) \<and> tbl_wf p_id (db_plans d) \<and> tbl_wf s_id (db_subs d) \<and>
     tbl_wf w_id (db_events d) \<and> tbl_wf pr_id (db_projects d)"

lemmas wf_inserts [intro] =
  user_t.wf_insert org_t.wf_insert member_t.wf_insert invite_t.wf_insert plan_t.wf_insert
  sub_t.wf_insert event_t.wf_insert project_t.wf_insert

lemmas wf_updates =
  user_t.wf_update org_t.wf_update member_t.wf_update invite_t.wf_update plan_t.wf_update
  sub_t.wf_update event_t.wf_update project_t.wf_update

lemmas wf_deletes [intro] =
  user_t.wf_delete org_t.wf_delete member_t.wf_delete invite_t.wf_delete plan_t.wf_delete
  sub_t.wf_delete event_t.wf_delete project_t.wf_delete

subsection \<open>Column widths\<close>

definition char_field :: "nat \<Rightarrow> string \<Rightarrow> exn + unit" where
  \<comment> \<open>a \<open>varchar(n)\<close> column refuses a longer value\<close>
  "char_field n v = (if n < length v then Inl DataError else Inr ())"

subsection \<open>JSON values in queries\<close>

definition py_get :: "json \<Rightarrow> string \<Rightarrow> exn + json" where
  \<comment> \<open>\<open>v.get(k)\<close>\<close>
  "py_get v k = (case v of JObj kvs \<Rightarrow> Inr (obj_get kvs k) | _ \<Rightarrow> Inl PyAttributeError)"

definition col_int :: "json \<Rightarrow> exn + int" where
  \<comment> \<open>\<open>int(v)\<close>, as an integer column and \<open>_ts_to_dt\<close> apply it\<close>
  "col_int v =
     (case v of
        JInt i \<Rightarrow> Inr i
      | JBool b \<Rightarrow> Inr (if b then 1 else 0)
      | JStr s \<Rightarrow> (case py_int s of None \<Rightarrow> Inl PyValueError | Some i \<Rightarrow> Inr i)
      | _ \<Rightarrow> Inl PyTypeError)"

end
