(* ===== verification/Org_Models.thy ===== *)
theory Org_Models
  imports Schema
begin

section \<open>Organizations, memberships, invitations (organizations/models.py)\<close>

text \<open>
  The role and status values, the rank table, the row operations of the three models with their
  unique constraints, the last-owner protection of \<open>Membership.clean\<close> and \<open>Membership.delete\<close>, and
  what deleting an organization or a user takes with it (\<open>on_delete\<close> of every foreign key).
  \<open>owned\<close> is the invariant the code protects: no organization without an Owner.
\<close>

subsection \<open>Role\<close>

definition OWNER :: string where "OWNER = ''owner''"
definition ADMIN :: string where "ADMIN = ''admin''"
definition MEMBER :: string where "MEMBER = ''member''"

definition Role_choices :: "string list" where
  "Role_choices = [OWNER, ADMIN, MEMBER]"

definition Role_rank :: "string \<Rightarrow> nat" where
  "Role_rank value =
     (case map_of [(MEMBER, 1), (ADMIN, 2), (OWNER, 3)] value of Some n \<Rightarrow> n | None \<Rightarrow> 0)"

lemma role_distinct [simp]:
  "OWNER \<noteq> ADMIN" "ADMIN \<noteq> OWNER" "OWNER \<noteq> MEMBER" "MEMBER \<noteq> OWNER"
  "ADMIN \<noteq> MEMBER" "MEMBER \<noteq> ADMIN"
  by (simp_all add: OWNER_def ADMIN_def MEMBER_def)

lemma Role_rank_simps [simp]:
  "Role_rank OWNER = 3" "Role_rank ADMIN = 2" "Role_rank MEMBER = 1"
  "r \<noteq> OWNER \<Longrightarrow> r \<noteq> ADMIN \<Longrightarrow> r \<noteq> MEMBER \<Longrightarrow> Role_rank r = 0"
  by (simp_all add: Role_rank_def)

lemma Role_rank_cases:
  obtains "r = OWNER" "Role_rank r = 3" | "r = ADMIN" "Role_rank r = 2"
    | "r = MEMBER" "Role_rank r = 1" | "r \<notin> set Role_choices" "Role_rank r = 0"
  by (cases "r = OWNER"; cases "r = ADMIN"; cases "r = MEMBER") (auto simp: Role_choices_def)

lemma Role_rank_le_3: "Role_rank r \<le> 3"
  by (cases r rule: Role_rank_cases) auto

lemma Role_rank_3_iff: "Role_rank r = 3 \<longleftrightarrow> r = OWNER"
  by (cases r rule: Role_rank_cases) auto

subsection \<open>InvitationStatus\<close>

definition PENDING :: string where "PENDING = ''pending''"
definition ACCEPTED :: string where "ACCEPTED = ''accepted''"
definition REVOKED :: string where "REVOKED = ''revoked''"
definition EXPIRED :: string where "EXPIRED = ''expired''"

lemma status_distinct [simp]:
  "PENDING \<noteq> ACCEPTED" "ACCEPTED \<noteq> PENDING" "PENDING \<noteq> EXPIRED" "EXPIRED \<noteq> PENDING"
  "ACCEPTED \<noteq> EXPIRED" "EXPIRED \<noteq> ACCEPTED" "PENDING \<noteq> REVOKED" "REVOKED \<noteq> PENDING"
  "ACCEPTED \<noteq> REVOKED" "REVOKED \<noteq> ACCEPTED" "EXPIRED \<noteq> REVOKED" "REVOKED \<noteq> EXPIRED"
  by (simp_all add: PENDING_def ACCEPTED_def REVOKED_def EXPIRED_def)

definition is_expired :: "time \<Rightarrow> invitation \<Rightarrow> bool" where
  "is_expired now i \<longleftrightarrow> i_expires_at i \<le> now"

subsection \<open>Membership\<close>

definition is_owner :: "membership \<Rightarrow> bool" where
  "is_owner m \<longleftrightarrow> m_role m = OWNER"

definition is_admin_or_owner :: "membership \<Rightarrow> bool" where
  "is_admin_or_owner m \<longleftrightarrow> m_role m \<in> {OWNER, ADMIN}"

definition org_owner_count :: "membership \<Rightarrow> db \<Rightarrow> nat" where
  "org_owner_count self d =
     tbl_count (\<lambda>x. m_org x = m_org self \<and> m_role x = OWNER) (db_members d)"

definition membership_clean :: "membership \<Rightarrow> db \<Rightarrow> exn + unit" where
  "membership_clean self d =
     (if m_id self \<noteq> 0 then
        let current_role = map_option m_role (tbl_get m_id (m_id self) (db_members d))
        in if current_role = Some OWNER \<and> m_role self \<noteq> OWNER \<and> org_owner_count self d \<le> 1
           then Inl (DjangoValidationError ''Cannot demote the last owner of the organization.'')
           else Inr ()
      else Inr ())"

definition delete_member_row :: "membership \<Rightarrow> db \<Rightarrow> db" where
  "delete_member_row m d =
     d\<lparr>db_members := tbl_delete_where (\<lambda>x. m_id x = m_id m) (db_members d)\<rparr>"

definition membership_delete :: "membership \<Rightarrow> db \<Rightarrow> exn + db" where
  "membership_delete self d =
     (if m_role self = OWNER \<and> org_owner_count self d \<le> 1
      then Inl (DjangoValidationError ''Cannot remove the last owner of the organization.'')
      else Inr (delete_member_row self d))"

definition membership_create :: "membership \<Rightarrow> db \<Rightarrow> exn + db" where
  \<comment> \<open>the unique constraint \<open>uniq_user_org\<close>\<close>
  "membership_create m d =
     (if tbl_exists (\<lambda>x. m_user x = m_user m \<and> m_org x = m_org m) (db_members d)
      then Inl (IntegrityError ''uniq_user_org'')
      else Inr (d\<lparr>db_members := tbl_insert set_m_id m (db_members d)\<rparr>))"

definition save_member_role :: "membership \<Rightarrow> string \<Rightarrow> db \<Rightarrow> db" where
  \<comment> \<open>\<open>target.role = r; target.save(update_fields=["role"])\<close>\<close>
  "save_member_role m r d =
     d\<lparr>db_members :=
        tbl_update_where (\<lambda>x. m_id x = m_id m) (\<lambda>x. x\<lparr>m_role := r\<rparr>) (db_members d)\<rparr>"

subsection \<open>Organization\<close>

definition organization_insert :: "organization \<Rightarrow> db \<Rightarrow> exn + (organization \<times> db)" where
  \<comment> \<open>the columns' widths and the unique slug; \<open>post_save\<close> is in \<open>Billing_Models\<close>\<close>
  "organization_insert org d =
     bind_res (char_field 255 (o_name org)) (\<lambda>_.
     bind_res (char_field 255 (o_slug org)) (\<lambda>_.
       if tbl_exists (\<lambda>x. o_slug x = o_slug org) (db_orgs d)
       then Inl (IntegrityError ''organizations_organization_slug_key'')
       else Inr (set_o_id (tb_next (db_orgs d)) org,
                 d\<lparr>db_orgs := tbl_insert set_o_id org (db_orgs d)\<rparr>)))"

definition organization_delete :: "key \<Rightarrow> db \<Rightarrow> db" where
  \<comment> \<open>the framework's collector, which no code here implements: it carries out the delete rules declared
    by the models (\<open>Migrations.deletes_follow_schema\<close> compares them), here \<open>CASCADE\<close> on every foreign
    key to \<open>Organization\<close>, and skips \<open>Membership.delete\<close>\<close>
  "organization_delete k d =
     d\<lparr>db_orgs := tbl_delete_where (\<lambda>x. o_id x = k) (db_orgs d),
       db_members := tbl_delete_where (\<lambda>x. m_org x = k) (db_members d),
       db_invites := tbl_delete_where (\<lambda>x. i_org x = k) (db_invites d),
       db_subs := tbl_delete_where (\<lambda>x. s_org x = k) (db_subs d),
       db_projects := tbl_delete_where (\<lambda>x. pr_org x = k) (db_projects d)\<rparr>"

definition null_if :: "key \<Rightarrow> key option \<Rightarrow> key option" where
  "null_if k v = (if v = Some k then None else v)"

definition user_delete :: "key \<Rightarrow> db \<Rightarrow> db" where
  \<comment> \<open>the collector again, by the declared rules: memberships cascade; \<open>created_by\<close> and \<open>invited_by\<close> are
    \<open>SET_NULL\<close>, and so is the owner of a token\<close>
  "user_delete k d =
     d\<lparr>db_users := tbl_delete_where (\<lambda>x. u_id x = k) (db_users d),
       db_members := tbl_delete_where (\<lambda>x. m_user x = k) (db_members d),
       db_orgs := tbl_update_where (\<lambda>_. True)
         (\<lambda>x. x\<lparr>o_created_by := null_if k (o_created_by x)\<rparr>) (db_orgs d),
       db_invites := tbl_update_where (\<lambda>_. True)
         (\<lambda>x. x\<lparr>i_invited_by := null_if k (i_invited_by x)\<rparr>) (db_invites d),
       db_projects := tbl_update_where (\<lambda>_. True)
         (\<lambda>x. x\<lparr>pr_created_by := null_if k (pr_created_by x)\<rparr>) (db_projects d),
       db_tokens := tbl_update_where (\<lambda>_. True)
         (\<lambda>x. x\<lparr>ot_user := null_if k (ot_user x)\<rparr>) (db_tokens d)\<rparr>"

subsection \<open>The admin site's membership forms (organizations/admin.py)\<close>

text \<open>
  A change form of \<open>MembershipAdmin\<close> edits \<open>user\<close>, \<open>organization\<close> and \<open>role\<close> (\<open>created_at\<close> is
  read-only), runs \<open>full_clean\<close> on the edited instance and saves it; the list page's bulk action
  deletes through the queryset, which does not call \<open>Membership.delete\<close>.
\<close>

definition admin_change_membership :: "membership \<Rightarrow> db \<Rightarrow> exn + db" where
  "admin_change_membership edited d =
     (if m_role edited \<notin> set Role_choices
      then Inl (DjangoValidationError ''Value is not a valid choice.'')
      else bind_res (membership_clean edited d) (\<lambda>_.
        if tbl_exists (\<lambda>x. m_user x = m_user edited \<and> m_org x = m_org edited \<and>
             m_id x \<noteq> m_id edited) (db_members d)
        then Inl (DjangoValidationError ''Constraint uniq_user_org is violated.'')
        else Inr (d\<lparr>db_members := tbl_update_where (\<lambda>x. m_id x = m_id edited)
          (\<lambda>x. x\<lparr>m_user := m_user edited, m_org := m_org edited, m_role := m_role edited\<rparr>)
          (db_members d)\<rparr>)))"

definition admin_bulk_delete_memberships :: "key list \<Rightarrow> db \<Rightarrow> db" where
  "admin_bulk_delete_memberships ks d =
     d\<lparr>db_members := tbl_delete_where (\<lambda>x. m_id x \<in> set ks) (db_members d)\<rparr>"

subsection \<open>The invariant: every organization has an Owner\<close>

definition owned :: "db \<Rightarrow> bool" where
  "owned d \<longleftrightarrow>
     (\<forall>org \<in> set (tb_rows (db_orgs d)). \<exists>m \<in> set (tb_rows (db_members d)).
        m_org m = o_id org \<and> m_role m = OWNER)"

text \<open>
  The contract of a last-owner test: when it lets an Owner go, another Owner of the same
  organization stays. Two tests of the code keep it: \<open>core.rbac.is_last_owner\<close> in the API and the
  count in \<open>Membership.delete\<close>.
\<close>

locale last_owner_guard =
  fixes blocked :: "membership \<Rightarrow> db \<Rightarrow> bool"
  assumes another_owner:
    "keys_ok d \<Longrightarrow> m \<in> set (tb_rows (db_members d)) \<Longrightarrow> m_role m = OWNER \<Longrightarrow> \<not> blocked m d \<Longrightarrow>
     \<exists>x \<in> set (tb_rows (db_members d)). x \<noteq> m \<and> m_org x = m_org m \<and> m_role x = OWNER"
begin

lemma delete_keeps_owned:
  assumes ok: "keys_ok d" "owned d" and m: "m \<in> set (tb_rows (db_members d))"
    and nb: "\<not> blocked m d"
  shows "owned (delete_member_row m d)"
proof -
  have wf: "tbl_wf m_id (db_members d)" using ok by (simp add: keys_ok_def)
  have rows: "set (tb_rows (db_members (delete_member_row m d))) = set (tb_rows (db_members d)) - {m}"
    using member_t.delete_row_set [OF wf m] by (simp add: delete_member_row_def)
  show ?thesis unfolding owned_def rows
  proof
    fix org assume "org \<in> set (tb_rows (db_orgs (delete_member_row m d)))"
    then have "org \<in> set (tb_rows (db_orgs d))" by (simp add: delete_member_row_def)
    with ok obtain w where w: "w \<in> set (tb_rows (db_members d))" "m_org w = o_id org" "m_role w = OWNER"
      by (auto simp: owned_def)
    show "\<exists>x \<in> set (tb_rows (db_members d)) - {m}. m_org x = o_id org \<and> m_role x = OWNER"
    proof (cases "w = m")
      case True
      with another_owner [OF ok(1) m _ nb] w show ?thesis by auto
    next
      case False
      with w show ?thesis by auto
    qed
  qed
qed

lemma set_role_keeps_owned:
  assumes ok: "keys_ok d" "owned d" and m: "m \<in> set (tb_rows (db_members d))"
    and nb: "m_role m = OWNER \<Longrightarrow> r \<noteq> OWNER \<Longrightarrow> \<not> blocked m d"
  shows "owned (save_member_role m r d)"
proof -
  have wf: "tbl_wf m_id (db_members d)" using ok by (simp add: keys_ok_def)
  have rows: "set (tb_rows (db_members (save_member_role m r d))) =
      insert (m\<lparr>m_role := r\<rparr>) (set (tb_rows (db_members d)) - {m})"
    using member_t.update_row_Un [OF wf m, of "\<lambda>x. x\<lparr>m_role := r\<rparr>"]
    by (simp add: save_member_role_def)
  show ?thesis unfolding owned_def rows
  proof
    fix org assume "org \<in> set (tb_rows (db_orgs (save_member_role m r d)))"
    then have "org \<in> set (tb_rows (db_orgs d))" by (simp add: save_member_role_def)
    with ok obtain w where w: "w \<in> set (tb_rows (db_members d))" "m_org w = o_id org" "m_role w = OWNER"
      by (auto simp: owned_def)
    show "\<exists>x \<in> insert (m\<lparr>m_role := r\<rparr>) (set (tb_rows (db_members d)) - {m}).
        m_org x = o_id org \<and> m_role x = OWNER"
    proof (cases "w = m \<and> r \<noteq> OWNER")
      case True
      with another_owner [OF ok(1) m] nb w show ?thesis by auto
    next
      case False
      with w show ?thesis by (cases "w = m") auto
    qed
  qed
qed

end

interpretation model_guard: last_owner_guard
  "\<lambda>m d. m_role m = OWNER \<and> org_owner_count m d \<le> 1"
proof
  fix d m
  assume "keys_ok d" and "m \<in> set (tb_rows (db_members d))" and "m_role m = OWNER"
    and "\<not> (m_role m = OWNER \<and> org_owner_count m d \<le> 1)"
  then show "\<exists>x \<in> set (tb_rows (db_members d)). x \<noteq> m \<and> m_org x = m_org m \<and> m_role x = OWNER"
    using member_t.another_row [of "db_members d" "\<lambda>x. m_org x = m_org m \<and> m_role x = OWNER" m]
    by (auto simp: org_owner_count_def keys_ok_def)
qed

lemma membership_delete_owned:
  assumes "keys_ok d" "owned d" "m \<in> set (tb_rows (db_members d))"
    and "membership_delete m d = Inr d'"
  shows "owned d'"
  using assms model_guard.delete_keeps_owned [of d m]
  by (auto simp: membership_delete_def split: if_splits)

lemma organization_delete_owned: "owned d \<Longrightarrow> owned (organization_delete k d)"
  by (fastforce simp: owned_def organization_delete_def)

lemma organization_delete_keys: "keys_ok d \<Longrightarrow> keys_ok (organization_delete k d)"
  by (auto simp: keys_ok_def organization_delete_def)

lemma save_member_role_keys: "keys_ok d \<Longrightarrow> keys_ok (save_member_role m r d)"
  by (auto simp: keys_ok_def save_member_role_def intro: wf_updates)

lemma delete_member_row_keys: "keys_ok d \<Longrightarrow> keys_ok (delete_member_row m d)"
  by (auto simp: keys_ok_def delete_member_row_def)

end
