(* ===== verification/Billing_Models.thy ===== *)
theory Billing_Models
  imports Org_Models
begin

section \<open>Plans, subscriptions and limits (billing/models.py, signals.py, limits.py, seeding)\<close>

text \<open>
  The plan catalogue, the subscription row every organization gets when it is created (the
  \<open>post_save\<close> receiver), the seeding command and migrations, and the limit checks of
  \<open>billing/limits.py\<close>. The locale \<open>capped_resource\<close> is the contract between a limit check and the
  operations that create what it counts; projects and seats interpret it.
\<close>

definition FREE_PLAN_CODE :: string where
  "FREE_PLAN_CODE = ''free''"

definition DEFAULT_PLANS :: "(string \<times> string \<times> (string \<times> int option) list) list" where
  "DEFAULT_PLANS =
     [(''free'', ''Free'', [(''max_projects'', Some 3), (''max_members'', Some 3)]),
      (''pro'', ''Pro'', [(''max_projects'', Some 25), (''max_members'', Some 10)]),
      (''business'', ''Business'', [(''max_projects'', None), (''max_members'', None)])]"

definition limits_get :: "(string \<times> int option) list \<Rightarrow> string \<Rightarrow> int option" where
  \<comment> \<open>\<open>limits.get(key)\<close>: a missing key and \<open>null\<close> both give \<open>None\<close>\<close>
  "limits_get limits key = (case map_of limits key of None \<Rightarrow> None | Some v \<Rightarrow> v)"

definition plan_limit :: "plan \<Rightarrow> string \<Rightarrow> int option" where
  "plan_limit p key = limits_get (p_limits p) key"

definition ACTIVE :: string where "ACTIVE = ''active''"
definition PAST_DUE :: string where "PAST_DUE = ''past_due''"
definition CANCELED :: string where "CANCELED = ''canceled''"
definition INCOMPLETE :: string where "INCOMPLETE = ''incomplete''"

lemma sub_status_distinct [simp]:
  "ACTIVE \<noteq> PAST_DUE" "PAST_DUE \<noteq> ACTIVE" "ACTIVE \<noteq> CANCELED" "CANCELED \<noteq> ACTIVE"
  "ACTIVE \<noteq> INCOMPLETE" "INCOMPLETE \<noteq> ACTIVE" "PAST_DUE \<noteq> CANCELED" "CANCELED \<noteq> PAST_DUE"
  "PAST_DUE \<noteq> INCOMPLETE" "INCOMPLETE \<noteq> PAST_DUE" "CANCELED \<noteq> INCOMPLETE" "INCOMPLETE \<noteq> CANCELED"
  by (simp_all add: ACTIVE_def PAST_DUE_def CANCELED_def INCOMPLETE_def)

subsection \<open>Subscriptions\<close>

definition new_subscription :: "time \<Rightarrow> key \<Rightarrow> key \<Rightarrow> subscription" where
  "new_subscription now org plan =
     \<lparr>s_id = 0, s_org = org, s_plan = plan, s_stripe_customer_id = [],
      s_stripe_subscription_id = [], s_status = ACTIVE, s_current_period_end = None,
      s_updated_at = now\<rparr>"

definition sub_of_org :: "key \<Rightarrow> db \<Rightarrow> subscription option" where
  \<comment> \<open>\<open>Subscription.objects.filter(organization=org).first()\<close>\<close>
  "sub_of_org k d = tbl_first (\<lambda>s. s_org s = k) (db_subs d)"

definition free_plan :: "db \<Rightarrow> plan option" where
  "free_plan d = tbl_first (\<lambda>p. p_code p = FREE_PLAN_CODE) (db_plans d)"

definition get_or_create_subscription :: "time \<Rightarrow> key \<Rightarrow> key \<Rightarrow> db \<Rightarrow> db" where
  "get_or_create_subscription now org plan d =
     (case sub_of_org org d of
        Some _ \<Rightarrow> d
      | None \<Rightarrow> d\<lparr>db_subs := tbl_insert set_s_id (new_subscription now org plan) (db_subs d)\<rparr>)"

definition create_free_subscription :: "bool \<Rightarrow> time \<Rightarrow> key \<Rightarrow> db \<Rightarrow> db" where
  "create_free_subscription created now org d =
     (if \<not> created then d
      else case free_plan d of
        None \<Rightarrow> d
      | Some free \<Rightarrow> get_or_create_subscription now org (p_id free) d)"

definition one_sub_per_org :: "db \<Rightarrow> bool" where
  \<comment> \<open>the one-to-one column\<close>
  "one_sub_per_org d \<longleftrightarrow> inj_on s_org (set (tb_rows (db_subs d)))"

lemma sub_of_org_Some:
  "sub_of_org k d = Some s \<Longrightarrow> s \<in> set (tb_rows (db_subs d)) \<and> s_org s = k"
  unfolding sub_of_org_def by (rule tbl_first_Some)

lemma sub_of_org_None: "sub_of_org k d = None \<longleftrightarrow> (\<forall>s \<in> set (tb_rows (db_subs d)). s_org s \<noteq> k)"
  unfolding sub_of_org_def by (rule tbl_first_None)

lemma sub_of_org_iff:
  assumes "one_sub_per_org d"
  shows "sub_of_org k d = Some s \<longleftrightarrow> s \<in> set (tb_rows (db_subs d)) \<and> s_org s = k"
proof
  assume s: "s \<in> set (tb_rows (db_subs d)) \<and> s_org s = k"
  then obtain s' where s': "sub_of_org k d = Some s'"
    using sub_of_org_None [of k d] by (cases "sub_of_org k d") auto
  with sub_of_org_Some [OF s'] assms s have "s' = s"
    by (auto simp: one_sub_per_org_def dest: inj_onD)
  with s' show "sub_of_org k d = Some s" by simp
qed (rule sub_of_org_Some)

lemma get_or_create_subscription_frame [simp]:
  "db_users (get_or_create_subscription now k p d) = db_users d"
  "db_orgs (get_or_create_subscription now k p d) = db_orgs d"
  "db_members (get_or_create_subscription now k p d) = db_members d"
  "db_invites (get_or_create_subscription now k p d) = db_invites d"
  "db_plans (get_or_create_subscription now k p d) = db_plans d"
  "db_events (get_or_create_subscription now k p d) = db_events d"
  "db_projects (get_or_create_subscription now k p d) = db_projects d"
  "db_queue (get_or_create_subscription now k p d) = db_queue d"
  by (simp_all add: get_or_create_subscription_def split: option.splits)

lemma create_free_subscription_frame [simp]:
  "db_users (create_free_subscription c now k d) = db_users d"
  "db_orgs (create_free_subscription c now k d) = db_orgs d"
  "db_members (create_free_subscription c now k d) = db_members d"
  "db_invites (create_free_subscription c now k d) = db_invites d"
  "db_plans (create_free_subscription c now k d) = db_plans d"
  "db_events (create_free_subscription c now k d) = db_events d"
  "db_projects (create_free_subscription c now k d) = db_projects d"
  "db_queue (create_free_subscription c now k d) = db_queue d"
  by (simp_all add: create_free_subscription_def split: option.splits)

lemma get_or_create_subscription_one:
  "one_sub_per_org d \<Longrightarrow> one_sub_per_org (get_or_create_subscription now k p d)"
  using sub_of_org_None [of k d]
  by (auto simp: one_sub_per_org_def get_or_create_subscription_def
      new_subscription_def inj_on_def split: option.splits)

lemma create_free_subscription_one:
  "one_sub_per_org d \<Longrightarrow> one_sub_per_org (create_free_subscription c now k d)"
  by (auto simp: create_free_subscription_def get_or_create_subscription_one split: option.splits)

lemma get_or_create_subscription_keys:
  "keys_ok d \<Longrightarrow> keys_ok (get_or_create_subscription now k p d)"
  by (auto simp: keys_ok_def get_or_create_subscription_def split: option.splits)

lemma create_free_subscription_keys:
  "keys_ok d \<Longrightarrow> keys_ok (create_free_subscription c now k d)"
  by (auto simp: create_free_subscription_def get_or_create_subscription_keys split: option.splits)

subsection \<open>The seeding command and the data migrations\<close>

definition update_or_create_plan ::
  "string \<Rightarrow> string \<Rightarrow> (string \<times> int option) list \<Rightarrow> string \<Rightarrow> db \<Rightarrow> db" where
  \<comment> \<open>\<open>Plan.objects.update_or_create(code=code, defaults=...)\<close>; an empty price id is not among the defaults\<close>
  "update_or_create_plan code name limits price d =
     (if tbl_exists (\<lambda>p. p_code p = code) (db_plans d)
      then d\<lparr>db_plans := tbl_update_where (\<lambda>p. p_code p = code)
        (\<lambda>p. p\<lparr>p_name := name, p_limits := limits, p_is_active := True,
               p_stripe_price_id := (if truthy price then price else p_stripe_price_id p)\<rparr>)
        (db_plans d)\<rparr>
      else d\<lparr>db_plans := tbl_insert set_p_id
        \<lparr>p_id = 0, p_code = code, p_name = name, p_stripe_price_id = price, p_limits = limits,
         p_is_active = True\<rparr> (db_plans d)\<rparr>)"

definition PRICE_ENV :: "(string \<times> string) list" where
  "PRICE_ENV = [(''pro'', ''STRIPE_PRICE_PRO''), (''business'', ''STRIPE_PRICE_BUSINESS'')]"

definition seed_plans_command :: "(string \<Rightarrow> string) \<Rightarrow> db \<Rightarrow> db" where
  \<comment> \<open>the settings' prices are the argument: \<open>getattr(settings, name, "")\<close>\<close>
  "seed_plans_command setting d =
     fold (\<lambda>(code, name, limits).
       update_or_create_plan code name limits
         (case map_of PRICE_ENV code of Some v \<Rightarrow> setting v | None \<Rightarrow> []))
       DEFAULT_PLANS d"

definition MIGRATION_PLANS :: "(string \<times> string \<times> (string \<times> int option) list) list" where
  \<comment> \<open>\<open>PLANS\<close>, the migration's own copy\<close>
  "MIGRATION_PLANS =
     [(''free'', ''Free'', [(''max_projects'', Some 3), (''max_members'', Some 3)]),
      (''pro'', ''Pro'', [(''max_projects'', Some 25), (''max_members'', Some 10)]),
      (''business'', ''Business'', [(''max_projects'', None), (''max_members'', None)])]"

definition seed_plans_migration :: "db \<Rightarrow> db" where
  \<comment> \<open>no price among the defaults: a new row gets the column's empty string\<close>
  "seed_plans_migration d =
     fold (\<lambda>(code, name, limits). update_or_create_plan code name limits []) MIGRATION_PLANS d"

definition unseed_plans_migration :: "db \<Rightarrow> exn + db" where
  \<comment> \<open>\<open>Subscription.plan\<close> is \<open>PROTECT\<close>\<close>
  "unseed_plans_migration d =
     (let doomed = tbl_filter (\<lambda>p. p_code p \<in> set (map fst MIGRATION_PLANS)) (db_plans d)
      in if tbl_exists (\<lambda>s. s_plan s \<in> set (map p_id doomed)) (db_subs d) then Inl ProtectedError
         else Inr (d\<lparr>db_plans := tbl_delete_where
           (\<lambda>p. p_code p \<in> set (map fst MIGRATION_PLANS)) (db_plans d)\<rparr>))"

lemma migration_plans_agree: "MIGRATION_PLANS = DEFAULT_PLANS"
  by (simp add: MIGRATION_PLANS_def DEFAULT_PLANS_def)

lemma seed_plans_migration_eq:
  "seed_plans_migration d =
     fold (\<lambda>(code, name, limits). update_or_create_plan code name limits []) DEFAULT_PLANS d"
  by (simp only: seed_plans_migration_def migration_plans_agree)

definition backfill :: "time \<Rightarrow> db \<Rightarrow> db" where
  "backfill now d =
     (case tbl_first (\<lambda>p. p_code p = ''free'') (db_plans d) of
        None \<Rightarrow> d
      | Some free \<Rightarrow>
          fold (\<lambda>org. get_or_create_subscription now (o_id org) (p_id free))
            (tbl_filter (\<lambda>org. sub_of_org (o_id org) d = None) (db_orgs d)) d)"

subsection \<open>Limits\<close>

definition lock_billing :: "key \<Rightarrow> db \<Rightarrow> key list" where
  \<comment> \<open>the subscription rows \<open>select_for_update\<close> locks; see \<open>Races\<close> for what the lock does\<close>
  "lock_billing org d = map s_id (tbl_filter (\<lambda>s. s_org s = org) (db_subs d))"

definition limit_of :: "key \<Rightarrow> string \<Rightarrow> db \<Rightarrow> int option" where
  \<comment> \<open>\<open>_limit\<close>; the foreign key \<open>plan\<close> is not null and finds its row\<close>
  "limit_of org key d =
     (case sub_of_org org d of
        Some s \<Rightarrow>
          (case tbl_get p_id (s_plan s) (db_plans d) of
             Some p \<Rightarrow> plan_limit p key
           | None \<Rightarrow> None)
      | None \<Rightarrow>
          (case map_of DEFAULT_PLANS FREE_PLAN_CODE of
             Some (_, limits) \<Rightarrow> limits_get limits key
           | None \<Rightarrow> None))"

definition project_count :: "key \<Rightarrow> db \<Rightarrow> nat" where
  "project_count org d = tbl_count (\<lambda>p. pr_org p = org) (db_projects d)"

definition member_count :: "key \<Rightarrow> db \<Rightarrow> nat" where
  "member_count org d = tbl_count (\<lambda>m. m_org m = org) (db_members d)"

definition pending_count :: "key \<Rightarrow> db \<Rightarrow> nat" where
  "pending_count org d = tbl_count (\<lambda>i. i_org i = org \<and> i_status i = PENDING) (db_invites d)"

definition check_can_create_project :: "key \<Rightarrow> db \<Rightarrow> exn + unit" where
  "check_can_create_project org d =
     (case limit_of org ''max_projects'' d of
        None \<Rightarrow> Inr ()
      | Some limit \<Rightarrow>
          (if limit \<le> int (project_count org d)
           then Inl (PlanLimitExceeded (''Your plan allows at most '' @ show_int limit @
             '' projects. Upgrade to create more.''))
           else Inr ()))"

definition check_can_invite_member :: "key \<Rightarrow> db \<Rightarrow> exn + unit" where
  "check_can_invite_member org d =
     (case limit_of org ''max_members'' d of
        None \<Rightarrow> Inr ()
      | Some limit \<Rightarrow>
          (let members = member_count org d; pending = pending_count org d
           in if limit \<le> int (members + pending)
              then Inl (PlanLimitExceeded (''Your plan allows at most '' @ show_int limit @
                '' members. Upgrade to add more.''))
              else Inr ()))"

definition seat_count :: "key \<Rightarrow> db \<Rightarrow> nat" where
  "seat_count org d = member_count org d + pending_count org d"

locale capped_resource =
  fixes used :: "key \<Rightarrow> db \<Rightarrow> nat"
    and cap :: "key \<Rightarrow> db \<Rightarrow> int option"
    and check :: "key \<Rightarrow> db \<Rightarrow> exn + unit"
  assumes check_allows:
      "check k d = Inr () \<longleftrightarrow> (case cap k d of None \<Rightarrow> True | Some l \<Rightarrow> int (used k d) < l)"
    and check_refuses: "check k d = Inl e \<Longrightarrow> status_code e = Some 402"
begin

text \<open>A cap of \<open>None\<close> is unlimited.\<close>

lemma check_cases:
  obtains "check k d = Inr ()" | e where "check k d = Inl e" "status_code e = Some 402"
  by (cases "check k d") (auto dest: check_refuses)

lemma refused_at_cap:
  assumes "cap k d = Some l" "l \<le> int (used k d)"
  shows "\<exists>e. check k d = Inl e \<and> status_code e = Some 402"
  using assms check_allows [of k d] by (cases k d rule: check_cases) auto

lemma create_within_cap:
  assumes "check k d = Inr ()" "cap k d' = cap k d" "used k d' \<le> used k d + 1" "cap k d' = Some l"
  shows "int (used k d') \<le> l"
proof -
  from assms have "cap k d = Some l" by simp
  with assms(1) check_allows [of k d] have "int (used k d) < l" by simp
  with assms(3) show ?thesis by simp
qed

lemma full_cap_blocks:
  assumes "cap k d = Some l" "int (used k d) = l"
  shows "check k d \<noteq> Inr ()"
  using assms check_allows [of k d] by simp

end

interpretation project_cap: capped_resource project_count
  "\<lambda>k. limit_of k ''max_projects''" check_can_create_project
  by unfold_locales
    (auto simp: check_can_create_project_def split: option.splits if_splits)

interpretation seat_cap: capped_resource seat_count
  "\<lambda>k. limit_of k ''max_members''" check_can_invite_member
  by unfold_locales
    (auto simp: check_can_invite_member_def seat_count_def Let_def split: option.splits if_splits)

lemma limit_of_cong:
  "sub_of_org k d = sub_of_org k d' \<Longrightarrow> db_plans d = db_plans d' \<Longrightarrow>
   limit_of k key d = limit_of k key d'"
  by (simp add: limit_of_def split: option.splits)

lemma limit_of_no_subscription:
  "sub_of_org k d = None \<Longrightarrow> limit_of k ''max_projects'' d = Some 3"
  "sub_of_org k d = None \<Longrightarrow> limit_of k ''max_members'' d = Some 3"
  by (simp_all add: limit_of_def DEFAULT_PLANS_def FREE_PLAN_CODE_def limits_get_def)

end
