(* ===== verification/Invariants.thy ===== *)
theory Invariants
  imports Billing_Models
begin

section \<open>The database invariant\<close>

text \<open>
  What holds between requests: primary keys are well-formed, no organization is without an Owner,
  foreign keys to an organization find it, and the unique columns are unique. \<open>unique_key\<close> is
  interpreted once per unique column; every row operation then keeps the invariant by one lemma,
  and the handlers' proofs are applications of those.
\<close>

definition member_pair :: "membership \<Rightarrow> key \<times> key" where
  "member_pair m = (m_user m, m_org m)"

definition unique_ok :: "db \<Rightarrow> bool" where
  "unique_ok d \<longleftrightarrow>
     tbl_unique o_slug (db_orgs d) \<and> tbl_unique member_pair (db_members d) \<and>
     tbl_unique s_org (db_subs d) \<and> tbl_unique i_token (db_invites d) \<and>
     tbl_unique w_stripe_event_id (db_events d) \<and> tbl_unique u_email (db_users d)"

interpretation slug_key: unique_key o_id set_o_id o_slug by unfold_locales simp
interpretation pair_key: unique_key m_id set_m_id member_pair
  by unfold_locales (simp add: member_pair_def)
interpretation sub_key: unique_key s_id set_s_id s_org by unfold_locales simp
interpretation token_key: unique_key i_id set_i_id i_token by unfold_locales simp
interpretation event_key: unique_key w_id set_w_id w_stripe_event_id by unfold_locales simp
interpretation email_key: unique_key u_id set_u_id u_email by unfold_locales simp

lemmas unique_inserts =
  slug_key.unique_insert pair_key.unique_insert sub_key.unique_insert token_key.unique_insert
  event_key.unique_insert email_key.unique_insert

lemmas unique_updates =
  slug_key.unique_update pair_key.unique_update sub_key.unique_update token_key.unique_update
  event_key.unique_update email_key.unique_update

lemmas unique_deletes [intro] =
  slug_key.unique_delete pair_key.unique_delete sub_key.unique_delete token_key.unique_delete
  event_key.unique_delete email_key.unique_delete

definition org_keys :: "db \<Rightarrow> key set" where
  "org_keys d = o_id ` set (tb_rows (db_orgs d))"

definition refs_ok :: "db \<Rightarrow> bool" where
  "refs_ok d \<longleftrightarrow>
     (\<forall>m \<in> set (tb_rows (db_members d)). m_org m \<in> org_keys d) \<and>
     (\<forall>s \<in> set (tb_rows (db_subs d)). s_org s \<in> org_keys d) \<and>
     (\<forall>i \<in> set (tb_rows (db_invites d)). i_org i \<in> org_keys d) \<and>
     (\<forall>p \<in> set (tb_rows (db_projects d)). pr_org p \<in> org_keys d)"

definition db_inv :: "db \<Rightarrow> bool" where
  "db_inv d \<longleftrightarrow> keys_ok d \<and> owned d \<and> refs_ok d \<and> unique_ok d"

lemma db_invD:
  assumes "db_inv d"
  shows "keys_ok d" "owned d" "refs_ok d" "unique_ok d"
  using assms by (simp_all add: db_inv_def)

lemma one_sub_of_inv: "db_inv d \<Longrightarrow> one_sub_per_org d"
  by (simp add: db_inv_def unique_ok_def one_sub_per_org_def tbl_unique_def)

text \<open>A write that leaves the tables of the invariant alone keeps it.\<close>

lemma db_inv_frame:
  assumes "db_inv d" and "db_users d' = db_users d" "db_orgs d' = db_orgs d"
    "db_members d' = db_members d" "db_invites d' = db_invites d" "db_plans d' = db_plans d"
    "db_subs d' = db_subs d" "db_events d' = db_events d" "db_projects d' = db_projects d"
  shows "db_inv d'"
  using assms by (simp add: db_inv_def keys_ok_def owned_def refs_ok_def unique_ok_def org_keys_def)

lemma fresh_org_key:
  assumes "keys_ok d"
  shows "tb_next (db_orgs d) \<notin> org_keys d"
  using assms by (auto simp: keys_ok_def tbl_wf_def org_keys_def)

subsection \<open>Row operations\<close>

lemma inv_delete_member:
  assumes "db_inv d" and "owned (delete_member_row m d)"
  shows "db_inv (delete_member_row m d)"
  using assms unfolding db_inv_def
  by (auto simp: delete_member_row_keys refs_ok_def unique_ok_def org_keys_def)
     (auto simp: delete_member_row_def)

lemma inv_save_role:
  assumes "db_inv d" and "owned (save_member_role m r d)"
  shows "db_inv (save_member_role m r d)"
proof -
  have "refs_ok (save_member_role m r d)"
    using db_invD(3) [OF assms(1)] by (auto simp: refs_ok_def org_keys_def save_member_role_def)
  moreover have "unique_ok (save_member_role m r d)"
    using db_invD(4) [OF assms(1)]
    by (auto simp: unique_ok_def save_member_role_def member_pair_def intro!: pair_key.unique_update)
  ultimately show ?thesis
    using assms(2) save_member_role_keys [OF db_invD(1) [OF assms(1)]] by (simp add: db_inv_def)
qed

lemma inv_organization_delete: "db_inv d \<Longrightarrow> db_inv (organization_delete k d)"
proof -
  assume inv: "db_inv d"
  have "refs_ok (organization_delete k d)"
    using db_invD(3) [OF inv] by (fastforce simp: refs_ok_def org_keys_def organization_delete_def)
  moreover have "unique_ok (organization_delete k d)"
    using db_invD(4) [OF inv] by (auto simp: unique_ok_def organization_delete_def)
  ultimately show ?thesis
    using inv by (simp add: db_inv_def organization_delete_keys organization_delete_owned)
qed

lemma inv_insert_member:
  assumes inv: "db_inv d" and org: "m_org m \<in> org_keys d"
    and new: "\<not> tbl_exists (\<lambda>x. member_pair x = member_pair m) (db_members d)"
  shows "db_inv (d\<lparr>db_members := tbl_insert set_m_id m (db_members d)\<rparr>)"
proof -
  let ?d = "d\<lparr>db_members := tbl_insert set_m_id m (db_members d)\<rparr>"
  have "keys_ok ?d" using db_invD(1) [OF inv] by (auto simp: keys_ok_def)
  moreover have "owned ?d" using db_invD(2) [OF inv] by (fastforce simp: owned_def)
  moreover have "refs_ok ?d" using db_invD(3) [OF inv] org by (auto simp: refs_ok_def org_keys_def)
  moreover have "unique_ok ?d"
    using db_invD(4) [OF inv] new by (auto simp: unique_ok_def intro!: pair_key.unique_insert)
  ultimately show ?thesis by (simp add: db_inv_def)
qed

lemma inv_insert_invite:
  assumes inv: "db_inv d" and org: "i_org i \<in> org_keys d"
    and new: "\<not> tbl_exists (\<lambda>x. i_token x = i_token i) (db_invites d)"
  shows "db_inv (d\<lparr>db_invites := tbl_insert set_i_id i (db_invites d)\<rparr>)"
proof -
  let ?d = "d\<lparr>db_invites := tbl_insert set_i_id i (db_invites d)\<rparr>"
  have "keys_ok ?d" using db_invD(1) [OF inv] by (auto simp: keys_ok_def)
  moreover have "owned ?d" using db_invD(2) [OF inv] by (simp add: owned_def)
  moreover have "refs_ok ?d" using db_invD(3) [OF inv] org by (auto simp: refs_ok_def org_keys_def)
  moreover have "unique_ok ?d"
    using db_invD(4) [OF inv] new by (auto simp: unique_ok_def intro!: token_key.unique_insert)
  ultimately show ?thesis by (simp add: db_inv_def)
qed

lemma inv_update_invite:
  assumes inv: "db_inv d" and f: "\<And>i. i_id (f i) = i_id i" "\<And>i. i_org (f i) = i_org i"
    "\<And>i. i_token (f i) = i_token i"
  shows "db_inv (d\<lparr>db_invites := tbl_update_where P f (db_invites d)\<rparr>)"
proof -
  let ?d = "d\<lparr>db_invites := tbl_update_where P f (db_invites d)\<rparr>"
  have "keys_ok ?d" using db_invD(1) [OF inv] f by (auto simp: keys_ok_def intro!: invite_t.wf_update)
  moreover have "owned ?d" using db_invD(2) [OF inv] by (simp add: owned_def)
  moreover have "refs_ok ?d" using db_invD(3) [OF inv] f by (auto simp: refs_ok_def org_keys_def)
  moreover have "unique_ok ?d"
    using db_invD(4) [OF inv] f by (auto simp: unique_ok_def intro!: token_key.unique_update)
  ultimately show ?thesis by (simp add: db_inv_def)
qed

lemma inv_update_sub:
  assumes inv: "db_inv d" and f: "\<And>s. s_id (f s) = s_id s" "\<And>s. s_org (f s) = s_org s"
  shows "db_inv (d\<lparr>db_subs := tbl_update_where P f (db_subs d)\<rparr>)"
proof -
  let ?d = "d\<lparr>db_subs := tbl_update_where P f (db_subs d)\<rparr>"
  have "keys_ok ?d" using db_invD(1) [OF inv] f by (auto simp: keys_ok_def intro!: sub_t.wf_update)
  moreover have "owned ?d" using db_invD(2) [OF inv] by (simp add: owned_def)
  moreover have "refs_ok ?d" using db_invD(3) [OF inv] f by (auto simp: refs_ok_def org_keys_def)
  moreover have "unique_ok ?d"
    using db_invD(4) [OF inv] f by (auto simp: unique_ok_def intro!: sub_key.unique_update)
  ultimately show ?thesis by (simp add: db_inv_def)
qed

lemma inv_insert_sub:
  assumes inv: "db_inv d" and org: "s_org s \<in> org_keys d"
    and new: "\<not> tbl_exists (\<lambda>x. s_org x = s_org s) (db_subs d)"
  shows "db_inv (d\<lparr>db_subs := tbl_insert set_s_id s (db_subs d)\<rparr>)"
proof -
  let ?d = "d\<lparr>db_subs := tbl_insert set_s_id s (db_subs d)\<rparr>"
  have "keys_ok ?d" using db_invD(1) [OF inv] by (auto simp: keys_ok_def)
  moreover have "owned ?d" using db_invD(2) [OF inv] by (simp add: owned_def)
  moreover have "refs_ok ?d" using db_invD(3) [OF inv] org by (auto simp: refs_ok_def org_keys_def)
  moreover have "unique_ok ?d"
    using db_invD(4) [OF inv] new by (auto simp: unique_ok_def intro!: sub_key.unique_insert)
  ultimately show ?thesis by (simp add: db_inv_def)
qed

lemma inv_insert_event:
  assumes inv: "db_inv d"
    and new: "\<not> tbl_exists (\<lambda>x. w_stripe_event_id x = w_stripe_event_id w) (db_events d)"
  shows "db_inv (d\<lparr>db_events := tbl_insert set_w_id w (db_events d)\<rparr>)"
proof -
  let ?d = "d\<lparr>db_events := tbl_insert set_w_id w (db_events d)\<rparr>"
  have "keys_ok ?d" using db_invD(1) [OF inv] by (auto simp: keys_ok_def)
  moreover have "owned ?d" using db_invD(2) [OF inv] by (simp add: owned_def)
  moreover have "refs_ok ?d" using db_invD(3) [OF inv] by (simp add: refs_ok_def org_keys_def)
  moreover have "unique_ok ?d"
    using db_invD(4) [OF inv] new by (auto simp: unique_ok_def intro!: event_key.unique_insert)
  ultimately show ?thesis by (simp add: db_inv_def)
qed

lemma inv_insert_project:
  assumes inv: "db_inv d" and org: "pr_org p \<in> org_keys d"
  shows "db_inv (d\<lparr>db_projects := tbl_insert set_pr_id p (db_projects d)\<rparr>)"
  using assms by (auto simp: db_inv_def keys_ok_def owned_def refs_ok_def unique_ok_def org_keys_def)

lemma inv_update_project:
  assumes inv: "db_inv d"
    and f: "\<And>p. P p \<Longrightarrow> p \<in> set (tb_rows (db_projects d)) \<Longrightarrow> pr_id (f p) = pr_id p \<and> pr_org (f p) = pr_org p"
  shows "db_inv (d\<lparr>db_projects := tbl_update_where P f (db_projects d)\<rparr>)"
proof -
  let ?d = "d\<lparr>db_projects := tbl_update_where P f (db_projects d)\<rparr>"
  have "tbl_wf pr_id (tbl_update_where P f (db_projects d))"
    using db_invD(1) [OF inv] f by (intro tbl_wf_update_rows) (auto simp: keys_ok_def)
  then have "keys_ok ?d" using db_invD(1) [OF inv] by (simp add: keys_ok_def)
  moreover have "owned ?d" using db_invD(2) [OF inv] by (simp add: owned_def)
  moreover have "refs_ok ?d" using db_invD(3) [OF inv] f by (auto simp: refs_ok_def org_keys_def)
  moreover have "unique_ok ?d" using db_invD(4) [OF inv] by (simp add: unique_ok_def)
  ultimately show ?thesis by (simp add: db_inv_def)
qed

lemma inv_delete_project:
  "db_inv d \<Longrightarrow> db_inv (d\<lparr>db_projects := tbl_delete_where P (db_projects d)\<rparr>)"
  by (auto simp: db_inv_def keys_ok_def owned_def refs_ok_def unique_ok_def org_keys_def)

lemma inv_get_or_create_subscription:
  assumes "db_inv d" "k \<in> org_keys d"
  shows "db_inv (get_or_create_subscription now k p d)"
proof (cases "sub_of_org k d")
  case None
  then have "\<not> tbl_exists (\<lambda>x. s_org x = s_org (new_subscription now k p)) (db_subs d)"
    by (simp add: sub_of_org_None tbl_exists_iff new_subscription_def)
  with None inv_insert_sub [OF assms(1), of "new_subscription now k p"] assms(2) show ?thesis
    by (simp add: get_or_create_subscription_def new_subscription_def)
qed (use assms in \<open>simp add: get_or_create_subscription_def\<close>)

lemma inv_create_free_subscription:
  "db_inv d \<Longrightarrow> k \<in> org_keys d \<Longrightarrow> db_inv (create_free_subscription c now k d)"
  by (auto simp: create_free_subscription_def inv_get_or_create_subscription split: option.splits)

text \<open>Saving an organization's name keeps the invariant; so does the plan catalogue.\<close>

lemma inv_update_org:
  assumes inv: "db_inv d" and f: "\<And>x. o_id (f x) = o_id x" "\<And>x. o_slug (f x) = o_slug x"
  shows "db_inv (d\<lparr>db_orgs := tbl_update_where P f (db_orgs d)\<rparr>)"
proof -
  let ?d = "d\<lparr>db_orgs := tbl_update_where P f (db_orgs d)\<rparr>"
  have k: "org_keys ?d = org_keys d"
    using update_image_key [of "db_orgs d" P o_id f] f
    by (simp add: org_keys_def del: tbl_rows_simps)
  have "keys_ok ?d" using db_invD(1) [OF inv] f by (auto simp: keys_ok_def intro!: org_t.wf_update)
  moreover have "owned ?d" using db_invD(2) [OF inv] f by (auto simp: owned_def)
  moreover have "refs_ok ?d" using db_invD(3) [OF inv] by (simp add: refs_ok_def k)
  moreover have "unique_ok ?d"
    using db_invD(4) [OF inv] f by (auto simp: unique_ok_def intro!: slug_key.unique_update)
  ultimately show ?thesis by (simp add: db_inv_def)
qed

end
