(* ===== verification/Users.thy ===== *)
theory Users
  imports Invariants
begin

section \<open>Users (accounts/models.py, accounts/managers.py)\<close>

text \<open>
  The user table's own constraints, \<open>full_name\<close>, and the manager that creates users. Django's
  \<open>normalize_email\<close> and \<open>make_password\<close> are arguments. \<open>emails_lower\<close> is what creation keeps: every
  stored address is in lower case, so login and lookup are case-insensitive.
\<close>

definition full_name :: "user \<Rightarrow> string" where
  \<comment> \<open>\<open>self.get_full_name() or self.email\<close>\<close>
  "full_name u =
     (let n = str_strip (u_first_name u @ '' '' @ u_last_name u)
      in if truthy n then n else u_email u)"

definition user_insert :: "user \<Rightarrow> db \<Rightarrow> exn + (user \<times> db)" where
  \<comment> \<open>\<open>unique=True\<close> on the address and \<open>user_email_ci_unique\<close> on its lower case\<close>
  "user_insert u d =
     bind_res (char_field 254 (u_email u)) (\<lambda>_.
     bind_res (char_field 150 (u_first_name u)) (\<lambda>_.
     bind_res (char_field 150 (u_last_name u)) (\<lambda>_.
     bind_res (char_field 128 (u_password u)) (\<lambda>_.
       if tbl_exists (\<lambda>x. u_email x = u_email u) (db_users d)
       then Inl (IntegrityError ''accounts_user_email_key'')
       else if tbl_exists (\<lambda>x. str_lower (u_email x) = str_lower (u_email u)) (db_users d)
       then Inl (IntegrityError ''user_email_ci_unique'')
       else Inr (set_u_id (tb_next (db_users d)) u,
                 d\<lparr>db_users := tbl_insert set_u_id u (db_users d)\<rparr>)))))"

record extra_fields =
  x_is_staff :: "bool option"
  x_is_superuser :: "bool option"
  x_is_email_verified :: "bool option"
  x_first_name :: string
  x_last_name :: string

definition setdefault :: "bool option \<Rightarrow> bool \<Rightarrow> bool option" where
  "setdefault v b = (case v of None \<Rightarrow> Some b | Some x \<Rightarrow> Some x)"

definition flag :: "bool option \<Rightarrow> bool" where
  \<comment> \<open>an absent field takes the column's default, which is \<open>False\<close> for the three flags\<close>
  "flag v = (v = Some True)"

definition create_user_row ::
  "(string \<Rightarrow> string) \<Rightarrow> (string option \<Rightarrow> string) \<Rightarrow> time \<Rightarrow> string \<Rightarrow> string option \<Rightarrow>
   extra_fields \<Rightarrow> db \<Rightarrow> exn + (user \<times> db)" where
  \<comment> \<open>\<open>_create_user\<close>\<close>
  "create_user_row normalize_email make_password now email password extra d =
     (if \<not> truthy email then Inl PyValueError
      else user_insert
        \<lparr>u_id = 0, u_password = make_password password, u_last_login = None,
         u_is_superuser = flag (x_is_superuser extra), u_first_name = x_first_name extra,
         u_last_name = x_last_name extra, u_is_staff = flag (x_is_staff extra), u_is_active = True,
         u_date_joined = now, u_email = str_lower (normalize_email email),
         u_is_email_verified = flag (x_is_email_verified extra)\<rparr> d)"

definition create_user ::
  "(string \<Rightarrow> string) \<Rightarrow> (string option \<Rightarrow> string) \<Rightarrow> time \<Rightarrow> string \<Rightarrow> string option \<Rightarrow>
   extra_fields \<Rightarrow> db \<Rightarrow> exn + (user \<times> db)" where
  "create_user normalize_email make_password now email password extra d =
     create_user_row normalize_email make_password now email password
       (extra\<lparr>x_is_staff := setdefault (x_is_staff extra) False,
              x_is_superuser := setdefault (x_is_superuser extra) False\<rparr>) d"

definition create_superuser ::
  "(string \<Rightarrow> string) \<Rightarrow> (string option \<Rightarrow> string) \<Rightarrow> time \<Rightarrow> string \<Rightarrow> string option \<Rightarrow>
   extra_fields \<Rightarrow> db \<Rightarrow> exn + (user \<times> db)" where
  "create_superuser normalize_email make_password now email password extra d =
     (let extra' = extra\<lparr>x_is_staff := setdefault (x_is_staff extra) True,
                         x_is_superuser := setdefault (x_is_superuser extra) True,
                         x_is_email_verified := setdefault (x_is_email_verified extra) True\<rparr>
      in if x_is_staff extra' \<noteq> Some True then Inl PyValueError
         else if x_is_superuser extra' \<noteq> Some True then Inl PyValueError
         else create_user_row normalize_email make_password now email password extra' d)"

definition emails_lower :: "db \<Rightarrow> bool" where
  "emails_lower d \<longleftrightarrow> (\<forall>u \<in> set (tb_rows (db_users d)). str_lower (u_email u) = u_email u)"

lemma user_insert_Inr:
  "user_insert u d = Inr (v, d') \<longleftrightarrow>
     length (u_email u) \<le> 254 \<and> length (u_first_name u) \<le> 150 \<and> length (u_last_name u) \<le> 150 \<and>
     length (u_password u) \<le> 128 \<and>
     (\<forall>x \<in> set (tb_rows (db_users d)). str_lower (u_email x) \<noteq> str_lower (u_email u)) \<and>
     v = set_u_id (tb_next (db_users d)) u \<and> d' = d\<lparr>db_users := tbl_insert set_u_id u (db_users d)\<rparr>"
  by (auto simp: user_insert_def char_field_def guard_simps tbl_exists_iff)

lemma inv_insert_user:
  assumes inv: "db_inv d" and new: "\<not> tbl_exists (\<lambda>x. u_email x = u_email u) (db_users d)"
  shows "db_inv (d\<lparr>db_users := tbl_insert set_u_id u (db_users d)\<rparr>)"
proof -
  let ?d = "d\<lparr>db_users := tbl_insert set_u_id u (db_users d)\<rparr>"
  have "keys_ok ?d" using db_invD(1) [OF inv] by (auto simp: keys_ok_def)
  moreover have "owned ?d" using db_invD(2) [OF inv] by (simp add: owned_def)
  moreover have "refs_ok ?d" using db_invD(3) [OF inv] by (simp add: refs_ok_def org_keys_def)
  moreover have "unique_ok ?d"
    using db_invD(4) [OF inv] new by (auto simp: unique_ok_def intro!: email_key.unique_insert)
  ultimately show ?thesis by (simp add: db_inv_def)
qed

lemma inv_update_user:
  assumes inv: "db_inv d" and f: "\<And>u. u_id (f u) = u_id u" "\<And>u. u_email (f u) = u_email u"
  shows "db_inv (d\<lparr>db_users := tbl_update_where P f (db_users d)\<rparr>)"
proof -
  let ?d = "d\<lparr>db_users := tbl_update_where P f (db_users d)\<rparr>"
  have "keys_ok ?d" using db_invD(1) [OF inv] f by (auto simp: keys_ok_def intro!: user_t.wf_update)
  moreover have "owned ?d" using db_invD(2) [OF inv] by (simp add: owned_def)
  moreover have "refs_ok ?d" using db_invD(3) [OF inv] by (simp add: refs_ok_def org_keys_def)
  moreover have "unique_ok ?d"
    using db_invD(4) [OF inv] f by (auto simp: unique_ok_def intro!: email_key.unique_update)
  ultimately show ?thesis by (simp add: db_inv_def)
qed

lemma user_insert_inv: "db_inv d \<Longrightarrow> user_insert u d = Inr (v, d') \<Longrightarrow> db_inv d'"
  by (auto simp: user_insert_Inr tbl_exists_iff intro!: inv_insert_user) metis

lemma create_user_row_Inr:
  assumes "create_user_row ne mp now email password extra d = Inr (u, d')"
  shows "email \<noteq> []" "u_email u = str_lower (ne email)" "u_password u = mp password"
    "u \<in> set (tb_rows (db_users d'))" "u_is_active u"
    "u_is_staff u = flag (x_is_staff extra)" "u_is_superuser u = flag (x_is_superuser extra)"
    "u_is_email_verified u = flag (x_is_email_verified extra)"
    "u_first_name u = x_first_name extra" "u_last_name u = x_last_name extra"
    "u_last_login u = None" "u_id u = tb_next (db_users d)"
    "\<forall>x \<in> set (tb_rows (db_users d)). str_lower (u_email x) \<noteq> u_email u"
    "d' = d\<lparr>db_users := tbl_insert set_u_id u (db_users d)\<rparr>"
  using assms by (auto simp: create_user_row_def user_insert_Inr split: if_splits)

lemma create_user_row_keeps:
  assumes "create_user_row ne mp now email password extra d = Inr (u, d')"
  shows "db_inv d \<Longrightarrow> db_inv d'" and "emails_lower d \<Longrightarrow> emails_lower d'"
proof -
  from assms obtain x where x: "user_insert x d = Inr (u, d')"
    by (auto simp: create_user_row_def split: if_splits)
  show "db_inv d \<Longrightarrow> db_inv d'" using user_insert_inv [OF _ x] .
  show "emails_lower d \<Longrightarrow> emails_lower d'"
    using create_user_row_Inr(2,14) [OF assms] by (auto simp: emails_lower_def)
qed

text \<open>User identity: an account is stored under the lower-case form of its normalized address,
  and creation succeeds only when no stored address is equal up to case. An ordinary account never
  gets a staff or superuser flag it was not given; a superuser gets both, or a \<open>ValueError\<close>.\<close>

theorem create_user_identity:
  assumes inv: "db_inv d" "emails_lower d"
  shows "(case create_user ne mp now email password extra d of
      Inl e \<Rightarrow> e \<in> {PyValueError, DataError, IntegrityError ''accounts_user_email_key''}
    | Inr (u, d') \<Rightarrow> db_inv d' \<and> emails_lower d' \<and> u_email u = str_lower (ne email) \<and>
        (\<forall>x \<in> set (tb_rows (db_users d)). str_lower (u_email x) \<noteq> str_lower (u_email u)) \<and>
        u_is_staff u = (x_is_staff extra = Some True) \<and>
        u_is_superuser u = (x_is_superuser extra = Some True)) \<and>
    (case create_superuser ne mp now email password extra d of
      Inl e \<Rightarrow> True
    | Inr (u, d') \<Rightarrow> u_is_staff u \<and> u_is_superuser u \<and> db_inv d' \<and> emails_lower d')"
proof
  let ?x = "extra\<lparr>x_is_staff := setdefault (x_is_staff extra) False,
              x_is_superuser := setdefault (x_is_superuser extra) False\<rparr>"
  show "case create_user ne mp now email password extra d of
      Inl e \<Rightarrow> e \<in> {PyValueError, DataError, IntegrityError ''accounts_user_email_key''}
    | Inr (u, d') \<Rightarrow> db_inv d' \<and> emails_lower d' \<and> u_email u = str_lower (ne email) \<and>
        (\<forall>x \<in> set (tb_rows (db_users d)). str_lower (u_email x) \<noteq> str_lower (u_email u)) \<and>
        u_is_staff u = (x_is_staff extra = Some True) \<and>
        u_is_superuser u = (x_is_superuser extra = Some True)"
  proof (cases "create_user_row ne mp now email password ?x d")
    case (Inl e)
    then have "e \<in> {PyValueError, DataError, IntegrityError ''accounts_user_email_key''}"
      using inv(2)
      by (auto simp: create_user_row_def user_insert_def guard_simps char_field_def tbl_exists_iff
          emails_lower_def split: if_splits)
    with Inl show ?thesis by (simp add: create_user_def)
  next
    case (Inr p)
    obtain u d' where p: "p = (u, d')" by (cases p)
    note row = Inr [unfolded p]
    have "u_is_staff u = (x_is_staff extra = Some True)"
      "u_is_superuser u = (x_is_superuser extra = Some True)"
      using create_user_row_Inr(6,7) [OF row]
      by (auto simp: flag_def setdefault_def split: option.splits)
    moreover have "str_lower (u_email u) = u_email u" using create_user_row_Inr(2) [OF row] by simp
    ultimately show ?thesis
      using row create_user_row_Inr(2,13) [OF row] create_user_row_keeps [OF row] inv
      by (simp add: create_user_def)
  qed
  show "case create_superuser ne mp now email password extra d of
      Inl e \<Rightarrow> True
    | Inr (u, d') \<Rightarrow> u_is_staff u \<and> u_is_superuser u \<and> db_inv d' \<and> emails_lower d'"
  proof (cases "create_superuser ne mp now email password extra d")
    case (Inr p)
    then obtain u d' ex where p: "p = (u, d')"
      "create_user_row ne mp now email password ex d = Inr (u, d')"
      "x_is_staff ex = Some True" "x_is_superuser ex = Some True"
      by (cases p) (auto simp: create_superuser_def Let_def split: if_splits)
    with Inr inv show ?thesis
      using create_user_row_Inr(6,7) [OF p(2)] create_user_row_keeps [OF p(2)]
      by (simp add: flag_def)
  qed simp
qed

end
