(* ===== verification/Tenancy.thy ===== *)
theory Tenancy
  imports Org_Models
begin

section \<open>Active organization and tenant scoping (core/permissions.py, core/viewsets.py, core/models.py)\<close>

text \<open>
  The request as the permission classes see and extend it, \<open>IsOrganizationMember\<close> (the only place
  that sets the active organization), the chain \<open>permission_classes\<close> names, and the queryset
  scoping of \<open>TenantScopedViewSet\<close>. The locale \<open>tenant_table\<close> is what a model with an
  \<open>organization\<close> column promises: writes inside one tenant leave every other tenant's rows alone.
\<close>

datatype http_method = GET | HEAD | OPTIONS | POST | PUT | PATCH | DELETE

definition SAFE_METHODS :: "http_method set" where
  "SAFE_METHODS = {GET, HEAD, OPTIONS}"

record request =
  rq_method :: http_method
  rq_user :: "user option" \<comment> \<open>\<open>None\<close>: not authenticated\<close>
  rq_org_header :: "string option" \<comment> \<open>\<open>X-Organization-ID\<close>\<close>
  rq_organization :: "organization option"
  rq_membership :: "membership option"

definition fresh_request :: "http_method \<Rightarrow> user option \<Rightarrow> string option \<Rightarrow> request" where
  "fresh_request meth u h = \<lparr>rq_method = meth, rq_user = u, rq_org_header = h,
     rq_organization = None, rq_membership = None\<rparr>"

type_synonym permission = "db \<Rightarrow> request \<Rightarrow> bool \<times> request"

definition ORG_ID_HEADER :: string where
  "ORG_ID_HEADER = ''X-Organization-ID''"

definition org_member_message :: string where
  "org_member_message =
     ''Provide a valid '' @ ORG_ID_HEADER @ '' header for an organization you belong to.''"

definition find_membership :: "key \<Rightarrow> key \<Rightarrow> db \<Rightarrow> membership option" where
  \<comment> \<open>\<open>Membership.objects.filter(user=user, organization_id=org_id).first()\<close>\<close>
  "find_membership u k d = tbl_first (\<lambda>m. m_user m = u \<and> m_org m = k) (db_members d)"

definition IsOrganizationMember :: permission where
  "IsOrganizationMember d request =
     (case rq_user request of
        None \<Rightarrow> (False, request)
      | Some user \<Rightarrow>
          (case rq_org_header request of
             None \<Rightarrow> (False, request)
           | Some raw \<Rightarrow>
               (if \<not> truthy raw then (False, request)
                else case py_int raw of
                  None \<Rightarrow> (False, request)
                | Some org_id \<Rightarrow>
                    (case find_membership (u_id user) org_id d of
                       None \<Rightarrow> (False, request)
                     | Some membership \<Rightarrow>
                         (case tbl_get o_id (m_org membership) (db_orgs d) of
                            None \<Rightarrow> (False, request) \<comment> \<open>the join of \<open>select_related\<close>\<close>
                          | Some org \<Rightarrow>
                              (True, request\<lparr>rq_organization := Some org,
                                 rq_membership := Some membership\<rparr>))))))"

definition IsAuthenticated :: permission where
  "IsAuthenticated d request = (rq_user request \<noteq> None, request)"

fun check_permissions :: "(permission \<times> string) list \<Rightarrow> db \<Rightarrow> request \<Rightarrow> exn + request" where
  \<comment> \<open>\<open>permission_classes\<close>, each with its message: the first that refuses ends the request\<close>
  "check_permissions [] d request = Inr request"
| "check_permissions ((perm, message) # perms) d request =
     (case perm d request of
        (True, request') \<Rightarrow> check_permissions perms d request'
      | (False, request') \<Rightarrow>
          Inl (if rq_user request' = None then NotAuthenticated else PermissionDenied message))"

definition tenant_permissions :: "(permission \<times> string) list" where
  \<comment> \<open>\<open>permission_classes = [IsAuthenticated, IsOrganizationMember]\<close>\<close>
  "tenant_permissions = [(IsAuthenticated, []), (IsOrganizationMember, org_member_message)]"

subsection \<open>What resolution guarantees\<close>

definition resolves :: "db \<Rightarrow> request \<Rightarrow> user \<Rightarrow> organization \<Rightarrow> membership \<Rightarrow> bool" where
  \<comment> \<open>the header names \<open>org\<close>, and \<open>m\<close> is the user's membership row in it\<close>
  "resolves d r u org m \<longleftrightarrow>
     rq_user r = Some u \<and>
     (\<exists>raw. rq_org_header r = Some raw \<and> py_int raw = Some (o_id org)) \<and>
     find_membership (u_id u) (o_id org) d = Some m \<and>
     tbl_get o_id (o_id org) (db_orgs d) = Some org"

lemma py_int_Nil [simp]: "py_int [] = None"
  by (simp add: py_int_def)

lemma find_membership_Some:
  "find_membership u k d = Some m \<Longrightarrow>
   m \<in> set (tb_rows (db_members d)) \<and> m_user m = u \<and> m_org m = k"
  unfolding find_membership_def by (drule tbl_first_Some) simp

lemma IsOrganizationMember_True:
  "IsOrganizationMember d r = (True, r') \<longleftrightarrow>
     (\<exists>u org m. resolves d r u org m \<and>
        r' = r\<lparr>rq_organization := Some org, rq_membership := Some m\<rparr>)"
proof
  assume "IsOrganizationMember d r = (True, r')"
  then obtain u raw k m org where *: "rq_user r = Some u" "rq_org_header r = Some raw"
      "py_int raw = Some k" "find_membership (u_id u) k d = Some m"
      "tbl_get o_id (m_org m) (db_orgs d) = Some org"
      "r' = r\<lparr>rq_organization := Some org, rq_membership := Some m\<rparr>"
    by (auto simp: IsOrganizationMember_def split: option.splits if_splits)
  moreover from *(4) have "m_org m = k" using find_membership_Some by metis
  moreover from *(5) have "o_id org = m_org m" by (auto dest: tbl_get_Some)
  ultimately have "resolves d r u org m" by (simp add: resolves_def)
  with *(6) show "\<exists>u org m. resolves d r u org m \<and>
        r' = r\<lparr>rq_organization := Some org, rq_membership := Some m\<rparr>" by blast
next
  assume "\<exists>u org m. resolves d r u org m \<and>
        r' = r\<lparr>rq_organization := Some org, rq_membership := Some m\<rparr>"
  then obtain u org m where *: "resolves d r u org m"
      "r' = r\<lparr>rq_organization := Some org, rq_membership := Some m\<rparr>" by blast
  then have "m_org m = o_id org"
    unfolding resolves_def using find_membership_Some by metis
  with * show "IsOrganizationMember d r = (True, r')"
    by (auto simp: IsOrganizationMember_def resolves_def split: option.splits)
qed

lemma IsOrganizationMember_False_same:
  "IsOrganizationMember d r = (False, r') \<Longrightarrow> r' = r"
  by (auto simp: IsOrganizationMember_def split: option.splits if_splits)

lemma IsOrganizationMember_False:
  "IsOrganizationMember d r = (False, r') \<longleftrightarrow> r' = r \<and> (\<nexists>u org m. resolves d r u org m)"
proof (cases "\<exists>u org m. resolves d r u org m")
  case True
  then obtain r2 where "IsOrganizationMember d r = (True, r2)"
    using IsOrganizationMember_True [of d r] by blast
  with True show ?thesis by simp
next
  case False
  obtain b r2 where br: "IsOrganizationMember d r = (b, r2)" by (cases "IsOrganizationMember d r")
  with False IsOrganizationMember_True [of d r r2] have "\<not> b" by auto
  with br IsOrganizationMember_False_same [of d r r2] have "IsOrganizationMember d r = (False, r)"
    by simp
  with False show ?thesis by auto
qed

lemma resolves_membership:
  assumes "resolves d r u org m"
  shows "m \<in> set (tb_rows (db_members d))" "m_user m = u_id u" "m_org m = o_id org"
    "org \<in> set (tb_rows (db_orgs d))"
proof -
  from assms have m: "find_membership (u_id u) (o_id org) d = Some m"
    and org: "tbl_get o_id (o_id org) (db_orgs d) = Some org"
    by (simp_all add: resolves_def)
  from find_membership_Some [OF m]
  show "m \<in> set (tb_rows (db_members d))" "m_user m = u_id u" "m_org m = o_id org" by simp_all
  from tbl_get_Some [OF org] show "org \<in> set (tb_rows (db_orgs d))" by simp
qed

lemma resolvesE:
  assumes "resolves d r u org m"
  obtains raw where "rq_user r = Some u" "rq_org_header r = Some raw"
    "py_int raw = Some (o_id org)" "find_membership (u_id u) (o_id org) d = Some m"
    "tbl_get o_id (o_id org) (db_orgs d) = Some org"
  using assms unfolding resolves_def by blast

lemma resolves_unique:
  assumes "resolves d r u org m" and "resolves d r u' org' m'"
  shows "u' = u" "org' = org" "m' = m"
proof -
  obtain raw where a: "rq_user r = Some u" "rq_org_header r = Some raw"
    "py_int raw = Some (o_id org)" "find_membership (u_id u) (o_id org) d = Some m"
    "tbl_get o_id (o_id org) (db_orgs d) = Some org" using assms(1) by (rule resolvesE)
  obtain raw' where b: "rq_user r = Some u'" "rq_org_header r = Some raw'"
    "py_int raw' = Some (o_id org')" "find_membership (u_id u') (o_id org') d = Some m'"
    "tbl_get o_id (o_id org') (db_orgs d) = Some org'" using assms(2) by (rule resolvesE)
  from a(1) b(1) show u: "u' = u" by simp
  from a(2) b(2) have "raw' = raw" by simp
  with a(3) b(3) have k: "o_id org' = o_id org" by simp
  from a(5) b(5) show "org' = org" unfolding k by simp
  from a(4) b(4) show "m' = m" unfolding k u by simp
qed

lemma tenant_permissions_chain:
  "check_permissions tenant_permissions d r =
     (if rq_user r = None then Inl NotAuthenticated
      else case IsOrganizationMember d r of
        (True, r') \<Rightarrow> Inr r'
      | (False, r') \<Rightarrow> Inl (if rq_user r' = None then NotAuthenticated
                           else PermissionDenied org_member_message))"
  by (simp add: tenant_permissions_def IsAuthenticated_def split: prod.splits bool.splits)

lemma tenant_permissions_Inr:
  "check_permissions tenant_permissions d r = Inr r' \<longleftrightarrow>
     (\<exists>u org m. resolves d r u org m \<and>
        r' = r\<lparr>rq_organization := Some org, rq_membership := Some m\<rparr>)"
proof -
  have "check_permissions tenant_permissions d r = Inr r' \<longleftrightarrow>
      rq_user r \<noteq> None \<and> IsOrganizationMember d r = (True, r')"
    unfolding tenant_permissions_chain
    by (cases "IsOrganizationMember d r") (simp split: bool.splits)
  also have "\<dots> \<longleftrightarrow> (\<exists>u org m. resolves d r u org m \<and>
        r' = r\<lparr>rq_organization := Some org, rq_membership := Some m\<rparr>)"
    unfolding IsOrganizationMember_True by (auto simp: resolves_def)
  finally show ?thesis .
qed

lemma tenant_permissions_Inl:
  "check_permissions tenant_permissions d r = Inl e \<longleftrightarrow>
     (\<nexists>u org m. resolves d r u org m) \<and>
     e = (if rq_user r = None then NotAuthenticated else PermissionDenied org_member_message)"
proof (cases "rq_user r")
  case None
  then show ?thesis by (auto simp: tenant_permissions_chain resolves_def)
next
  case (Some u)
  obtain b r2 where br: "IsOrganizationMember d r = (b, r2)" by (cases "IsOrganizationMember d r")
  then have "check_permissions tenant_permissions d r = Inl e \<longleftrightarrow>
      IsOrganizationMember d r = (False, r) \<and> e = PermissionDenied org_member_message"
    using Some IsOrganizationMember_False_same [of d r r2]
    by (cases b) (auto simp: tenant_permissions_chain)
  with Some show ?thesis by (simp add: IsOrganizationMember_False)
qed

subsection \<open>Scoping\<close>

definition for_org :: "('r \<Rightarrow> key) \<Rightarrow> key \<Rightarrow> 'r tbl \<Rightarrow> 'r list" where
  \<comment> \<open>\<open>TenantQuerySet.for_org\<close>\<close>
  "for_org org_of org t = tbl_filter (\<lambda>x. org_of x = org) t"

definition scoped_queryset :: "('r \<Rightarrow> key) \<Rightarrow> request \<Rightarrow> 'r tbl \<Rightarrow> 'r list" where
  \<comment> \<open>\<open>TenantScopedViewSet.get_queryset\<close>\<close>
  "scoped_queryset org_of request queryset =
     (case rq_organization request of
        None \<Rightarrow> []
      | Some org \<Rightarrow> tbl_filter (\<lambda>x. org_of x = o_id org) queryset)"

definition stamp_organization ::
  "request \<Rightarrow> (key \<Rightarrow> key option \<Rightarrow> 'r) \<Rightarrow> key option \<Rightarrow> exn + 'r" where
  \<comment> \<open>\<open>perform_create\<close>: \<open>serializer.save(organization=self.request.organization, **get_create_kwargs())\<close>\<close>
  "stamp_organization request instance create_kwargs =
     (case rq_organization request of
        None \<Rightarrow> Inl PyAttributeError
      | Some org \<Rightarrow> Inr (instance (o_id org) create_kwargs))"

definition get_object :: "('r \<Rightarrow> key) \<Rightarrow> string \<Rightarrow> 'r list \<Rightarrow> exn + 'r" where
  \<comment> \<open>the generic view's lookup of the path's \<open>pk\<close> in a queryset; a bad key is a 404 too\<close>
  "get_object pk raw queryset =
     (case py_int raw of
        None \<Rightarrow> Inl Http404
      | Some k \<Rightarrow> (case find (\<lambda>x. pk x = k) queryset of None \<Rightarrow> Inl Http404 | Some x \<Rightarrow> Inr x))"

lemma get_object_Inr:
  "get_object pk raw qs = Inr x \<Longrightarrow> x \<in> set qs \<and> py_int raw = Some (pk x)"
  by (auto simp: get_object_def find_Some_iff split: option.splits)

lemma find_in_set: "find P xs = Some x \<Longrightarrow> x \<in> set xs \<and> P x"
  by (auto simp: find_Some_iff)

lemma get_object_Inl:
  "get_object pk raw qs = Inl e \<longleftrightarrow> e = Http404 \<and> (\<forall>x \<in> set qs. py_int raw \<noteq> Some (pk x))"
  by (auto simp: get_object_def find_None_iff split: option.splits dest: find_in_set)

lemma scoped_queryset_rows:
  "rq_organization r = Some org \<Longrightarrow>
   x \<in> set (scoped_queryset org_of r t) \<longleftrightarrow> x \<in> set (tb_rows t) \<and> org_of x = o_id org"
  by (auto simp: scoped_queryset_def tbl_filter_def)

locale tenant_table = db_table pk set_pk
  for pk :: "'r \<Rightarrow> int" and set_pk :: "int \<Rightarrow> 'r \<Rightarrow> 'r" +
  fixes org_of :: "'r \<Rightarrow> key"
  assumes org_set_pk: "org_of (set_pk k r) = org_of r"
begin

lemma insert_tenant:
  "for_org org_of k (tbl_insert set_pk r t) =
     for_org org_of k t @ (if org_of r = k then [set_pk (tb_next t) r] else [])"
  by (simp add: for_org_def tbl_filter_def org_set_pk)

lemma update_other_tenant:
  assumes wf: "tbl_wf pk t" and x: "x \<in> set (tb_rows t)" "org_of x \<noteq> k"
    and f: "org_of (f x) = org_of x"
  shows "for_org org_of k (tbl_update_where (\<lambda>r. pk r = pk x) f t) = for_org org_of k t"
proof -
  have same: "pk y = pk x \<longleftrightarrow> y = x" if "y \<in> set (tb_rows t)" for y
    using that x(1) tbl_wfD_inj [OF wf] by (auto dest: inj_onD)
  have "filter (\<lambda>r. org_of r = k) (map (\<lambda>r. if pk r = pk x then f r else r) rs) =
      filter (\<lambda>r. org_of r = k) rs" if "set rs \<subseteq> set (tb_rows t)" for rs
    using that x(2) f by (induction rs) (auto simp: same)
  then show ?thesis by (simp add: for_org_def tbl_filter_def)
qed

lemma update_own_tenant:
  assumes wf: "tbl_wf pk t" and x: "x \<in> set (tb_rows t)" "org_of x = k" and f: "org_of (f x) = k"
  shows "for_org org_of k (tbl_update_where (\<lambda>r. pk r = pk x) f t) =
    map (\<lambda>r. if pk r = pk x then f r else r) (for_org org_of k t)"
proof -
  have same: "pk y = pk x \<longleftrightarrow> y = x" if "y \<in> set (tb_rows t)" for y
    using that x(1) tbl_wfD_inj [OF wf] by (auto dest: inj_onD)
  have "filter (\<lambda>r. org_of r = k) (map (\<lambda>r. if pk r = pk x then f r else r) rs) =
      map (\<lambda>r. if pk r = pk x then f r else r) (filter (\<lambda>r. org_of r = k) rs)"
    if "set rs \<subseteq> set (tb_rows t)" for rs
    using that x(2) f by (induction rs) (auto simp: same)
  then show ?thesis by (simp add: for_org_def tbl_filter_def)
qed

lemma delete_own_tenant:
  "for_org org_of k (tbl_delete_where P t) = filter (\<lambda>r. \<not> P r) (for_org org_of k t)"
  by (auto simp: for_org_def tbl_filter_def intro!: filter_cong)

lemma delete_other_tenant:
  assumes wf: "tbl_wf pk t" and x: "x \<in> set (tb_rows t)" "org_of x \<noteq> k"
  shows "for_org org_of k (tbl_delete_where (\<lambda>r. pk r = pk x) t) = for_org org_of k t"
proof -
  have same: "pk y = pk x \<longleftrightarrow> y = x" if "y \<in> set (tb_rows t)" for y
    using that x(1) tbl_wfD_inj [OF wf] by (auto dest: inj_onD)
  show ?thesis using x(2)
    by (auto simp: for_org_def tbl_filter_def same intro!: filter_cong)
qed

lemma delete_tenant_other:
  "j \<noteq> k \<Longrightarrow> for_org org_of k (tbl_delete_where (\<lambda>r. org_of r = j) t) = for_org org_of k t"
  by (auto simp: for_org_def tbl_filter_def intro!: filter_cong)

lemma count_for_org: "tbl_count (\<lambda>r. org_of r = k) t = length (for_org org_of k t)"
  by (simp add: for_org_def tbl_filter_def tbl_count_def)

end

interpretation project_tenant: tenant_table pr_id set_pr_id pr_org by unfold_locales simp
interpretation member_tenant: tenant_table m_id set_m_id m_org by unfold_locales simp
interpretation invite_tenant: tenant_table i_id set_i_id i_org by unfold_locales simp
interpretation sub_tenant: tenant_table s_id set_s_id s_org by unfold_locales simp

end
