(* ===== verification/Demo.thy ===== *)
theory Demo
  imports Invariants
begin

section \<open>A small database\<close>

text \<open>
  The database the witnesses evaluate on. Acme (1) has an owner, an admin and a member and is on
  the Pro plan; Rival (2) has one owner and is on the Free plan with one pending invitation.
\<close>

definition demo_user :: "key \<Rightarrow> string \<Rightarrow> user" where
  "demo_user k email = \<lparr>u_id = k, u_password = ''hash'', u_last_login = None,
     u_is_superuser = False, u_first_name = [], u_last_name = [], u_is_staff = False,
     u_is_active = True, u_date_joined = 0, u_email = email, u_is_email_verified = True\<rparr>"

definition olivia :: user where "olivia = demo_user 1 ''owner@acme.test''"
definition adam :: user where "adam = demo_user 2 ''admin@acme.test''"
definition mia :: user where "mia = demo_user 3 ''member@acme.test''"
definition rita :: user where "rita = demo_user 4 ''owner@rival.test''"
definition nora :: user where "nora = demo_user 5 ''nora@new.test''"

definition acme :: organization where
  "acme = \<lparr>o_id = 1, o_name = ''Acme Inc'', o_slug = ''acme-inc'', o_created_by = Some 1,
     o_created_at = 0\<rparr>"

definition rival :: organization where
  "rival = \<lparr>o_id = 2, o_name = ''Rival'', o_slug = ''rival'', o_created_by = Some 4,
     o_created_at = 0\<rparr>"

definition demo_member :: "key \<Rightarrow> key \<Rightarrow> key \<Rightarrow> string \<Rightarrow> membership" where
  "demo_member k u org role =
     \<lparr>m_id = k, m_user = u, m_org = org, m_role = role, m_created_at = 0\<rparr>"

definition acme_owner :: membership where "acme_owner = demo_member 1 1 1 OWNER"
definition acme_admin :: membership where "acme_admin = demo_member 2 2 1 ADMIN"
definition acme_member :: membership where "acme_member = demo_member 3 3 1 MEMBER"
definition rival_owner :: membership where "rival_owner = demo_member 4 4 2 OWNER"

definition demo_project :: "key \<Rightarrow> key \<Rightarrow> string \<Rightarrow> key \<Rightarrow> project" where
  "demo_project k org name u = \<lparr>pr_id = k, pr_org = org, pr_name = name, pr_description = [],
     pr_created_by = Some u, pr_created_at = 0\<rparr>"

definition rival_invite :: invitation where
  "rival_invite = \<lparr>i_id = 1, i_org = 2, i_email = ''nora@new.test'', i_role = ADMIN,
     i_token = ''tok1'', i_status = PENDING, i_invited_by = Some 4, i_created_at = 0,
     i_expires_at = 100\<rparr>"

definition demo_plan :: "key \<Rightarrow> string \<Rightarrow> string \<Rightarrow> int option \<Rightarrow> int option \<Rightarrow> string \<Rightarrow> plan" where
  "demo_plan k code name projects members price = \<lparr>p_id = k, p_code = code, p_name = name,
     p_stripe_price_id = price,
     p_limits = [(''max_projects'', projects), (''max_members'', members)], p_is_active = True\<rparr>"

definition demo_sub :: "key \<Rightarrow> key \<Rightarrow> key \<Rightarrow> string \<Rightarrow> string \<Rightarrow> subscription" where
  "demo_sub k org plan customer sub = \<lparr>s_id = k, s_org = org, s_plan = plan,
     s_stripe_customer_id = customer, s_stripe_subscription_id = sub, s_status = ACTIVE,
     s_current_period_end = None, s_updated_at = 0\<rparr>"

definition demo_db :: db where
  "demo_db =
     \<lparr>db_users = \<lparr>tb_rows = [olivia, adam, mia, rita, nora], tb_next = 6\<rparr>,
      db_orgs = \<lparr>tb_rows = [acme, rival], tb_next = 3\<rparr>,
      db_members = \<lparr>tb_rows = [acme_owner, acme_admin, acme_member, rival_owner], tb_next = 5\<rparr>,
      db_invites = \<lparr>tb_rows = [rival_invite], tb_next = 2\<rparr>,
      db_plans = \<lparr>tb_rows = [demo_plan 1 ''free'' ''Free'' (Some 3) (Some 3) [],
         demo_plan 2 ''pro'' ''Pro'' (Some 25) (Some 10) ''price_pro'',
         demo_plan 3 ''business'' ''Business'' None None ''price_biz''], tb_next = 4\<rparr>,
      db_subs = \<lparr>tb_rows = [demo_sub 1 1 2 ''cus_1'' ''sub_1'', demo_sub 2 2 1 [] []], tb_next = 3\<rparr>,
      db_events = tbl_empty,
      db_projects = \<lparr>tb_rows = [demo_project 1 1 ''Site'' 1, demo_project 2 1 ''App'' 3,
         demo_project 3 2 ''Secret'' 4], tb_next = 4\<rparr>,
      db_tokens = \<lparr>tb_rows = [\<lparr>ot_id = 1, ot_user = Some 1\<rparr>, \<lparr>ot_id = 2, ot_user = Some 3\<rparr>],
         tb_next = 3\<rparr>,
      db_blacklist = [], db_queue = []\<rparr>"

lemmas demo_defs =
  demo_db_def demo_user_def olivia_def adam_def mia_def rita_def nora_def acme_def rival_def
  demo_member_def acme_owner_def acme_admin_def acme_member_def rival_owner_def demo_project_def
  rival_invite_def demo_plan_def demo_sub_def

lemma demo_keys_ok: "keys_ok demo_db"
  by (simp add: keys_ok_def tbl_wf_def demo_defs tbl_empty_def)

lemma demo_owned: "owned demo_db"
  by (simp add: owned_def demo_defs)

lemma demo_one_sub: "one_sub_per_org demo_db"
  by (simp add: one_sub_per_org_def demo_defs)

lemma demo_refs_ok: "refs_ok demo_db"
  by (simp add: refs_ok_def org_keys_def demo_defs)

lemma demo_unique_ok: "unique_ok demo_db"
  by (simp add: unique_ok_def tbl_unique_def member_pair_def demo_defs tbl_empty_def)

lemma demo_inv: "db_inv demo_db"
  by (simp add: db_inv_def demo_keys_ok demo_owned demo_refs_ok demo_unique_ok)

end
