(* ===== verification/Rbac.thy ===== *)
theory Rbac
  imports Org_Models
begin

section \<open>Role-based access control (core/rbac.py)\<close>

text \<open>
  The three checks of \<open>core.rbac\<close>, over the role strings the columns hold, and the order they
  implement: the abstract roles Member, Admin, Owner as a linear order. \<open>is_last_owner\<close> keeps the
  contract \<open>last_owner_guard\<close>.
\<close>

definition MANAGER_ROLES :: "string set" where
  "MANAGER_ROLES = {OWNER, ADMIN}"

lemma MANAGER_ROLES_iff [simp]: "r \<in> MANAGER_ROLES \<longleftrightarrow> r = OWNER \<or> r = ADMIN"
  by (simp add: MANAGER_ROLES_def)

definition can_manage_member :: "string \<Rightarrow> string \<Rightarrow> bool" where
  "can_manage_member actor_role target_role =
     (if actor_role \<notin> MANAGER_ROLES then False
      else Role_rank target_role \<le> Role_rank actor_role)"

definition can_assign_role :: "string \<Rightarrow> string \<Rightarrow> bool" where
  "can_assign_role actor_role new_role =
     (if actor_role \<notin> MANAGER_ROLES then False
      else Role_rank new_role \<le> Role_rank actor_role)"

definition is_last_owner :: "membership \<Rightarrow> db \<Rightarrow> bool" where
  "is_last_owner m d =
     (if m_role m \<noteq> OWNER then False
      else tbl_count (\<lambda>x. m_org x = m_org m \<and> m_role x = OWNER) (db_members d) \<le> 1)"

subsection \<open>The order of the roles\<close>

datatype arole = AMember | AAdmin | AOwner

fun arank :: "arole \<Rightarrow> nat" where
  "arank AMember = 1"
| "arank AAdmin = 2"
| "arank AOwner = 3"

lemma arank_inject: "arank a = arank b \<longleftrightarrow> a = b"
  by (cases a; cases b) auto

instantiation arole :: linorder
begin

definition less_eq_arole :: "arole \<Rightarrow> arole \<Rightarrow> bool" where
  "less_eq_arole a b \<longleftrightarrow> arank a \<le> arank b"

definition less_arole :: "arole \<Rightarrow> arole \<Rightarrow> bool" where
  "less_arole a b \<longleftrightarrow> arank a < arank b"

instance
  by standard (auto simp: less_eq_arole_def less_arole_def arank_inject)

end

fun role_name :: "arole \<Rightarrow> string" where
  "role_name AMember = MEMBER"
| "role_name AAdmin = ADMIN"
| "role_name AOwner = OWNER"

lemma Role_rank_role_name [simp]: "Role_rank (role_name a) = arank a"
  by (cases a) simp_all

lemma role_name_choices: "role_name a \<in> set Role_choices"
  by (cases a) (simp_all add: Role_choices_def)

lemma role_choices_name: "r \<in> set Role_choices \<Longrightarrow> \<exists>a. r = role_name a"
  by (auto simp: Role_choices_def) (metis role_name.simps)+

lemma can_manage_member_order:
  "can_manage_member (role_name a) (role_name t) \<longleftrightarrow> AAdmin \<le> a \<and> t \<le> a"
  by (cases a; cases t) (simp_all add: can_manage_member_def less_eq_arole_def)

lemma can_assign_role_order:
  "can_assign_role (role_name a) (role_name r) \<longleftrightarrow> AAdmin \<le> a \<and> r \<le> a"
  by (cases a; cases r) (simp_all add: can_assign_role_def less_eq_arole_def)

lemma can_assign_rank [guard_simps]:
  "can_assign_role a r \<longleftrightarrow> a \<in> MANAGER_ROLES \<and> Role_rank r \<le> Role_rank a"
  by (simp add: can_assign_role_def)

lemma can_manage_rank [guard_simps]:
  "can_manage_member a r \<longleftrightarrow> a \<in> MANAGER_ROLES \<and> Role_rank r \<le> Role_rank a"
  by (simp add: can_manage_member_def)

lemma is_last_owner_model:
  \<comment> \<open>the API's test and the model's are the same\<close>
  "is_last_owner m d \<longleftrightarrow> m_role m = OWNER \<and> org_owner_count m d \<le> 1"
  by (simp add: is_last_owner_def org_owner_count_def)

interpretation api_guard: last_owner_guard is_last_owner
proof -
  have "is_last_owner = (\<lambda>m d. m_role m = OWNER \<and> org_owner_count m d \<le> 1)"
    by (intro ext) (rule is_last_owner_model)
  then show "last_owner_guard is_last_owner"
    using model_guard.last_owner_guard_axioms by simp
qed

lemma not_last_owner_delete:
  "\<not> is_last_owner m d \<Longrightarrow> membership_delete m d = Inr (delete_member_row m d)"
  by (auto simp: is_last_owner_model membership_delete_def)

end
