(* ===== verification/Org_Service.thy ===== *)
theory Org_Service
  imports Invariants Tenancy Demo Rbac
begin

section \<open>Organizations: slugs, creation, update, deletion (organizations/views.py)\<close>

text \<open>
  \<open>_candidate_slug\<close> is the loop as written, with its termination proof; \<open>_create_org_with_owner\<close>
  is its six attempts, each with what other requests commit between the choice of the slug and the
  insert as an argument. The viewset's actions see the caller's own organizations only.
  \<open>slugify\<close> is Django's and stays a parameter.
\<close>

subsection \<open>\<open>_candidate_slug\<close>\<close>

definition slug_variant :: "string \<Rightarrow> nat \<Rightarrow> string" where
  \<comment> \<open>\<open>f"{base}-{suffix}"\<close>\<close>
  "slug_variant base suffix = base @ ''-'' @ show_nat suffix"

lemma slug_variant_inject [simp]: "slug_variant b m = slug_variant b n \<longleftrightarrow> m = n"
  by (simp add: slug_variant_def)

lemma slug_variant_base [simp]: "slug_variant b n \<noteq> b" "b \<noteq> slug_variant b n"
  by (simp_all add: slug_variant_def)

definition variants_from :: "string \<Rightarrow> nat \<Rightarrow> string list \<Rightarrow> string set" where
  "variants_from base suffix taken = {s \<in> set taken. \<exists>k \<ge> suffix. s = slug_variant base k}"

lemma variants_from_Suc:
  "variants_from base (Suc n) taken = variants_from base n taken - {slug_variant base n}"
  by (auto simp: variants_from_def Suc_le_eq order.order_iff_strict)

lemma finite_variants_from [simp]: "finite (variants_from base n taken)"
  by (simp add: variants_from_def)

definition slug_measure :: "string list \<Rightarrow> string \<Rightarrow> nat \<Rightarrow> string \<Rightarrow> nat" where
  "slug_measure taken base suffix slug =
     2 * card (variants_from base suffix taken) + (if slug \<in> set taken then 1 else 0)"

lemma slug_measure_step:
  assumes "slug \<in> set taken"
  shows "slug_measure taken base (Suc n) (slug_variant base n) < slug_measure taken base n slug"
proof (cases "slug_variant base n \<in> set taken")
  case True
  then have "slug_variant base n \<in> variants_from base n taken"
    by (auto simp: variants_from_def)
  then have "Suc (card (variants_from base (Suc n) taken)) = card (variants_from base n taken)"
    unfolding variants_from_Suc by (rule card.remove [symmetric, OF finite_variants_from])
  with assms True show ?thesis by (simp add: slug_measure_def)
next
  case False
  have "card (variants_from base (Suc n) taken) \<le> card (variants_from base n taken)"
    by (rule card_mono) (auto simp: variants_from_Suc)
  with assms False show ?thesis by (simp add: slug_measure_def)
qed

function slug_loop :: "string list \<Rightarrow> string \<Rightarrow> nat \<Rightarrow> string \<Rightarrow> string" where
  \<comment> \<open>\<open>taken\<close>: the slugs the query finds\<close>
  "slug_loop taken base suffix slug =
     (if slug \<in> set taken then slug_loop taken base (Suc suffix) (slug_variant base suffix)
      else slug)"
  by pat_completeness auto

termination
  by (relation "measure (\<lambda>(taken, base, suffix, slug). slug_measure taken base suffix slug)")
     (simp_all add: slug_measure_step)

declare slug_loop.simps [simp del]

definition slug_base :: "(string \<Rightarrow> string) \<Rightarrow> string \<Rightarrow> string" where
  \<comment> \<open>\<open>slugify(name) or "org"\<close>\<close>
  "slug_base slugify name = (if truthy (slugify name) then slugify name else ''org'')"

definition candidate_slug :: "(string \<Rightarrow> string) \<Rightarrow> string \<Rightarrow> db \<Rightarrow> string" where
  "candidate_slug slugify name d =
     (let base = slug_base slugify name
      in slug_loop (map o_slug (tb_rows (db_orgs d))) base 2 base)"

definition slug_taken :: "db \<Rightarrow> string \<Rightarrow> bool" where
  "slug_taken d s = tbl_exists (\<lambda>org. o_slug org = s) (db_orgs d)"

lemma slug_taken_iff: "slug_taken d s \<longleftrightarrow> s \<in> set (map o_slug (tb_rows (db_orgs d)))"
  by (auto simp: slug_taken_def tbl_exists_iff)

lemma slug_loop_free: "slug_loop taken base n slug \<notin> set taken"
proof (induction taken base n slug rule: slug_loop.induct)
  case (1 taken base n slug)
  then show ?case by (subst slug_loop.simps) simp
qed

lemma slug_loop_least:
  "slug_loop taken base n slug = slug \<or>
   (\<exists>k \<ge> n. slug_loop taken base n slug = slug_variant base k \<and> slug \<in> set taken \<and>
      (\<forall>j. n \<le> j \<and> j < k \<longrightarrow> slug_variant base j \<in> set taken))"
proof (induction taken base n slug rule: slug_loop.induct)
  case (1 taken base n slug)
  show ?case
  proof (cases "slug \<in> set taken")
    case True
    then have eq: "slug_loop taken base n slug = slug_loop taken base (Suc n) (slug_variant base n)"
      by (subst slug_loop.simps) simp
    from 1 [OF True] show ?thesis
    proof (elim disjE exE conjE)
      assume "slug_loop taken base (Suc n) (slug_variant base n) = slug_variant base n"
      with eq True show ?thesis by auto
    next
      fix k assume k: "Suc n \<le> k" "slug_variant base n \<in> set taken"
        "slug_loop taken base (Suc n) (slug_variant base n) = slug_variant base k"
        "\<forall>j. Suc n \<le> j \<and> j < k \<longrightarrow> slug_variant base j \<in> set taken"
      then have "\<forall>j. n \<le> j \<and> j < k \<longrightarrow> slug_variant base j \<in> set taken"
        by (metis Suc_leI le_eq_less_or_eq)
      with k eq True show ?thesis by (intro disjI2 exI [of _ k]) simp
    qed
  next
    case False
    then show ?thesis by (subst slug_loop.simps) simp
  qed
qed

text \<open>C30. The slug search always returns: the chosen slug is free, it is the name's own slug when
  that is free, and otherwise the variant with the least suffix from 2 on that no organization
  has. (The loop itself is total: its termination is proved with the function.)\<close>

theorem candidate_slug_spec:
  "\<not> slug_taken d (candidate_slug slugify name d) \<and>
   (candidate_slug slugify name d = slug_base slugify name \<or>
    (\<exists>k \<ge> 2. candidate_slug slugify name d = slug_variant (slug_base slugify name) k \<and>
       slug_taken d (slug_base slugify name) \<and>
       (\<forall>j. 2 \<le> j \<and> j < k \<longrightarrow> slug_taken d (slug_variant (slug_base slugify name) j))))"
  unfolding slug_taken_iff candidate_slug_def Let_def
  using slug_loop_free slug_loop_least by blast

theorem candidate_slug_witness:
  "candidate_slug (\<lambda>n. ''acme-inc'') ''Acme Inc'' demo_db = ''acme-inc-2''"
proof -
  have "slug_taken demo_db ''acme-inc''" "\<not> slug_taken demo_db (slug_variant ''acme-inc'' 2)"
    by (simp_all add: slug_taken_def tbl_exists_def demo_defs slug_variant_def)
  moreover have "slug_base (\<lambda>n. ''acme-inc'') ''Acme Inc'' = ''acme-inc''" by (simp add: slug_base_def)
  ultimately obtain k where k: "2 \<le> k"
      "candidate_slug (\<lambda>n. ''acme-inc'') ''Acme Inc'' demo_db = slug_variant ''acme-inc'' k"
      "\<forall>j. 2 \<le> j \<and> j < k \<longrightarrow> slug_taken demo_db (slug_variant ''acme-inc'' j)"
    using candidate_slug_spec [of demo_db "\<lambda>n. ''acme-inc''" "''Acme Inc''"] by metis
  have "\<not> 2 < k" using k(3) \<open>\<not> slug_taken demo_db (slug_variant ''acme-inc'' 2)\<close> by blast
  moreover have "show_nat 2 = ''2''" by code_simp
  ultimately show ?thesis using k by (simp add: slug_variant_def)
qed

subsection \<open>\<open>_create_org_with_owner\<close>\<close>

definition insert_org_with_owner ::
  "time \<Rightarrow> user \<Rightarrow> string \<Rightarrow> string \<Rightarrow> db \<Rightarrow> organization outcome" where
  \<comment> \<open>the body of the \<open>atomic\<close> block, the \<open>post_save\<close> receiver included\<close>
  "insert_org_with_owner now user name slug d =
     (case organization_insert \<lparr>o_id = 0, o_name = name, o_slug = slug,
             o_created_by = Some (u_id user), o_created_at = now\<rparr> d of
        Inl e \<Rightarrow> (Inl e, d)
      | Inr (org, d1) \<Rightarrow>
          (let d2 = create_free_subscription True now (o_id org) d1
           in case membership_create \<lparr>m_id = 0, m_user = u_id user, m_org = o_id org,
                     m_role = OWNER, m_created_at = now\<rparr> d2 of
                Inl e \<Rightarrow> (Inl e, d2)
              | Inr d3 \<Rightarrow> (Inr org, d3)))"

fun org_attempts ::
  "(string \<Rightarrow> string) \<Rightarrow> time \<Rightarrow> (nat \<Rightarrow> db \<Rightarrow> db) \<Rightarrow> user \<Rightarrow> string \<Rightarrow> nat \<Rightarrow> db \<Rightarrow> organization outcome" where
  \<comment> \<open>\<open>others n\<close>: what is committed between the \<open>n\<close>-th last choice of a slug and its insert\<close>
  "org_attempts slugify now others user name 0 d =
     (Inl (APIException ''Could not allocate a unique organization slug; please retry.''), d)"
| "org_attempts slugify now others user name (Suc n) d =
     (let slug = candidate_slug slugify name d
      in case atomic (insert_org_with_owner now user name slug) (others n d) of
           (Inr org, d') \<Rightarrow> (Inr org, d')
         | (Inl (IntegrityError _), d') \<Rightarrow> org_attempts slugify now others user name n d'
         | (Inl e, d') \<Rightarrow> (Inl e, d'))"

definition create_org_with_owner ::
  "(string \<Rightarrow> string) \<Rightarrow> time \<Rightarrow> (nat \<Rightarrow> db \<Rightarrow> db) \<Rightarrow> user \<Rightarrow> string \<Rightarrow> db \<Rightarrow> organization outcome" where
  "create_org_with_owner slugify now others user name d =
     org_attempts slugify now others user name 6 d"

subsection \<open>The serializer\<close>

definition validate_name :: "string \<Rightarrow> exn + string" where
  "validate_name value =
     (let value' = str_strip value
      in if \<not> truthy value'
         then Inl (ValidationError (Some ''name'') ''This field may not be blank.'')
         else Inr value')"

definition get_role :: "string option \<Rightarrow> user option \<Rightarrow> organization \<Rightarrow> db \<Rightarrow> string option" where
  "get_role annotated user org d =
     (case annotated of
        Some role \<Rightarrow> Some role
      | None \<Rightarrow>
          (case user of
             None \<Rightarrow> None
           | Some u \<Rightarrow> map_option m_role (find_membership (u_id u) (o_id org) d)))"

type_synonym org_out = "key \<times> string \<times> string \<times> time \<times> string option"

definition org_repr :: "string option \<Rightarrow> user option \<Rightarrow> organization \<Rightarrow> db \<Rightarrow> org_out" where
  "org_repr annotated user org d =
     (o_id org, o_name org, o_slug org, o_created_at org, get_role annotated user org d)"

subsection \<open>\<open>OrganizationViewSet\<close>\<close>

definition org_permissions :: "(permission \<times> string) list" where
  "org_permissions = [(IsAuthenticated, [])]"

definition require_user :: "db \<Rightarrow> user option \<Rightarrow> exn + user" where
  \<comment> \<open>the permission check, then \<open>request.user\<close>\<close>
  "require_user d caller =
     bind_res (check_permissions org_permissions d (fresh_request GET caller None)) (\<lambda>request.
       case rq_user request of None \<Rightarrow> Inl NotAuthenticated | Some user \<Rightarrow> Inr user)"

definition org_queryset :: "user \<Rightarrow> db \<Rightarrow> organization list" where
  "org_queryset user d =
     tbl_filter (\<lambda>org. tbl_exists (\<lambda>m. m_org m = o_id org \<and> m_user m = u_id user) (db_members d))
       (db_orgs d)"

definition caller_role :: "user \<Rightarrow> organization \<Rightarrow> db \<Rightarrow> string option" where
  \<comment> \<open>the annotation: \<open>Membership.objects.filter(organization=OuterRef("pk"), user=user).values("role")[:1]\<close>\<close>
  "caller_role user org d = map_option m_role (find_membership (u_id user) (o_id org) d)"

definition org_get_object :: "string \<Rightarrow> db \<Rightarrow> user option \<Rightarrow> exn + (user \<times> organization \<times> string option)" where
  "org_get_object raw d caller =
     bind_res (require_user d caller) (\<lambda>user.
     bind_res (get_object o_id raw (org_queryset user d)) (\<lambda>org.
       Inr (user, org, caller_role user org d)))"

definition org_list :: "(string \<Rightarrow> int) \<Rightarrow> db \<Rightarrow> user option \<Rightarrow> exn + org_out list" where
  \<comment> \<open>the database's collation of names is the argument\<close>
  "org_list collate d caller =
     bind_res (require_user d caller) (\<lambda>user.
       Inr (map (\<lambda>org. org_repr (caller_role user org d) (Some user) org d)
         (order_by (\<lambda>org. collate (o_name org)) (org_queryset user d))))"

definition org_retrieve :: "string \<Rightarrow> db \<Rightarrow> user option \<Rightarrow> exn + org_out" where
  "org_retrieve raw d caller =
     bind_res (org_get_object raw d caller) (\<lambda>(user, org, role).
       Inr (org_repr role (Some user) org d))"

definition org_create ::
  "(string \<Rightarrow> string) \<Rightarrow> time \<Rightarrow> (nat \<Rightarrow> db \<Rightarrow> db) \<Rightarrow> exn + string \<Rightarrow> db \<Rightarrow> user option \<Rightarrow> org_out outcome" where
  "org_create slugify now others body d caller =
     (case bind_res (require_user d caller) (\<lambda>user.
           bind_res body (\<lambda>name. bind_res (validate_name name) (\<lambda>name. Inr (user, name)))) of
        Inl e \<Rightarrow> (Inl e, d)
      | Inr (user, name) \<Rightarrow>
          (case create_org_with_owner slugify now others user name d of
             (Inl e, d') \<Rightarrow> (Inl e, d')
           | (Inr org, d') \<Rightarrow> (Inr (org_repr (Some OWNER) (Some user) org d'), d')))"

definition org_update :: "string \<Rightarrow> exn + string option \<Rightarrow> db \<Rightarrow> user option \<Rightarrow> org_out outcome" where
  \<comment> \<open>\<open>PATCH\<close> (\<open>put\<close> is not among \<open>http_method_names\<close>); \<open>None\<close>: the body has no \<open>name\<close>\<close>
  "org_update raw body d caller =
     (case org_get_object raw d caller of
        Inl e \<Rightarrow> (Inl e, d)
      | Inr (user, org, role) \<Rightarrow>
          (if role \<notin> Some ` MANAGER_ROLES
           then (Inl (PermissionDenied ''Only an owner or admin can update the organization.''), d)
           else case bind_res body (\<lambda>v. case v of
                   None \<Rightarrow> Inr (o_name org) | Some name \<Rightarrow> validate_name name) of
             Inl e \<Rightarrow> (Inl e, d)
           | Inr name \<Rightarrow>
               (case char_field 255 name of
                  Inl e \<Rightarrow> (Inl e, d)
                | Inr _ \<Rightarrow>
                    (let org' = org\<lparr>o_name := name\<rparr>;
                         d' = d\<lparr>db_orgs := tbl_update_where (\<lambda>x. o_id x = o_id org)
                           (\<lambda>x. x\<lparr>o_name := name\<rparr>) (db_orgs d)\<rparr>
                     in (Inr (org_repr role (Some user) org' d'), d')))))"

definition org_destroy :: "string \<Rightarrow> db \<Rightarrow> user option \<Rightarrow> unit outcome" where
  "org_destroy raw d caller =
     (case org_get_object raw d caller of
        Inl e \<Rightarrow> (Inl e, d)
      | Inr (user, org, role) \<Rightarrow>
          (if role \<noteq> Some OWNER
           then (Inl (PermissionDenied ''Only an owner can delete the organization.''), d)
           else (Inr (), organization_delete (o_id org) d)))"


subsection \<open>What creation does\<close>

definition org_row :: "time \<Rightarrow> user \<Rightarrow> string \<Rightarrow> string \<Rightarrow> key \<Rightarrow> organization" where
  "org_row now user name slug k = \<lparr>o_id = k, o_name = name, o_slug = slug,
     o_created_by = Some (u_id user), o_created_at = now\<rparr>"

definition owner_row :: "time \<Rightarrow> user \<Rightarrow> key \<Rightarrow> membership" where
  "owner_row now user k = \<lparr>m_id = 0, m_user = u_id user, m_org = k, m_role = OWNER,
     m_created_at = now\<rparr>"

definition with_new_org :: "time \<Rightarrow> user \<Rightarrow> string \<Rightarrow> string \<Rightarrow> db \<Rightarrow> db" where
  \<comment> \<open>what a creation adds: the organization, its Owner, its Free subscription\<close>
  "with_new_org now user name slug d =
     (let k = tb_next (db_orgs d)
      in create_free_subscription True now k
           (d\<lparr>db_orgs := tbl_insert set_o_id (org_row now user name slug 0) (db_orgs d),
              db_members := tbl_insert set_m_id (owner_row now user k) (db_members d)\<rparr>))"

lemma create_free_subscription_commute:
  "create_free_subscription c now k (d\<lparr>db_members := M\<rparr>) =
     (create_free_subscription c now k d)\<lparr>db_members := M\<rparr>"
  by (simp add: create_free_subscription_def get_or_create_subscription_def sub_of_org_def
      free_plan_def split: option.splits)

lemma insert_org_with_owner_eq:
  assumes "keys_ok d" "refs_ok d"
  shows "insert_org_with_owner now user name slug d =
     (if 255 < length name \<or> 255 < length slug then (Inl DataError, d)
      else if slug_taken d slug then (Inl (IntegrityError ''organizations_organization_slug_key''), d)
      else (Inr (org_row now user name slug (tb_next (db_orgs d))), with_new_org now user name slug d))"
proof -
  have "m_org m \<noteq> tb_next (db_orgs d)" if "m \<in> set (tb_rows (db_members d))" for m
    using that assms fresh_org_key [OF assms(1)] by (auto simp: refs_ok_def)
  then have "\<not> tbl_exists (\<lambda>x. m_user x = u_id user \<and> m_org x = tb_next (db_orgs d)) (db_members d)"
    by (auto simp: tbl_exists_iff)
  then show ?thesis
    by (simp add: insert_org_with_owner_def organization_insert_def char_field_def slug_taken_def
        membership_create_def with_new_org_def org_row_def owner_row_def Let_def
        create_free_subscription_commute [symmetric])
qed

lemma inv_with_new_org:
  assumes inv: "db_inv d" and free: "\<not> slug_taken d slug"
  shows "db_inv (with_new_org now user name slug d)"
proof -
  let ?k = "tb_next (db_orgs d)"
  let ?d = "d\<lparr>db_orgs := tbl_insert set_o_id (org_row now user name slug 0) (db_orgs d),
              db_members := tbl_insert set_m_id (owner_row now user ?k) (db_members d)\<rparr>"
  have keys: "org_keys ?d = insert ?k (org_keys d)" by (simp add: org_keys_def)
  have fresh: "m_org m \<noteq> ?k" if "m \<in> set (tb_rows (db_members d))" for m
    using that db_invD [OF inv] fresh_org_key [of d] by (auto simp: refs_ok_def)
  have "keys_ok ?d" using db_invD(1) [OF inv] by (auto simp: keys_ok_def)
  moreover have "owned ?d"
    using db_invD(2) [OF inv] by (fastforce simp: owned_def owner_row_def)
  moreover have "refs_ok ?d"
    using db_invD(3) [OF inv] keys by (auto simp: refs_ok_def owner_row_def)
  moreover have "unique_ok ?d"
  proof -
    have "tbl_unique o_slug (db_orgs ?d)"
      using db_invD(4) [OF inv] free
      by (simp add: unique_ok_def slug_key.unique_insert slug_taken_def org_row_def)
    moreover have "tbl_unique member_pair (db_members ?d)"
      using db_invD(4) [OF inv] fresh
      by (auto simp: unique_ok_def tbl_exists_iff member_pair_def owner_row_def
          intro!: pair_key.unique_insert)
    ultimately show ?thesis using db_invD(4) [OF inv] by (simp add: unique_ok_def)
  qed
  ultimately have "db_inv ?d" by (simp add: db_inv_def)
  then show ?thesis unfolding with_new_org_def Let_def
    by (rule inv_create_free_subscription) (simp add: keys)
qed

lemma create_org_eq:
  assumes "db_inv d"
  shows "create_org_with_owner slugify now (\<lambda>_ x. x) user name d =
    (let slug = candidate_slug slugify name d
     in if 255 < length name \<or> 255 < length slug then (Inl DataError, d)
        else (Inr (org_row now user name slug (tb_next (db_orgs d))),
              with_new_org now user name slug d))"
proof -
  note eq = insert_org_with_owner_eq [OF db_invD(1) [OF assms] db_invD(3) [OF assms]]
  have "\<not> slug_taken d (candidate_slug slugify name d)"
    unfolding slug_taken_iff candidate_slug_def Let_def by (rule slug_loop_free)
  then show ?thesis
    by (simp add: create_org_with_owner_def eval_nat_numeral Let_def atomic_def eq)
qed

text \<open>Creating an organization: without interference the call succeeds at its first attempt. It
  adds the organization under the chosen slug, an Owner membership for the caller and, through
  the signal, the Free subscription. The only failure is a name or slug wider than its column,
  and it writes nothing.\<close>

theorem create_org_spec:
  assumes "db_inv d"
  shows "create_org_with_owner slugify now (\<lambda>_ x. x) user name d =
    (let slug = candidate_slug slugify name d
     in if 255 < length name \<or> 255 < length slug then (Inl DataError, d)
        else (Inr (org_row now user name slug (tb_next (db_orgs d))),
              with_new_org now user name slug d))"
  using assms by (rule create_org_eq)

theorem create_org_witness:
  "\<exists>d'. create_org_with_owner (\<lambda>n. ''nova'') 7 (\<lambda>_ x. x) nora ''Nova'' demo_db =
     (Inr (org_row 7 nora ''Nova'' ''nova'' 3), d') \<and>
     find_membership 5 3 d' = Some \<lparr>m_id = 5, m_user = 5, m_org = 3, m_role = OWNER, m_created_at = 7\<rparr> \<and>
     limit_of 3 ''max_projects'' d' = Some 3"
proof -
  have s: "candidate_slug (\<lambda>n. ''nova'') ''Nova'' demo_db = ''nova''"
    by (simp add: candidate_slug_def slug_base_def slug_loop.simps demo_defs)
  show ?thesis
    using create_org_spec [OF demo_inv, of "\<lambda>n. ''nova''" 7 nora "''Nova''"]
    by (simp add: s Let_def) code_simp
qed

fun committed :: "(nat \<Rightarrow> db \<Rightarrow> db) \<Rightarrow> nat \<Rightarrow> db \<Rightarrow> nat \<Rightarrow> db" where
  \<comment> \<open>what is committed when the next attempt chooses its slug, \<open>i\<close> of \<open>n\<close> attempts having lost\<close>
  "committed others n d 0 = d"
| "committed others n d (Suc i) = others (n - Suc i) (committed others n d i)"

lemma committed_step: "committed others (Suc n) d = case_nat d (committed others n (others n d))"
proof
  fix i show "committed others (Suc n) d i = case_nat d (committed others n (others n d)) i"
    by (induction i) (auto split: nat.splits)
qed

definition lost_race :: "(string \<Rightarrow> string) \<Rightarrow> string \<Rightarrow> (nat \<Rightarrow> db) \<Rightarrow> nat \<Rightarrow> bool" where
  \<comment> \<open>somebody took the slug of attempt \<open>i\<close> between its choice and its insert\<close>
  "lost_race slugify name seen i \<longleftrightarrow> slug_taken (seen (Suc i)) (candidate_slug slugify name (seen i))"

definition does_not_fit :: "(string \<Rightarrow> string) \<Rightarrow> string \<Rightarrow> (nat \<Rightarrow> db) \<Rightarrow> nat \<Rightarrow> bool" where
  "does_not_fit slugify name seen i \<longleftrightarrow>
     255 < length name \<or> 255 < length (candidate_slug slugify name (seen i))"

lemma attempt_step [simp]:
  "lost_race slugify name (case_nat d f) 0 \<longleftrightarrow> slug_taken (f 0) (candidate_slug slugify name d)"
  "lost_race slugify name (case_nat d f) (Suc i) \<longleftrightarrow> lost_race slugify name f i"
  "does_not_fit slugify name (case_nat d f) 0 \<longleftrightarrow>
     255 < length name \<or> 255 < length (candidate_slug slugify name d)"
  "does_not_fit slugify name (case_nat d f) (Suc i) \<longleftrightarrow> does_not_fit slugify name f i"
  by (simp_all add: lost_race_def does_not_fit_def)

lemma org_attempts_exact:
  assumes "db_inv d" and "\<And>n x. db_inv x \<Longrightarrow> db_inv (others n x)"
    and "org_attempts slugify now others user name n d = (res, d')"
  defines "seen \<equiv> committed others n d"
  shows "(case res of
       Inr org \<Rightarrow> \<exists>i < n. (\<forall>j < i. lost_race slugify name seen j) \<and> \<not> lost_race slugify name seen i \<and>
         org = org_row now user name (candidate_slug slugify name (seen i)) (tb_next (db_orgs (seen (Suc i)))) \<and>
         d' = with_new_org now user name (candidate_slug slugify name (seen i)) (seen (Suc i))
     | Inl e \<Rightarrow> e = DataError \<and>
           (\<exists>i < n. (\<forall>j < i. lost_race slugify name seen j) \<and> does_not_fit slugify name seen i \<and> d' = seen (Suc i)) \<or>
         e = APIException ''Could not allocate a unique organization slug; please retry.'' \<and>
           (\<forall>i < n. lost_race slugify name seen i) \<and> d' = seen n)"
  unfolding seen_def using assms(1,3)
proof (induction n arbitrary: d)
  case 0
  then show ?case by auto
next
  case (Suc n)
  let ?s = "candidate_slug slugify name d"
  have inv: "db_inv (others n d)" using assms(2) Suc.prems(1) by blast
  note eq = insert_org_with_owner_eq [OF db_invD(1) [OF inv] db_invD(3) [OF inv]]
  note shift = committed_step Ex_less_Suc2 All_less_Suc2
  show ?case
  proof (cases "255 < length name \<or> 255 < length ?s")
    case True
    then have "res = Inl DataError" "d' = others n d"
      using Suc.prems(2) by (simp_all add: Let_def atomic_def eq)
    with True show ?thesis by (simp add: shift del: committed.simps(2))
  next
    case short: False
    show ?thesis
    proof (cases "slug_taken (others n d) ?s")
      case True
      with short Suc.prems(2) have "org_attempts slugify now others user name n (others n d) = (res, d')"
        by (simp add: Let_def atomic_def eq)
      from Suc.IH [OF inv this] True show ?thesis by (auto simp: shift simp del: committed.simps(2) split: sum.splits)
    next
      case False
      with short Suc.prems(2) have "res = Inr (org_row now user name ?s (tb_next (db_orgs (others n d))))"
        "d' = with_new_org now user name ?s (others n d)"
        by (simp_all add: Let_def atomic_def eq)
      with False show ?thesis by (simp add: shift del: committed.simps(2))
    qed
  qed
qed

lemma committed_inv:
  "db_inv d \<Longrightarrow> (\<And>n x. db_inv x \<Longrightarrow> db_inv (others n x)) \<Longrightarrow> db_inv (committed others n d i)"
  by (induction i) simp_all

lemma with_new_org_rows:
  "org_row now user name slug (tb_next (db_orgs d)) \<in> set (tb_rows (db_orgs (with_new_org now user name slug d))) \<and>
   (\<exists>m \<in> set (tb_rows (db_members (with_new_org now user name slug d))).
      m_user m = u_id user \<and> m_org m = tb_next (db_orgs d) \<and> m_role m = OWNER)"
  by (auto simp: with_new_org_def Let_def org_row_def owner_row_def)

text \<open>C29. Creating an organization while other requests commit: whatever they do between the choice
  of a slug and its insert (as long as it keeps the database invariant), the invariant holds
  afterwards, and the call ends at the first attempt that is not overtaken: there the caller becomes
  Owner of a new organization under the slug chosen last, or, if the name or that very slug is wider
  than its column, the call fails with a database error and adds nothing. If all six attempts
  lose their slug to others the call ends in the API's own error, never in a raw uniqueness error.\<close>

theorem create_org_under_races:
  assumes "db_inv d" and "\<And>n x. db_inv x \<Longrightarrow> db_inv (others n x)"
    and "create_org_with_owner slugify now others user name d = (res, d')"
  defines "seen \<equiv> committed others 6 d"
  shows "db_inv d' \<and>
    (case res of
       Inr org \<Rightarrow> \<exists>i < 6. (\<forall>j < i. lost_race slugify name seen j) \<and> \<not> lost_race slugify name seen i \<and>
         org = org_row now user name (candidate_slug slugify name (seen i)) (tb_next (db_orgs (seen (Suc i)))) \<and>
         d' = with_new_org now user name (candidate_slug slugify name (seen i)) (seen (Suc i)) \<and>
         org \<in> set (tb_rows (db_orgs d')) \<and>
         (\<exists>m \<in> set (tb_rows (db_members d')). m_user m = u_id user \<and> m_org m = o_id org \<and> m_role m = OWNER)
     | Inl e \<Rightarrow> e = DataError \<and>
           (\<exists>i < 6. (\<forall>j < i. lost_race slugify name seen j) \<and> does_not_fit slugify name seen i \<and> d' = seen (Suc i)) \<or>
         e = APIException ''Could not allocate a unique organization slug; please retry.'' \<and>
           (\<forall>i < 6. lost_race slugify name seen i) \<and> d' = seen 6)"
proof -
  have inv: "db_inv (seen i)" for i unfolding seen_def using assms(1,2) by (rule committed_inv)
  note out = org_attempts_exact [OF assms(1,2) assms(3) [unfolded create_org_with_owner_def], folded seen_def]
  show ?thesis
  proof (cases res)
    case (Inl e)
    with out inv show ?thesis by auto
  next
    case (Inr org)
    with out obtain i where i: "i < 6" "\<forall>j < i. lost_race slugify name seen j" "\<not> lost_race slugify name seen i"
      "org = org_row now user name (candidate_slug slugify name (seen i)) (tb_next (db_orgs (seen (Suc i))))"
      "d' = with_new_org now user name (candidate_slug slugify name (seen i)) (seen (Suc i))" by auto
    from i(3) inv_with_new_org [OF inv] have "db_inv d'" by (simp add: i(5) lost_race_def)
    with i Inr with_new_org_rows show ?thesis by (simp add: org_row_def) blast
  qed
qed

text \<open>The witness lets another request take the slug in the first window only.\<close>

definition steal_slug :: "nat \<Rightarrow> db \<Rightarrow> db" where
  "steal_slug n d = (if n = 5 \<and> \<not> slug_taken d ''nova'' then with_new_org 0 rita ''Nova'' ''nova'' d else d)"

theorem create_org_under_races_witness:
  "\<exists>org d'. create_org_with_owner (\<lambda>n. ''nova'') 7 steal_slug nora ''Nova'' demo_db = (Inr org, d') \<and>
     o_id org = 4 \<and> o_slug org = ''nova-2'' \<and> db_inv d'"
proof -
  obtain res d' where r: "create_org_with_owner (\<lambda>n. ''nova'') 7 steal_slug nora ''Nova'' demo_db = (res, d')"
    by fastforce
  have "db_inv x \<Longrightarrow> db_inv (steal_slug n x)" for n x
    using inv_with_new_org [of x "''nova''"] by (simp add: steal_slug_def)
  from create_org_under_races [OF demo_inv this r] have "db_inv d'" by blast
  moreover have "(case fst (create_org_with_owner (\<lambda>n. ''nova'') 7 steal_slug nora ''Nova'' demo_db) of
      Inr org \<Rightarrow> o_id org = 4 \<and> o_slug org = ''nova-2'' | Inl e \<Rightarrow> False)"
    by code_simp
  ultimately show ?thesis using r by (auto split: sum.splits)
qed


subsection \<open>Access to an organization\<close>

lemma manager_role_iff [simp]: "Some r \<in> Some ` MANAGER_ROLES \<longleftrightarrow> r \<in> MANAGER_ROLES"
  by auto

definition org_access :: "db \<Rightarrow> user option \<Rightarrow> string \<Rightarrow> user \<Rightarrow> organization \<Rightarrow> membership \<Rightarrow> bool" where
  \<comment> \<open>the path names \<open>org\<close>, and \<open>m\<close> is the caller's membership in it\<close>
  "org_access d caller raw u org m \<longleftrightarrow>
     caller = Some u \<and> org \<in> set (tb_rows (db_orgs d)) \<and> py_int raw = Some (o_id org) \<and>
     find_membership (u_id u) (o_id org) d = Some m"

lemma require_user_simps [simp]:
  "require_user d None = Inl NotAuthenticated"
  "require_user d (Some u) = Inr u"
  by (simp_all add: require_user_def org_permissions_def IsAuthenticated_def fresh_request_def)

lemma find_membership_ex:
  "tbl_exists (\<lambda>m. m_org m = k \<and> m_user m = u) (db_members d) \<longleftrightarrow> (\<exists>m. find_membership u k d = Some m)"
  using tbl_first_None [of "\<lambda>m. m_user m = u \<and> m_org m = k" "db_members d"]
  by (cases "find_membership u k d") (auto simp: find_membership_def tbl_exists_iff dest: tbl_first_Some)

lemma org_queryset_iff:
  "org \<in> set (org_queryset u d) \<longleftrightarrow>
     org \<in> set (tb_rows (db_orgs d)) \<and> (\<exists>m. find_membership (u_id u) (o_id org) d = Some m)"
  by (simp add: org_queryset_def tbl_filter_def find_membership_ex)

lemma org_get_object_access:
  "org_get_object raw d caller = Inr (u, org, role) \<Longrightarrow>
   \<exists>m. org_access d caller raw u org m \<and> role = Some (m_role m)"
  by (cases caller)
    (auto simp: org_get_object_def guard_simps org_access_def caller_role_def org_queryset_iff
      dest!: get_object_Inr)

text \<open>What the writing actions leave: the database as it was, or one write under its guard.\<close>

lemma org_create_effect:
  assumes "db_inv d"
  shows "snd (org_create slugify now (\<lambda>_ x. x) body d caller) = d \<or>
    (\<exists>user name slug. caller = Some user \<and> length name \<le> 255 \<and> length slug \<le> 255 \<and>
       \<not> slug_taken d slug \<and>
       snd (org_create slugify now (\<lambda>_ x. x) body d caller) = with_new_org now user name slug d)"
proof (cases "bind_res (require_user d caller) (\<lambda>user.
           bind_res body (\<lambda>name. bind_res (validate_name name) (\<lambda>name. Inr (user, name))))")
  case (Inl e)
  then show ?thesis by (simp add: org_create_def)
next
  case (Inr x)
  obtain user name where x: "x = (user, name)" by (cases x)
  with Inr have user: "caller = Some user" by (cases caller) (auto simp: bind_res_Inr_iff)
  let ?slug = "candidate_slug slugify name d"
  have free: "\<not> slug_taken d ?slug"
    unfolding slug_taken_iff candidate_slug_def Let_def by (rule slug_loop_free)
  show ?thesis
  proof (cases "255 < length name \<or> 255 < length ?slug")
    case True
    with Inr x show ?thesis by (simp add: org_create_def create_org_eq [OF assms] Let_def)
  next
    case False
    with Inr x user free show ?thesis
      by (intro disjI2 exI [of _ user] exI [of _ name] exI [of _ ?slug])
        (simp add: org_create_def create_org_eq [OF assms] Let_def)
  qed
qed

lemma org_update_effect:
  "snd (org_update raw body d caller) = d \<or>
   (\<exists>u org m name. org_access d caller raw u org m \<and> m_role m \<in> MANAGER_ROLES \<and> length name \<le> 255 \<and>
      snd (org_update raw body d caller) = d\<lparr>db_orgs := tbl_update_where (\<lambda>x. o_id x = o_id org)
        (\<lambda>x. x\<lparr>o_name := name\<rparr>) (db_orgs d)\<rparr>)"
proof (cases "org_get_object raw d caller")
  case (Inl e)
  then show ?thesis by (simp add: org_update_def)
next
  case (Inr x)
  obtain u org role where x: "x = (u, org, role)" by (cases x)
  then obtain m where m: "org_access d caller raw u org m" "role = Some (m_role m)"
    using org_get_object_access Inr by blast
  let ?v = "bind_res body (\<lambda>v. case v of None \<Rightarrow> Inr (o_name org) | Some name \<Rightarrow> validate_name name)"
  show ?thesis
  proof (cases "m_role m \<in> MANAGER_ROLES \<and> (\<exists>name. ?v = Inr name \<and> length name \<le> 255)")
    case False
    then show ?thesis using Inr x m
      by (cases ?v) (auto simp: org_update_def char_field_def)
  next
    case True
    then show ?thesis using Inr x m by (force simp: org_update_def char_field_def Let_def)
  qed
qed

lemma org_destroy_effect:
  "snd (org_destroy raw d caller) = d \<or>
   (\<exists>u org m. org_access d caller raw u org m \<and> m_role m = OWNER \<and>
      snd (org_destroy raw d caller) = organization_delete (o_id org) d)"
proof (cases "org_get_object raw d caller")
  case (Inr x)
  obtain u org role where x: "x = (u, org, role)" by (cases x)
  then obtain m where m: "org_access d caller raw u org m" "role = Some (m_role m)"
    using org_get_object_access Inr by blast
  then show ?thesis using Inr x by (auto simp: org_destroy_def)
qed (simp add: org_destroy_def)

lemma org_get_objectI:
  assumes "keys_ok d" and a: "org_access d caller raw u org m"
  shows "org_get_object raw d caller = Inr (u, org, Some (m_role m))"
proof -
  have "x = org" if "x \<in> set (tb_rows (db_orgs d))" "o_id x = o_id org" for x
    using that assms by (auto simp: keys_ok_def org_access_def dest!: tbl_wfD_inj dest: inj_onD)
  moreover have "org \<in> set (org_queryset u d)" using a by (auto simp: org_access_def org_queryset_iff)
  ultimately have "find (\<lambda>x. o_id x = o_id org) (org_queryset u d) = Some org"
    by (cases "find (\<lambda>x. o_id x = o_id org) (org_queryset u d)")
      (auto simp: find_None_iff org_queryset_iff dest: find_in_set)
  with a show ?thesis
    by (simp add: org_get_object_def org_access_def get_object_def caller_role_def)
qed

lemma org_get_object_refused:
  assumes "\<nexists>u org m. org_access d caller raw u org m"
  shows "org_get_object raw d caller = Inl (if caller = None then NotAuthenticated else Http404)"
proof (cases caller)
  case None
  then show ?thesis by (simp add: org_get_object_def)
next
  case (Some u)
  with assms have "get_object o_id raw (org_queryset u d) = Inl Http404"
    by (auto simp: get_object_Inl org_queryset_iff org_access_def)
  with Some show ?thesis by (simp add: org_get_object_def)
qed

lemma org_access_unique:
  assumes "keys_ok d" "org_access d caller raw u org m" "org_access d caller raw u' org' m'"
  shows "u' = u \<and> org' = org \<and> m' = m"
  using org_get_objectI [OF assms(1,2)] org_get_objectI [OF assms(1,3)] assms(2,3)
  by (auto simp: org_access_def)

lemma org_access_row:
  "org_access d caller raw u org m \<Longrightarrow>
   m \<in> set (tb_rows (db_members d)) \<and> m_user m = u_id u \<and> m_org m = o_id org"
  unfolding org_access_def using find_membership_Some by blast

text \<open>Organizations are invisible to non-members: retrieve, update and delete of an organization
  the caller has no membership in are a 404 (a 401 without authentication) and write nothing; the
  list has exactly the caller's organizations.\<close>

theorem org_non_member_404:
  assumes "\<nexists>u org m. org_access d caller raw u org m"
  defines "refusal \<equiv> if caller = None then NotAuthenticated else Http404"
  shows "org_retrieve raw d caller = Inl refusal \<and> org_update raw body d caller = (Inl refusal, d) \<and>
    org_destroy raw d caller = (Inl refusal, d) \<and>
    (caller = Some usr \<longrightarrow> (\<exists>out. org_list collate d caller = Inr out \<and>
       fst ` set out = {k \<in> org_keys d. \<exists>m \<in> set (tb_rows (db_members d)).
         m_org m = k \<and> m_user m = u_id usr}))"
proof -
  have "o_id ` set (org_queryset usr d) = {k \<in> org_keys d. \<exists>m \<in> set (tb_rows (db_members d)).
      m_org m = k \<and> m_user m = u_id usr}"
    by (auto simp: org_queryset_def tbl_filter_def tbl_exists_iff org_keys_def)
  moreover have "fst (org_repr a b org d) = o_id org" for a b org by (simp add: org_repr_def)
  ultimately show ?thesis
    using org_get_object_refused [OF assms(1)]
    by (auto simp: org_retrieve_def org_update_def org_destroy_def refusal_def org_list_def image_image)
qed

theorem org_non_member_404_witness:
  "org_destroy ''2'' demo_db (Some olivia) = (Inl Http404, demo_db)"
proof -
  have "\<nexists>u org m. org_access demo_db (Some olivia) ''2'' u org m"
    by (auto simp: org_access_def find_membership_def tbl_first_def demo_defs py_int_eval)
  from org_non_member_404 [OF this] show ?thesis by simp
qed

text \<open>Deleting an organization needs its Owner role. It removes the tenant entirely (no
  membership, invitation, subscription or project of it is left) and leaves every other tenant's
  rows, and the invariant, as they were.\<close>

theorem org_destroy_spec:
  assumes inv: "db_inv d" and a: "org_access d caller raw u org m"
  shows "org_destroy raw d caller =
      (if m_role m = OWNER then (Inr (), organization_delete (o_id org) d)
       else (Inl (PermissionDenied ''Only an owner can delete the organization.''), d)) \<and>
    (\<forall>d'. d' = organization_delete (o_id org) d \<longrightarrow>
       db_inv d' \<and> o_id org \<notin> org_keys d' \<and>
       for_org m_org (o_id org) (db_members d') = [] \<and> for_org i_org (o_id org) (db_invites d') = [] \<and>
       for_org s_org (o_id org) (db_subs d') = [] \<and> for_org pr_org (o_id org) (db_projects d') = [] \<and>
       (\<forall>k. k \<noteq> o_id org \<longrightarrow>
          for_org m_org k (db_members d') = for_org m_org k (db_members d) \<and>
          for_org i_org k (db_invites d') = for_org i_org k (db_invites d) \<and>
          for_org s_org k (db_subs d') = for_org s_org k (db_subs d) \<and>
          for_org pr_org k (db_projects d') = for_org pr_org k (db_projects d)))"
proof -
  have "org_destroy raw d caller =
      (if m_role m = OWNER then (Inr (), organization_delete (o_id org) d)
       else (Inl (PermissionDenied ''Only an owner can delete the organization.''), d))"
    by (simp add: org_destroy_def org_get_objectI [OF db_invD(1) [OF inv] a])
  moreover have "db_inv (organization_delete (o_id org) d)" using inv by (rule inv_organization_delete)
  ultimately show ?thesis
    using member_tenant.delete_tenant_other [of "o_id org"] invite_tenant.delete_tenant_other [of "o_id org"]
      sub_tenant.delete_tenant_other [of "o_id org"] project_tenant.delete_tenant_other [of "o_id org"]
    by (auto simp: organization_delete_def org_keys_def for_org_def tbl_filter_def filter_empty_conv)
qed

lemma demo_access:
  "org_access demo_db (Some olivia) ''1'' olivia acme acme_owner"
  "org_access demo_db (Some adam) ''1'' adam acme acme_admin"
  "org_access demo_db (Some mia) ''1'' mia acme acme_member"
  "org_access demo_db (Some rita) ''2'' rita rival rival_owner"
  by (simp_all add: org_access_def find_membership_def tbl_first_def demo_defs py_int_eval)

theorem org_destroy_spec_witness:
  "org_destroy ''1'' demo_db (Some adam) =
     (Inl (PermissionDenied ''Only an owner can delete the organization.''), demo_db)"
  using org_destroy_spec [OF demo_inv demo_access(2)]
  by (simp add: acme_admin_def demo_member_def)

text \<open>Renaming an organization: a plain member is refused, a blank name is a 400, and otherwise
  only the name of that one row changes, to the stripped name; slug, creator and every other
  organization stay.\<close>

theorem org_update_spec:
  assumes "keys_ok d" and a: "org_access d caller raw u org m"
  shows "org_update raw (Inr (Some name)) d caller =
    (if \<not> is_admin_or_owner m
     then (Inl (PermissionDenied ''Only an owner or admin can update the organization.''), d)
     else if str_strip name = []
     then (Inl (ValidationError (Some ''name'') ''This field may not be blank.''), d)
     else if 255 < length (str_strip name) then (Inl DataError, d)
     else (Inr (o_id org, str_strip name, o_slug org, o_created_at org, Some (m_role m)),
           d\<lparr>db_orgs := tbl_update_where (\<lambda>x. o_id x = o_id org)
              (\<lambda>x. x\<lparr>o_name := str_strip name\<rparr>) (db_orgs d)\<rparr>))"
  by (simp add: org_update_def org_get_objectI [OF assms] is_admin_or_owner_def validate_name_def
      char_field_def Let_def org_repr_def get_role_def)

theorem org_update_spec_witness:
  "fst (org_update ''1'' (Inr (Some ''  Acme Ltd '')) demo_db (Some adam)) =
     Inr (1, ''Acme Ltd'', ''acme-inc'', 0, Some ADMIN)"
proof -
  have "str_strip ''  Acme Ltd '' = ''Acme Ltd''" by code_simp
  then show ?thesis
    using org_update_spec [OF demo_keys_ok demo_access(2), of "''  Acme Ltd ''"]
    by (simp add: is_admin_or_owner_def acme_admin_def demo_member_def acme_def)
qed

end
