(* ===== verification/Members.thy ===== *)
theory Members
  imports Org_Service Users
begin

section \<open>Members (organizations/views.py, the \<open>members\<close> and \<open>member\<close> actions)\<close>

text \<open>
  Listing members, removing a member and changing a role: the order of the checks is the code's.
  \<open>member_action\<close> is both methods of the route; the case lemma \<open>member_cases\<close> says what a successful call needed.
\<close>

definition get_object_or_404 :: "('r \<Rightarrow> key) \<Rightarrow> string \<Rightarrow> 'r list \<Rightarrow> exn + 'r" where
  \<comment> \<open>\<open>django.shortcuts\<close>'s: only a missing row is a 404, a key that is no number is a \<open>ValueError\<close>\<close>
  "get_object_or_404 pk raw queryset =
     (case py_int raw of
        None \<Rightarrow> Inl PyValueError
      | Some k \<Rightarrow> (case find (\<lambda>x. pk x = k) queryset of None \<Rightarrow> Inl Http404 | Some x \<Rightarrow> Inr x))"

type_synonym member_out = "key \<times> (key \<times> string \<times> string) option \<times> string \<times> time"

definition membership_repr :: "db \<Rightarrow> membership \<Rightarrow> member_out" where
  \<comment> \<open>\<open>MembershipSerializer\<close> over \<open>MemberUserSerializer\<close>\<close>
  "membership_repr d m =
     (m_id m,
      map_option (\<lambda>u. (u_id u, u_email u, full_name u)) (tbl_get u_id (m_user m) (db_users d)),
      m_role m, m_created_at m)"

definition role_choice :: "string \<Rightarrow> exn + string" where
  \<comment> \<open>\<open>ChoiceField(choices=Role.choices)\<close>\<close>
  "role_choice v =
     (if v \<in> set Role_choices then Inr v
      else Inl (ValidationError (Some ''role'') ''Not a valid choice.''))"

definition members_list :: "string \<Rightarrow> db \<Rightarrow> user option \<Rightarrow> exn + member_out list" where
  "members_list raw d caller =
     bind_res (org_get_object raw d caller) (\<lambda>(user, org, role).
       Inr (map (membership_repr d) (order_by m_user (for_org m_org (o_id org) (db_members d)))))"

definition member_action ::
  "http_method \<Rightarrow> string \<Rightarrow> string \<Rightarrow> exn + string \<Rightarrow> db \<Rightarrow> user option \<Rightarrow> member_out option outcome" where
  \<comment> \<open>\<open>None\<close> is the empty 204 reply\<close>
  "member_action meth raw member_pk body d caller =
     (case org_get_object raw d caller of
        Inl e \<Rightarrow> (Inl e, d)
      | Inr (user, org, actor_role) \<Rightarrow>
          (case get_object_or_404 m_id member_pk (for_org m_org (o_id org) (db_members d)) of
             Inl e \<Rightarrow> (Inl e, d)
           | Inr target \<Rightarrow>
               (if \<not> (case actor_role of None \<Rightarrow> False | Some a \<Rightarrow> can_manage_member a (m_role target))
                then (Inl (PermissionDenied ''You can't manage this member.''), d)
                else if meth = DELETE then
                  (if is_last_owner target d
                   then (Inl (ValidationError None
                     ''Cannot remove the last owner of the organization.''), d)
                   else case membership_delete target d of
                     Inl e \<Rightarrow> (Inl e, d)
                   | Inr d' \<Rightarrow> (Inr None, d'))
                else
                  (case bind_res body role_choice of
                     Inl e \<Rightarrow> (Inl e, d)
                   | Inr new_role \<Rightarrow>
                       (if \<not> (case actor_role of None \<Rightarrow> False | Some a \<Rightarrow> can_assign_role a new_role)
                        then (Inl (PermissionDenied
                          ''You can't assign a role higher than your own.''), d)
                        else if m_role target = OWNER \<and> new_role \<noteq> OWNER \<and> is_last_owner target d
                        then (Inl (ValidationError None
                          ''Cannot demote the last owner of the organization.''), d)
                        else (Inr (Some (membership_repr d (target\<lparr>m_role := new_role\<rparr>))),
                              save_member_role target new_role d))))))"

subsection \<open>What a call needs\<close>

lemma get_object_or_404_Inr:
  "get_object_or_404 pk raw qs = Inr x \<Longrightarrow> x \<in> set qs \<and> py_int raw = Some (pk x)"
  by (auto simp: get_object_or_404_def split: option.splits dest: find_in_set)

lemma for_org_iff: "x \<in> set (for_org f k t) \<longleftrightarrow> x \<in> set (tb_rows t) \<and> f x = k"
  by (auto simp: for_org_def tbl_filter_def)

lemma get_object_or_404_member:
  assumes "tbl_wf m_id (db_members d)" "x \<in> set (tb_rows (db_members d))" "m_org x = k"
    "py_int raw = Some (m_id x)"
  shows "get_object_or_404 m_id raw (for_org m_org k (db_members d)) = Inr x"
proof -
  have "y = x" if "y \<in> set (tb_rows (db_members d))" "m_id y = m_id x" for y
    using that assms(2) tbl_wfD_inj [OF assms(1)] by (auto dest: inj_onD)
  then have "find (\<lambda>y. m_id y = m_id x) (for_org m_org k (db_members d)) = Some x"
    using assms(2,3)
    by (cases "find (\<lambda>y. m_id y = m_id x) (for_org m_org k (db_members d))")
      (auto simp: find_None_iff for_org_iff dest: find_in_set)
  with assms(4) show ?thesis by (simp add: get_object_or_404_def)
qed

lemma member_cases:
  obtains (refused) e where "member_action meth raw mraw body d caller = (Inl e, d)"
  | (removed) u org m t where "org_access d caller raw u org m"
      "t \<in> set (tb_rows (db_members d))" "m_org t = o_id org" "py_int mraw = Some (m_id t)"
      "can_manage_member (m_role m) (m_role t)" "\<not> is_last_owner t d" "meth = DELETE"
      "member_action meth raw mraw body d caller = (Inr None, delete_member_row t d)"
  | (changed) u org m t r where "org_access d caller raw u org m"
      "t \<in> set (tb_rows (db_members d))" "m_org t = o_id org" "py_int mraw = Some (m_id t)"
      "can_manage_member (m_role m) (m_role t)" "can_assign_role (m_role m) r"
      "r \<in> set Role_choices" "m_role t = OWNER \<Longrightarrow> r \<noteq> OWNER \<Longrightarrow> \<not> is_last_owner t d"
      "meth \<noteq> DELETE"
      "member_action meth raw mraw body d caller =
         (Inr (Some (membership_repr d (t\<lparr>m_role := r\<rparr>))), save_member_role t r d)"
proof (cases "org_get_object raw d caller")
  case (Inl e)
  then show ?thesis by (intro refused) (simp add: member_action_def)
next
  case (Inr x)
  then obtain u org role where g: "org_get_object raw d caller = Inr (u, org, role)" by (cases x) auto
  then obtain m where a: "org_access d caller raw u org m" "role = Some (m_role m)"
    using org_get_object_access by blast
  show ?thesis
  proof (cases "get_object_or_404 m_id mraw (for_org m_org (o_id org) (db_members d))")
    case (Inl e)
    with g show ?thesis by (intro refused) (simp add: member_action_def)
  next
    case t: (Inr t)
    then have row: "t \<in> set (tb_rows (db_members d))" "m_org t = o_id org" "py_int mraw = Some (m_id t)"
      by (auto dest!: get_object_or_404_Inr simp: for_org_iff)
    show ?thesis
    proof (cases "can_manage_member (m_role m) (m_role t)")
      case False
      with g t a show ?thesis by (intro refused) (simp add: member_action_def)
    next
      case manage: True
      show ?thesis
      proof (cases "meth = DELETE")
        case del: True
        show ?thesis
        proof (cases "is_last_owner t d")
          case True
          with g t a manage del show ?thesis by (intro refused) (simp add: member_action_def)
        next
          case False
          with g t a manage del show ?thesis
            by (intro removed [OF a(1) row manage False])
              (simp_all add: member_action_def not_last_owner_delete)
        qed
      next
        case patch: False
        show ?thesis
        proof (cases "bind_res body role_choice")
          case (Inl e)
          with g t a manage patch show ?thesis by (intro refused) (simp add: member_action_def)
        next
          case r: (Inr r)
          then have rc: "r \<in> set Role_choices"
            by (auto simp: guard_simps role_choice_def split: if_splits)
          show ?thesis
          proof (cases "can_assign_role (m_role m) r")
            case False
            with g t a manage patch r show ?thesis by (intro refused) (simp add: member_action_def)
          next
            case assign: True
            show ?thesis
            proof (cases "m_role t = OWNER \<and> r \<noteq> OWNER \<and> is_last_owner t d")
              case True
              with g t a manage patch r assign show ?thesis
                by (intro refused) (simp add: member_action_def)
            next
              case False
              with g t a manage patch r assign show ?thesis
                by (intro changed [OF a(1) row manage assign rc]) (auto simp: member_action_def)
            qed
          qed
        qed
      qed
    qed
  qed
qed

subsection \<open>Properties\<close>

text \<open>The role checks of \<open>core.rbac\<close> implement the order Member < Admin < Owner: an actor manages
  or assigns exactly the roles at or below its own, and only from Admin upwards.\<close>

theorem rbac_refines_role_order:
  "can_manage_member (role_name a) (role_name t) = (AAdmin \<le> a \<and> t \<le> a) \<and>
   can_assign_role (role_name a) (role_name r) = (AAdmin \<le> a \<and> r \<le> a)"
  by (simp add: can_manage_member_order can_assign_role_order)

lemma member_action_keeps:
  assumes inv: "db_inv d" and step: "member_action meth raw mraw body d caller = (res, d')"
  shows "db_inv d'"
proof (cases rule: member_cases [of meth raw mraw body d caller])
  case (refused e)
  with inv step show ?thesis by simp
next
  case (removed u org m t)
  then have "owned (delete_member_row t d)"
    using api_guard.delete_keeps_owned [of d t] db_invD [OF inv] by blast
  with removed inv step show ?thesis using inv_delete_member [of d t] by simp
next
  case (changed u org m t r)
  then have "owned (save_member_role t r d)"
    using api_guard.set_role_keeps_owned [of d t r] db_invD [OF inv] by blast
  with changed inv step show ?thesis using inv_save_role [of d t r] by simp
qed

text \<open>Member management keeps the invariant: whatever members endpoint call runs, every
  organization still has an Owner, and keys, references and unique columns stay intact.\<close>

theorem member_action_inv:
  assumes "db_inv d" and "member_action meth raw mraw body d caller = (res, d')"
  shows "db_inv d'"
  using assms by (rule member_action_keeps)

theorem member_action_inv_witness:
  "db_inv (snd (member_action DELETE ''1'' ''3'' (Inl PyValueError) demo_db (Some adam))) \<and>
   fst (member_action DELETE ''1'' ''3'' (Inl PyValueError) demo_db (Some adam)) = Inr None"
proof
  show "db_inv (snd (member_action DELETE ''1'' ''3'' (Inl PyValueError) demo_db (Some adam)))"
    by (rule member_action_inv [OF demo_inv prod.collapse [symmetric]])
  show "fst (member_action DELETE ''1'' ''3'' (Inl PyValueError) demo_db (Some adam)) = Inr None"
    by code_simp
qed

text \<open>No privilege escalation through the members endpoint: if a call changes the membership
  table, the caller is an Owner or Admin of the addressed organization, every row that went or
  changed belongs to that organization and had at most the caller's rank, and no row ends with a
  rank above the caller's.\<close>

theorem member_no_escalation:
  assumes "keys_ok d" and step: "member_action meth raw mraw body d caller = (res, d')"
    and changed: "db_members d' \<noteq> db_members d"
  obtains u org m where "org_access d caller raw u org m" and "m_role m \<in> MANAGER_ROLES"
    and "\<forall>x \<in> set (tb_rows (db_members d)) - set (tb_rows (db_members d')).
      m_org x = o_id org \<and> Role_rank (m_role x) \<le> Role_rank (m_role m)"
    and "\<forall>x \<in> set (tb_rows (db_members d')) - set (tb_rows (db_members d)).
      Role_rank (m_role x) \<le> Role_rank (m_role m) \<and>
      (\<exists>y \<in> set (tb_rows (db_members d)). m_id y = m_id x \<and> m_user y = m_user x \<and> m_org y = m_org x)"
proof -
  have wf: "tbl_wf m_id (db_members d)" using assms(1) by (simp add: keys_ok_def)
  show ?thesis
  proof (cases rule: member_cases [of meth raw mraw body d caller])
    case (refused e)
    with step changed show ?thesis by simp
  next
    case (removed u org m t)
    have "d' = delete_member_row t d" using step removed(8) by simp
    then have rows: "set (tb_rows (db_members d')) = set (tb_rows (db_members d)) - {t}"
      using member_t.delete_row_set [OF wf removed(2)] by (simp add: delete_member_row_def)
    show ?thesis
      by (rule that [OF removed(1)]) (use removed(2,3,5) in \<open>auto simp: rows can_manage_rank\<close>)
  next
    case (changed u org m t r)
    have "d' = save_member_role t r d" using step changed(10) by simp
    then have rows: "set (tb_rows (db_members d')) = insert (t\<lparr>m_role := r\<rparr>) (set (tb_rows (db_members d)) - {t})"
      using member_t.update_row_Un [OF wf changed(2), of "\<lambda>x. x\<lparr>m_role := r\<rparr>"]
      by (simp add: save_member_role_def)
    show ?thesis
      by (rule that [OF changed(1)])
        (use changed(2,3,5,6) in \<open>auto simp: rows can_manage_rank can_assign_rank\<close>)
  qed
qed

theorem member_no_escalation_witness:
  "\<exists>u org m. org_access demo_db (Some adam) ''1'' u org m \<and> m_role m \<in> MANAGER_ROLES"
proof -
  obtain res d' where step:
    "member_action PATCH ''1'' ''3'' (Inr ''admin'') demo_db (Some adam) = (res, d')" by fastforce
  have "map m_role (tb_rows (db_members (snd (member_action PATCH ''1'' ''3'' (Inr ''admin'') demo_db (Some adam)))))
      \<noteq> map m_role (tb_rows (db_members demo_db))"
    by code_simp
  with step have "db_members d' \<noteq> db_members demo_db" by auto
  from member_no_escalation [OF demo_keys_ok step this] show ?thesis by metis
qed

text \<open>Every refusal of a role change, in the order of the code: an Admin cannot touch an Owner, an
  unknown role is a 400, nobody assigns a role above their own, and the last Owner keeps the role;
  otherwise exactly the role of that row changes.\<close>

theorem member_patch_spec:
  assumes ok: "keys_ok d" and a: "org_access d caller raw u org m"
    and t: "t \<in> set (tb_rows (db_members d))" "m_org t = o_id org" "py_int mraw = Some (m_id t)"
  shows "member_action PATCH raw mraw (Inr r) d caller =
    (if \<not> can_manage_member (m_role m) (m_role t)
     then (Inl (PermissionDenied ''You can't manage this member.''), d)
     else if r \<notin> set Role_choices
     then (Inl (ValidationError (Some ''role'') ''Not a valid choice.''), d)
     else if Role_rank (m_role m) < Role_rank r
     then (Inl (PermissionDenied ''You can't assign a role higher than your own.''), d)
     else if r \<noteq> OWNER \<and> m_role t = OWNER \<and> org_owner_count t d \<le> 1
     then (Inl (ValidationError None ''Cannot demote the last owner of the organization.''), d)
     else (Inr (Some (membership_repr d (t\<lparr>m_role := r\<rparr>))), save_member_role t r d))"
proof -
  have "get_object_or_404 m_id mraw (for_org m_org (o_id org) (db_members d)) = Inr t"
    using ok t by (intro get_object_or_404_member) (simp_all add: keys_ok_def)
  then show ?thesis
    using org_get_objectI [OF ok a]
    by (auto simp: member_action_def role_choice_def can_assign_rank can_manage_rank
        is_last_owner_model not_less)
qed

theorem member_patch_spec_witness:
  "member_action PATCH ''1'' ''1'' (Inr MEMBER) demo_db (Some olivia) =
     (Inl (ValidationError None ''Cannot demote the last owner of the organization.''), demo_db)"
proof -
  have "org_owner_count acme_owner demo_db = 1" "can_manage_member OWNER OWNER" by code_simp+
  moreover have "acme_owner \<in> set (tb_rows (db_members demo_db))" "m_org acme_owner = o_id acme"
    "py_int ''1'' = Some (m_id acme_owner)"
    by (simp_all add: demo_defs py_int_eval)
  ultimately show ?thesis
    using member_patch_spec [OF demo_keys_ok demo_access(1), of acme_owner "''1''" MEMBER]
    by (simp add: Role_choices_def) (simp add: acme_owner_def demo_member_def)
qed

text \<open>A member key in the path that is no number is not a 404: the lookup raises \<open>ValueError\<close>,
  which no handler of the view or of the framework turns into a reply, so the client gets a 500.\<close>

theorem member_bad_key_500:
  assumes "keys_ok d" "org_access d caller raw u org m" "py_int mraw = None"
    and "drf_handler_ok h"
  shows "member_action meth raw mraw body d caller = (Inl PyValueError, d) \<and>
    map_option fst (api_exception_handler h False PyValueError) = Some 500"
  using org_get_objectI [OF assms(1,2)] assms(3) api_exception_handler_status [OF assms(4), of PyValueError]
  by (simp add: member_action_def get_object_or_404_def)

definition demo_handler :: "exn \<Rightarrow> response option" where
  "demo_handler e = map_option (\<lambda>c. (c, JNull)) (status_code e)"

lemma demo_handler_ok: "drf_handler_ok demo_handler"
  by (simp add: drf_handler_ok_def demo_handler_def option.map_comp o_def option.map_ident)

theorem member_bad_key_500_witness:
  "fst (member_action DELETE ''1'' ''me'' (Inl Http404) demo_db (Some olivia)) = Inl PyValueError"
proof -
  have "py_int ''me'' = None" by (simp add: py_int_eval)
  from member_bad_key_500 [OF demo_keys_ok demo_access(1) this demo_handler_ok] show ?thesis by simp
qed

end
