(* ===== verification/Invitations.thy ===== *)
theory Invitations
  imports Members
begin

section \<open>Invitations (organizations/views.py, serializers.py, tasks.py)\<close>

text \<open>
  Creating an invitation (deduplication, seat cap and insert in one transaction, the mail after
  it), accepting one (the status machine of a row, with the expiry that must survive the refusal)
  and the mail task. The random token is an argument. \<open>pending_unique\<close> is what deduplication keeps.
\<close>

definition day :: time where
  "day = 86400000000"

definition validate_invite_email :: "string \<Rightarrow> string" where
  "validate_invite_email value = str_lower (str_strip value)"

definition invite_payload :: "string \<times> string option \<Rightarrow> exn + (string \<times> string)" where
  \<comment> \<open>\<open>InvitationCreateSerializer\<close> over an address \<open>EmailField\<close> accepted; \<open>role\<close> has a default\<close>
  "invite_payload b =
     bind_res (case snd b of None \<Rightarrow> Inr MEMBER | Some v \<Rightarrow> role_choice v) (\<lambda>role.
       Inr (validate_invite_email (fst b), role))"

lemma invite_payload_Inr:
  assumes "invite_payload b = Inr (email, role)"
  shows "str_lower email = email \<and> role \<in> set Role_choices"
proof -
  have "role \<in> set Role_choices" "email = validate_invite_email (fst b)"
    using assms by (cases "snd b"; auto simp: invite_payload_def guard_simps role_choice_def
        Role_choices_def split: if_splits)+
  then show ?thesis by (simp add: validate_invite_email_def)
qed

definition iexact :: "string \<Rightarrow> string \<Rightarrow> bool" where
  "iexact a b \<longleftrightarrow> str_lower a = str_lower b"

definition invitation_insert :: "invitation \<Rightarrow> db \<Rightarrow> exn + (invitation \<times> db)" where
  "invitation_insert i d =
     bind_res (char_field 254 (i_email i)) (\<lambda>_.
     bind_res (char_field 255 (i_token i)) (\<lambda>_.
       if tbl_exists (\<lambda>x. i_token x = i_token i) (db_invites d)
       then Inl (IntegrityError ''organizations_invitation_token_key'')
       else Inr (set_i_id (tb_next (db_invites d)) i,
                 d\<lparr>db_invites := tbl_insert set_i_id i (db_invites d)\<rparr>)))"

definition is_member_email :: "key \<Rightarrow> string \<Rightarrow> db \<Rightarrow> bool" where
  \<comment> \<open>\<open>Membership.objects.filter(organization=org, user__email__iexact=email).exists()\<close>\<close>
  "is_member_email k email d =
     tbl_exists (\<lambda>m. m_org m = k \<and>
       tbl_exists (\<lambda>u. u_id u = m_user m \<and> iexact (u_email u) email) (db_users d)) (db_members d)"

definition is_pending_email :: "key \<Rightarrow> string \<Rightarrow> db \<Rightarrow> bool" where
  "is_pending_email k email d =
     tbl_exists (\<lambda>i. i_org i = k \<and> iexact (i_email i) email \<and> i_status i = PENDING) (db_invites d)"

definition invitation_block ::
  "time \<Rightarrow> int \<Rightarrow> string \<Rightarrow> user \<Rightarrow> organization \<Rightarrow> string \<Rightarrow> string \<Rightarrow> db \<Rightarrow> invitation outcome" where
  \<comment> \<open>the body of the \<open>atomic\<close> block\<close>
  "invitation_block now timeout_days token user org email role d =
     (let locked = lock_billing (o_id org) d
      in if is_member_email (o_id org) email d
         then (Inl (ValidationError None ''That user is already a member of this organization.''), d)
         else if is_pending_email (o_id org) email d
         then (Inl (ValidationError None ''An invitation is already pending for that email.''), d)
         else case check_can_invite_member (o_id org) d of
           Inl e \<Rightarrow> (Inl e, d)
         | Inr _ \<Rightarrow>
             (case invitation_insert \<lparr>i_id = 0, i_org = o_id org, i_email = email, i_role = role,
                     i_token = token, i_status = PENDING, i_invited_by = Some (u_id user),
                     i_created_at = now, i_expires_at = now + timeout_days * day\<rparr> d of
                Inl e \<Rightarrow> (Inl e, d)
              | Inr (i, d') \<Rightarrow> (Inr i, d')))"

type_synonym invitation_out = "key \<times> string \<times> string \<times> string \<times> key option \<times> time \<times> time"

definition invitation_repr :: "invitation \<Rightarrow> invitation_out" where
  \<comment> \<open>\<open>InvitationSerializer\<close>: the token is not among the fields\<close>
  "invitation_repr i =
     (i_id i, i_email i, i_role i, i_status i, i_invited_by i, i_created_at i, i_expires_at i)"

definition invitations_list :: "string \<Rightarrow> db \<Rightarrow> user option \<Rightarrow> exn + invitation_out list" where
  "invitations_list raw d caller =
     bind_res (org_get_object raw d caller) (\<lambda>(user, org, actor_role).
       if actor_role \<notin> Some ` MANAGER_ROLES
       then Inl (PermissionDenied ''Only an owner or admin can manage invitations.'')
       else Inr (map invitation_repr
         (order_by (\<lambda>i. - i_created_at i) (for_org i_org (o_id org) (db_invites d)))))"

definition enqueue :: "task \<Rightarrow> db \<Rightarrow> db" where
  \<comment> \<open>\<open>task.delay\<close>\<close>
  "enqueue t d = d\<lparr>db_queue := db_queue d @ [t]\<rparr>"

definition invitation_create ::
  "time \<Rightarrow> int \<Rightarrow> string \<Rightarrow> string \<Rightarrow> exn + (string \<times> string option) \<Rightarrow> db \<Rightarrow> user option \<Rightarrow>
   invitation_out outcome" where
  \<comment> \<open>\<open>POST\<close>; the body: the address as \<open>EmailField\<close> accepted it, the role if it was given\<close>
  "invitation_create now timeout_days token raw body d caller =
     (case org_get_object raw d caller of
        Inl e \<Rightarrow> (Inl e, d)
      | Inr (user, org, actor_role) \<Rightarrow>
          (if actor_role \<notin> Some ` MANAGER_ROLES
           then (Inl (PermissionDenied ''Only an owner or admin can manage invitations.''), d)
           else case bind_res body invite_payload of
             Inl e \<Rightarrow> (Inl e, d)
           | Inr (email, role) \<Rightarrow>
               (if \<not> (case actor_role of None \<Rightarrow> False | Some a \<Rightarrow> can_assign_role a role)
                then (Inl (PermissionDenied
                  ''You can't invite someone at a role higher than your own.''), d)
                else case atomic (invitation_block now timeout_days token user org email role) d of
                  (Inl e, d') \<Rightarrow> (Inl e, d')
                | (Inr i, d') \<Rightarrow>
                    (Inr (invitation_repr i), enqueue (Send_Invitation_Email (i_id i)) d'))))"

subsection \<open>Accepting\<close>

definition INVALID_INVITATION :: string where
  "INVALID_INVITATION = ''This invitation is invalid or has already been used.''"

definition set_invite_status :: "invitation \<Rightarrow> string \<Rightarrow> db \<Rightarrow> db" where
  "set_invite_status i s d =
     d\<lparr>db_invites :=
        tbl_update_where (\<lambda>x. i_id x = i_id i) (\<lambda>x. x\<lparr>i_status := s\<rparr>) (db_invites d)\<rparr>"

definition get_or_create_member :: "time \<Rightarrow> key \<Rightarrow> key \<Rightarrow> string \<Rightarrow> db \<Rightarrow> membership \<times> db" where
  "get_or_create_member now u k role d =
     (case find_membership u k d of
        Some m \<Rightarrow> (m, d)
      | None \<Rightarrow>
          (let m = \<lparr>m_id = 0, m_user = u, m_org = k, m_role = role, m_created_at = now\<rparr>
           in (set_m_id (tb_next (db_members d)) m,
               d\<lparr>db_members := tbl_insert set_m_id m (db_members d)\<rparr>)))"

definition accept_block :: "time \<Rightarrow> user \<Rightarrow> string \<Rightarrow> db \<Rightarrow> membership option outcome" where
  \<comment> \<open>the \<open>atomic\<close> block; \<open>None\<close> is \<open>expired = True\<close>\<close>
  "accept_block now user token d =
     (case tbl_first (\<lambda>i. i_token i = token) (db_invites d) of
        None \<Rightarrow> (Inl (ValidationError None INVALID_INVITATION), d)
      | Some invitation \<Rightarrow>
          (if i_status invitation \<noteq> PENDING
           then (Inl (ValidationError None INVALID_INVITATION), d)
           else if is_expired now invitation
           then (Inr None, set_invite_status invitation EXPIRED d)
           else if str_lower (u_email user) \<noteq> str_lower (i_email invitation)
           then (Inl (ValidationError None INVALID_INVITATION), d)
           else (let (m, d') = get_or_create_member now (u_id user) (i_org invitation)
                                 (i_role invitation) d
                 in (Inr (Some m), set_invite_status invitation ACCEPTED d'))))"

definition invitation_accept ::
  "time \<Rightarrow> exn + string \<Rightarrow> db \<Rightarrow> user option \<Rightarrow> member_out outcome" where
  "invitation_accept now body d caller =
     (case bind_res (require_user d caller) (\<lambda>user. bind_res body (\<lambda>token. Inr (user, token))) of
        Inl e \<Rightarrow> (Inl e, d)
      | Inr (user, token) \<Rightarrow>
          (case atomic (accept_block now user token) d of
             (Inl e, d') \<Rightarrow> (Inl e, d')
           | (Inr None, d') \<Rightarrow> (Inl (ValidationError None ''This invitation has expired.''), d')
           | (Inr (Some m), d') \<Rightarrow> (Inr (membership_repr d' m), d')))"

subsection \<open>The mail task\<close>

definition role_display :: "string \<Rightarrow> string" where
  \<comment> \<open>\<open>get_role_display\<close>: the label, or the value when it is no choice\<close>
  "role_display v =
     (if v = OWNER then ''Owner'' else if v = ADMIN then ''Admin''
      else if v = MEMBER then ''Member'' else v)"

type_synonym mail = "string \<times> string \<times> string" \<comment> \<open>recipient, subject, body\<close>

definition nl :: string where
  "nl = [char_of (10 :: nat)]"

definition send_invitation_email ::
  "(string \<times> string \<Rightarrow> string) \<Rightarrow> (time \<Rightarrow> string) \<Rightarrow> string \<Rightarrow> organization \<Rightarrow> invitation \<Rightarrow> mail" where
  \<comment> \<open>\<open>urlencode\<close> of one pair and the date format are arguments\<close>
  "send_invitation_email urlencode fmt frontend_url org i =
     (let link = frontend_url @ ''/invitations/accept?'' @ urlencode (''token'', i_token i)
      in (i_email i,
          ''You're invited to join '' @ o_name org @ '' on Bastiq'',
          ''You've been invited to join '' @ o_name org @ '' as a '' @ role_display (i_role i) @ ''.'' @
          nl @ nl @
          ''Accept by opening this link (you'll need a Bastiq account for '' @ i_email i @ ''):'' @ nl @
          link @ nl @ nl @
          ''Or POST this token to /api/invitations/accept:'' @ nl @ i_token i @ nl @ nl @
          ''This invitation expires on '' @ fmt (i_expires_at i) @ ''.'' @ nl))"

definition send_invitation_email_task ::
  "(string \<times> string \<Rightarrow> string) \<Rightarrow> (time \<Rightarrow> string) \<Rightarrow> string \<Rightarrow> key \<Rightarrow> db \<Rightarrow> mail list" where
  "send_invitation_email_task urlencode fmt frontend_url invitation_id d =
     (case tbl_first (\<lambda>i. i_id i = invitation_id) (db_invites d) of
        None \<Rightarrow> []
      | Some i \<Rightarrow>
          (case tbl_get o_id (i_org i) (db_orgs d) of
             None \<Rightarrow> []
           | Some org \<Rightarrow> [send_invitation_email urlencode fmt frontend_url org i]))"

subsection \<open>What a call does\<close>

lemma enqueue_simps [simp]:
  "db_users (enqueue t d) = db_users d" "db_orgs (enqueue t d) = db_orgs d"
  "db_members (enqueue t d) = db_members d" "db_invites (enqueue t d) = db_invites d"
  "db_plans (enqueue t d) = db_plans d" "db_subs (enqueue t d) = db_subs d"
  "db_events (enqueue t d) = db_events d" "db_projects (enqueue t d) = db_projects d"
  "db_tokens (enqueue t d) = db_tokens d" "db_blacklist (enqueue t d) = db_blacklist d"
  "db_queue (enqueue t d) = db_queue d @ [t]"
  by (simp_all add: enqueue_def)

lemma inv_enqueue [simp]: "db_inv d \<Longrightarrow> db_inv (enqueue t d)"
  by (rule db_inv_frame) simp_all

definition new_invite ::
  "time \<Rightarrow> int \<Rightarrow> string \<Rightarrow> user \<Rightarrow> organization \<Rightarrow> string \<Rightarrow> string \<Rightarrow> key \<Rightarrow> invitation" where
  "new_invite now timeout_days token user org email role k =
     \<lparr>i_id = k, i_org = o_id org, i_email = email, i_role = role, i_token = token,
      i_status = PENDING, i_invited_by = Some (u_id user), i_created_at = now,
      i_expires_at = now + timeout_days * day\<rparr>"

lemma invitation_block_Inr:
  "invitation_block now days token user org email role d = (Inr i, d') \<longleftrightarrow>
     \<not> is_member_email (o_id org) email d \<and> \<not> is_pending_email (o_id org) email d \<and>
     check_can_invite_member (o_id org) d = Inr () \<and> length email \<le> 254 \<and> length token \<le> 255 \<and>
     \<not> tbl_exists (\<lambda>x. i_token x = token) (db_invites d) \<and>
     i = new_invite now days token user org email role (tb_next (db_invites d)) \<and>
     d' = d\<lparr>db_invites := tbl_insert set_i_id (new_invite now days token user org email role 0)
       (db_invites d)\<rparr>"
  by (auto simp: invitation_block_def Let_def invitation_insert_def char_field_def guard_simps
      new_invite_def split: sum.splits if_splits)

lemma invitation_create_cases:
  obtains (refused) e where "invitation_create now days token raw body d caller = (Inl e, d)"
  | (created) u org m email role d' where "org_access d caller raw u org m"
      "m_role m \<in> MANAGER_ROLES" "can_assign_role (m_role m) role" "role \<in> set Role_choices"
      "str_lower email = email"
      "\<not> is_member_email (o_id org) email d" "\<not> is_pending_email (o_id org) email d"
      "check_can_invite_member (o_id org) d = Inr ()"
      "\<not> tbl_exists (\<lambda>x. i_token x = token) (db_invites d)"
      "d' = d\<lparr>db_invites := tbl_insert set_i_id (new_invite now days token u org email role 0)
         (db_invites d)\<rparr>"
      "invitation_create now days token raw body d caller =
         (Inr (invitation_repr (new_invite now days token u org email role (tb_next (db_invites d)))),
          enqueue (Send_Invitation_Email (tb_next (db_invites d))) d')"
      "length email \<le> 254" "length token \<le> 255"
proof (cases "org_get_object raw d caller")
  case (Inl e)
  then show ?thesis by (intro refused) (simp add: invitation_create_def)
next
  case (Inr x)
  then obtain u org arole where g: "org_get_object raw d caller = Inr (u, org, arole)" by (cases x) auto
  then obtain m where a: "org_access d caller raw u org m" "arole = Some (m_role m)"
    using org_get_object_access by blast
  let ?b = "bind_res body invite_payload"
  show ?thesis
  proof (cases "m_role m \<in> MANAGER_ROLES")
    case False
    with g a show ?thesis by (intro refused) (simp add: invitation_create_def)
  next
    case manager: True
    show ?thesis
    proof (cases ?b)
      case (Inl e)
      with g a manager show ?thesis by (intro refused) (simp add: invitation_create_def)
    next
      case (Inr p)
      then obtain email role where p: "?b = Inr (email, role)" by (cases p) auto
      then obtain pl where "invite_payload pl = Inr (email, role)" by (auto simp: guard_simps)
      then have low: "str_lower email = email" and role: "role \<in> set Role_choices"
        using invite_payload_Inr by blast+
      show ?thesis
      proof (cases "can_assign_role (m_role m) role")
        case False
        with g a manager p show ?thesis by (intro refused) (simp add: invitation_create_def)
      next
        case assign: True
        obtain res d1 where b: "atomic (invitation_block now days token u org email role) d = (res, d1)"
          by fastforce
        show ?thesis
        proof (cases res)
          case (Inl e)
          with b have "d1 = d" using atomic_rollback by blast
          with Inl b g a manager p assign show ?thesis
            by (intro refused) (simp add: invitation_create_def)
        next
          case (Inr i)
          with b have blk: "invitation_block now days token u org email role d = (Inr i, d1)"
            by (simp add: atomic_commit)
          have fin: "invitation_create now days token raw body d caller =
              (Inr (invitation_repr i), enqueue (Send_Invitation_Email (i_id i)) d1)"
            using b Inr g a manager p assign by (simp add: invitation_create_def)
          from blk have f: "\<not> is_member_email (o_id org) email d"
            "\<not> is_pending_email (o_id org) email d" "check_can_invite_member (o_id org) d = Inr ()"
            "\<not> tbl_exists (\<lambda>x. i_token x = token) (db_invites d)"
            "i = new_invite now days token u org email role (tb_next (db_invites d))"
            "d1 = d\<lparr>db_invites := tbl_insert set_i_id
               (new_invite now days token u org email role 0) (db_invites d)\<rparr>"
            "length email \<le> 254" "length token \<le> 255"
            unfolding invitation_block_Inr by blast+
          from f(5) have id: "i_id i = tb_next (db_invites d)" by (simp add: new_invite_def)
          show ?thesis
            by (rule created [OF a(1) manager assign role low f(1-4) refl])
              (simp_all only: fin f(5-8) id [unfolded f(5)])
        qed
      qed
    qed
  qed
qed


lemma find_token:
  assumes "tbl_unique i_token (db_invites d)" "i \<in> set (tb_rows (db_invites d))" "i_token i = token"
  shows "tbl_first (\<lambda>i. i_token i = token) (db_invites d) = Some i"
  using assms by (rule token_key.first_by_key)

lemma get_or_create_member_spec:
  "get_or_create_member now u k role d = (m, d') \<Longrightarrow>
   (find_membership u k d = Some m \<and> d' = d) \<or>
   (find_membership u k d = None \<and>
    m = \<lparr>m_id = tb_next (db_members d), m_user = u, m_org = k, m_role = role, m_created_at = now\<rparr> \<and>
    d' = d\<lparr>db_members := (db_members d)\<lparr>tb_rows := tb_rows (db_members d) @ [m],
      tb_next := tb_next (db_members d) + 1\<rparr>\<rparr>)"
  by (auto simp: get_or_create_member_def tbl_insert_def Let_def split: option.splits)

lemma accept_cases:
  assumes "tbl_unique i_token (db_invites d)"
  obtains (refused) e where "invitation_accept now body d caller = (Inl e, d)"
  | (expired) u token i where "caller = Some u" "body = Inr token"
      "i \<in> set (tb_rows (db_invites d))" "i_token i = token" "i_status i = PENDING"
      "is_expired now i"
      "invitation_accept now body d caller =
        (Inl (ValidationError None ''This invitation has expired.''), set_invite_status i EXPIRED d)"
  | (accepted) u token i m d' where "caller = Some u" "body = Inr token"
      "i \<in> set (tb_rows (db_invites d))" "i_token i = token" "i_status i = PENDING"
      "\<not> is_expired now i" "str_lower (u_email u) = str_lower (i_email i)"
      "get_or_create_member now (u_id u) (i_org i) (i_role i) d = (m, d')"
      "invitation_accept now body d caller =
        (Inr (membership_repr (set_invite_status i ACCEPTED d') m), set_invite_status i ACCEPTED d')"
proof (cases "bind_res (require_user d caller) (\<lambda>user. bind_res body (\<lambda>token. Inr (user, token)))")
  case (Inl e)
  then show ?thesis by (intro refused) (simp add: invitation_accept_def)
next
  case (Inr p)
  then obtain u token where ut: "caller = Some u" "body = Inr token" "p = (u, token)"
    by (cases caller; cases body) auto
  show ?thesis
  proof (cases "tbl_first (\<lambda>i. i_token i = token) (db_invites d)")
    case None
    with ut show ?thesis
      by (intro refused) (simp add: invitation_accept_def accept_block_def atomic_def)
  next
    case (Some i)
    then have i: "i \<in> set (tb_rows (db_invites d))" "i_token i = token"
      by (auto dest: tbl_first_Some)
    show ?thesis
    proof (cases "i_status i = PENDING")
      case False
      with ut Some show ?thesis
        by (intro refused) (simp add: invitation_accept_def accept_block_def atomic_def)
    next
      case pending: True
      show ?thesis
      proof (cases "is_expired now i")
        case True
        with ut Some pending show ?thesis
          by (intro expired [OF ut(1,2) i pending True])
            (simp add: invitation_accept_def accept_block_def atomic_def)
      next
        case live: False
        show ?thesis
        proof (cases "str_lower (u_email u) = str_lower (i_email i)")
          case False
          with ut Some pending live show ?thesis
            by (intro refused) (simp add: invitation_accept_def accept_block_def atomic_def)
        next
          case True
          obtain m d' where g: "get_or_create_member now (u_id u) (i_org i) (i_role i) d = (m, d')"
            by fastforce
          with ut Some pending live True show ?thesis
            by (intro accepted [OF ut(1,2) i pending live True g])
              (simp add: invitation_accept_def accept_block_def atomic_def)
        qed
      qed
    qed
  qed
qed

subsection \<open>Properties of creation\<close>

text \<open>Creating an invitation: a successful call was made by an Owner or Admin, for a role at or
  below their own, for an address that is neither a member's nor already invited, and below the
  seat cap. It adds exactly one pending row (lower-case address, given role, expiry after the
  configured days), queues exactly one mail, and keeps the invariant; every other call changes
  nothing and queues nothing.\<close>

theorem invitation_create_spec:
  assumes inv: "db_inv d"
    and step: "invitation_create now days token raw body d caller = (res, d')"
  shows "case res of
      Inl e \<Rightarrow> d' = d
    | Inr out \<Rightarrow> \<exists>u org m email role i. org_access d caller raw u org m \<and> is_admin_or_owner m \<and>
        Role_rank role \<le> Role_rank (m_role m) \<and> str_lower email = email \<and>
        \<not> is_member_email (o_id org) email d \<and> \<not> is_pending_email (o_id org) email d \<and>
        (\<forall>l. limit_of (o_id org) ''max_members'' d = Some l \<longrightarrow> int (seat_count (o_id org) d) < l) \<and>
        i = new_invite now days token u org email role (tb_next (db_invites d)) \<and>
        tb_rows (db_invites d') = tb_rows (db_invites d) @ [i] \<and> out = invitation_repr i \<and>
        db_queue d' = db_queue d @ [Send_Invitation_Email (i_id i)] \<and>
        db_members d' = db_members d \<and> db_inv d'"
proof (cases rule: invitation_create_cases [of now days token raw body d caller])
  case (refused e)
  with step show ?thesis by auto
next
  case (created u org m email role d1)
  let ?i = "new_invite now days token u org email role"
  have out: "res = Inr (invitation_repr (?i (tb_next (db_invites d))))"
    "d' = enqueue (Send_Invitation_Email (tb_next (db_invites d))) d1"
    using step created(11) by simp_all
  have "o_id org \<in> org_keys d"
    using created(1) by (auto simp: org_access_def org_keys_def)
  then have "db_inv d1"
    using inv_insert_invite [OF inv, of "?i 0"] created(9,10) by (simp add: new_invite_def)
  moreover have "int (seat_count (o_id org) d) < l"
    if "limit_of (o_id org) ''max_members'' d = Some l" for l
    using seat_cap.check_allows [of "o_id org" d] created(8) that by simp
  moreover have "is_admin_or_owner m" "Role_rank role \<le> Role_rank (m_role m)"
    using created(2,3) by (simp_all add: is_admin_or_owner_def can_assign_rank)
  moreover have "tb_rows (db_invites d1) = tb_rows (db_invites d) @ [?i (tb_next (db_invites d))]"
    "db_queue d1 = db_queue d" "db_members d1 = db_members d"
    unfolding created(10) by (simp_all add: new_invite_def)
  ultimately show ?thesis
    unfolding out using created(1,5,6,7)
    by (auto simp: new_invite_def intro!: exI [of _ u] exI [of _ org] exI [of _ m] exI [of _ email]
        exI [of _ role])
qed

theorem invitation_create_spec_witness:
  "fst (invitation_create 5 7 ''t9'' ''1'' (Inr ('' New@Corp.test'', None)) demo_db (Some adam)) =
     Inr (2, ''new@corp.test'', MEMBER, PENDING, Some 2, 5, 5 + 7 * day) \<and>
   db_inv (snd (invitation_create 5 7 ''t9'' ''1'' (Inr ('' New@Corp.test'', None)) demo_db (Some adam)))"
proof -
  have "fst (invitation_create 5 7 ''t9'' ''1'' (Inr ('' New@Corp.test'', None)) demo_db (Some adam)) =
     Inr (2, ''new@corp.test'', MEMBER, PENDING, Some 2, 5, 5 + 7 * day)"
    by code_simp
  moreover obtain res d' where step:
    "invitation_create 5 7 ''t9'' ''1'' (Inr ('' New@Corp.test'', None)) demo_db (Some adam) = (res, d')"
    by fastforce
  ultimately show ?thesis using invitation_create_spec [OF demo_inv step] by auto
qed

subsection \<open>Properties of acceptance\<close>

lemma set_invite_status_simps [simp]:
  "db_users (set_invite_status i s d) = db_users d" "db_orgs (set_invite_status i s d) = db_orgs d"
  "db_members (set_invite_status i s d) = db_members d"
  "db_plans (set_invite_status i s d) = db_plans d" "db_subs (set_invite_status i s d) = db_subs d"
  "db_events (set_invite_status i s d) = db_events d"
  "db_projects (set_invite_status i s d) = db_projects d"
  "db_queue (set_invite_status i s d) = db_queue d"
  by (simp_all add: set_invite_status_def)

lemma inv_set_invite_status: "db_inv d \<Longrightarrow> db_inv (set_invite_status i s d)"
  unfolding set_invite_status_def by (rule inv_update_invite) simp_all

lemma set_invite_status_rows:
  assumes "tbl_wf i_id (db_invites d)" "i \<in> set (tb_rows (db_invites d))"
  shows "set (tb_rows (db_invites (set_invite_status i s d))) =
    insert (i\<lparr>i_status := s\<rparr>) (set (tb_rows (db_invites d)) - {i})"
  using invite_t.update_row_Un [OF assms, of "\<lambda>x. x\<lparr>i_status := s\<rparr>"]
  by (simp add: set_invite_status_def)

lemma get_or_create_member_inv:
  assumes inv: "db_inv d" and k: "k \<in> org_keys d"
    and g: "get_or_create_member now u k role d = (m, d')"
  shows "db_inv d' \<and> m \<in> set (tb_rows (db_members d')) \<and> m_user m = u \<and> m_org m = k"
proof (cases "find_membership u k d")
  case (Some x)
  with g inv find_membership_Some [OF Some] show ?thesis by (simp add: get_or_create_member_def)
next
  case None
  then have "\<not> tbl_exists (\<lambda>x. m_user x = u \<and> m_org x = k) (db_members d)"
    by (simp add: find_membership_def tbl_first_None tbl_exists_iff)
  with None g inv_insert_member [OF inv,
      of "\<lparr>m_id = 0, m_user = u, m_org = k, m_role = role, m_created_at = now\<rparr>"] k
  show ?thesis by (auto simp: get_or_create_member_def Let_def member_pair_def)
qed

definition with_status :: "invitation \<Rightarrow> string \<Rightarrow> db \<Rightarrow> db" where
  \<comment> \<open>the database in which exactly this invitation has the status\<close>
  "with_status i st d = d\<lparr>db_invites := (db_invites d)\<lparr>tb_rows :=
     map (\<lambda>x. if x = i then i\<lparr>i_status := st\<rparr> else x) (tb_rows (db_invites d))\<rparr>\<rparr>"

lemma set_invite_status_row:
  assumes "tbl_wf i_id (db_invites d)" "i \<in> set (tb_rows (db_invites d))"
  shows "set_invite_status i st d = with_status i st d"
proof -
  have "i_id x = i_id i \<longleftrightarrow> x = i" if "x \<in> set (tb_rows (db_invites d))" for x
    using that assms(2) tbl_wfD_inj [OF assms(1)] by (auto dest: inj_onD)
  then show ?thesis
    by (simp add: set_invite_status_def with_status_def tbl_update_where_def cong: map_cong)
qed

lemma membership_found:
  assumes "db_inv d" "m \<in> set (tb_rows (db_members d))"
  shows "find_membership (m_user m) (m_org m) d = Some m"
  using pair_key.first_by_key [OF _ assms(2) refl] db_invD(4) [OF assms(1)]
  by (simp add: find_membership_def unique_ok_def member_pair_def)

lemma token_found:
  assumes "db_inv d" "i \<in> set (tb_rows (db_invites d))"
  shows "tbl_first (\<lambda>x. i_token x = i_token i) (db_invites d) = Some i" "tbl_wf i_id (db_invites d)"
  using assms db_invD(1,4) [OF assms(1)] by (simp_all add: find_token unique_ok_def keys_ok_def)

lemmas accept_defs = invitation_accept_def accept_block_def atomic_def is_expired_def INVALID_INVITATION_def

lemma accepted_by_member:
  assumes inv: "db_inv d" and i: "i \<in> set (tb_rows (db_invites d))"
    and live: "i_status i = PENDING" "now < i_expires_at i" "str_lower (u_email u) = str_lower (i_email i)"
    and m: "m \<in> set (tb_rows (db_members d))" "m_user m = u_id u" "m_org m = i_org i"
  shows "invitation_accept now (Inr (i_token i)) d (Some u) = (Inr (membership_repr d m), with_status i ACCEPTED d)"
proof -
  have "find_membership (u_id u) (i_org i) d = Some m" using membership_found [OF inv m(1)] m(2,3) by simp
  moreover have "membership_repr (with_status i ACCEPTED d) m = membership_repr d m"
    by (simp add: membership_repr_def with_status_def)
  ultimately show ?thesis
    using live by (simp add: accept_defs token_found [OF inv i] get_or_create_member_def
        set_invite_status_row [OF token_found(2) [OF inv i] i])
qed

lemma accepted_by_newcomer:
  assumes inv: "db_inv d" and i: "i \<in> set (tb_rows (db_invites d))"
    and live: "i_status i = PENDING" "now < i_expires_at i" "str_lower (u_email u) = str_lower (i_email i)"
    and none: "\<forall>m \<in> set (tb_rows (db_members d)). \<not> (m_user m = u_id u \<and> m_org m = i_org i)"
  defines "m \<equiv> \<lparr>m_id = tb_next (db_members d), m_user = u_id u, m_org = i_org i, m_role = i_role i,
      m_created_at = now\<rparr>"
  shows "invitation_accept now (Inr (i_token i)) d (Some u) = (Inr (membership_repr d m),
    with_status i ACCEPTED (d\<lparr>db_members :=
      \<lparr>tb_rows = tb_rows (db_members d) @ [m], tb_next = tb_next (db_members d) + 1\<rparr>\<rparr>))"
proof -
  let ?d = "d\<lparr>db_members := \<lparr>tb_rows = tb_rows (db_members d) @ [m], tb_next = tb_next (db_members d) + 1\<rparr>\<rparr>"
  have "find_membership (u_id u) (i_org i) d = None" using none by (auto simp: find_membership_def tbl_first_None)
  then have "get_or_create_member now (u_id u) (i_org i) (i_role i) d = (m, ?d)"
    by (simp add: get_or_create_member_def tbl_insert_def m_def)
  moreover have "set_invite_status i ACCEPTED ?d = with_status i ACCEPTED ?d"
    using set_invite_status_row [of ?d i ACCEPTED] token_found(2) [OF inv i] i by simp
  moreover have "membership_repr (with_status i ACCEPTED ?d) m = membership_repr d m"
    by (simp add: membership_repr_def with_status_def)
  ultimately show ?thesis using live by (simp add: accept_defs token_found [OF inv i])
qed

text \<open>C35. Accepting an invitation, on every branch, down to the rows: an unknown or used token and
  somebody else's address give the same 400 and write nothing; past its expiry the invitation is
  refused and its row, and nothing else, is stored as expired; otherwise its row is stored as
  accepted, and a caller who is no member yet gets one new membership row, in the inviting
  organization and with the invited role, while a caller who is one keeps the row and role he has.\<close>

theorem invitation_accept_spec:
  assumes inv: "db_inv d" and i: "i \<in> set (tb_rows (db_invites d))"
  defines "invalid \<equiv> ValidationError None ''This invitation is invalid or has already been used.''"
    and "accept \<equiv> \<lambda>now u. invitation_accept now (Inr (i_token i)) d (Some u)"
  shows "(i_status i \<noteq> PENDING \<longrightarrow> accept now u = (Inl invalid, d)) \<and>
    (i_status i = PENDING \<and> i_expires_at i \<le> now \<longrightarrow>
       accept now u = (Inl (ValidationError None ''This invitation has expired.''), with_status i EXPIRED d)) \<and>
    (i_status i = PENDING \<and> now < i_expires_at i \<and> str_lower (u_email u) \<noteq> str_lower (i_email i) \<longrightarrow>
       accept now u = (Inl invalid, d)) \<and>
    (i_status i = PENDING \<and> now < i_expires_at i \<and> str_lower (u_email u) = str_lower (i_email i) \<longrightarrow>
       (\<forall>m \<in> set (tb_rows (db_members d)). m_user m = u_id u \<and> m_org m = i_org i \<longrightarrow>
          accept now u = (Inr (membership_repr d m), with_status i ACCEPTED d)) \<and>
       ((\<forall>m \<in> set (tb_rows (db_members d)). \<not> (m_user m = u_id u \<and> m_org m = i_org i)) \<longrightarrow>
          (let k = tb_next (db_members d);
               m = \<lparr>m_id = k, m_user = u_id u, m_org = i_org i, m_role = i_role i, m_created_at = now\<rparr>
           in accept now u = (Inr (membership_repr d m),
                with_status i ACCEPTED (d\<lparr>db_members :=
                  \<lparr>tb_rows = tb_rows (db_members d) @ [m], tb_next = k + 1\<rparr>\<rparr>))))) \<and>
    (token \<notin> i_token ` set (tb_rows (db_invites d)) \<longrightarrow>
       invitation_accept now (Inr token) d (Some u) = (Inl invalid, d))"
proof -
  have unknown: "tbl_first (\<lambda>x. i_token x = token) (db_invites d) = None"
    if "token \<notin> i_token ` set (tb_rows (db_invites d))"
    using that by (auto simp: tbl_first_None)
  note defs = accept_defs invalid_def accept_def token_found [OF inv i]
  show ?thesis
  proof (intro conjI impI ballI)
    fix m assume "i_status i = PENDING \<and> now < i_expires_at i \<and> str_lower (u_email u) = str_lower (i_email i)"
      and "m \<in> set (tb_rows (db_members d))" "m_user m = u_id u \<and> m_org m = i_org i"
    then show "accept now u = (Inr (membership_repr d m), with_status i ACCEPTED d)"
      unfolding accept_def by (intro accepted_by_member [OF inv i]) auto
  next
    assume "i_status i = PENDING \<and> now < i_expires_at i \<and> str_lower (u_email u) = str_lower (i_email i)"
      and "\<forall>m \<in> set (tb_rows (db_members d)). \<not> (m_user m = u_id u \<and> m_org m = i_org i)"
    then show "let k = tb_next (db_members d);
         m = \<lparr>m_id = k, m_user = u_id u, m_org = i_org i, m_role = i_role i, m_created_at = now\<rparr>
       in accept now u = (Inr (membership_repr d m),
            with_status i ACCEPTED (d\<lparr>db_members :=
              \<lparr>tb_rows = tb_rows (db_members d) @ [m], tb_next = k + 1\<rparr>\<rparr>))"
      unfolding Let_def accept_def by (intro accepted_by_newcomer [OF inv i]) auto
  next
    assume "token \<notin> i_token ` set (tb_rows (db_invites d))"
    from unknown [OF this] show "invitation_accept now (Inr token) d (Some u) = (Inl invalid, d)"
      by (simp add: defs)
  next
    assume "i_status i = PENDING \<and> i_expires_at i \<le> now"
    then show "accept now u = (Inl (ValidationError None ''This invitation has expired.''), with_status i EXPIRED d)"
      by (simp add: defs set_invite_status_row [OF token_found(2) [OF inv i] i])
  qed (simp_all add: defs)
qed

theorem invitation_accept_spec_witness:
  "invitation_accept 100 (Inr ''tok1'') demo_db (Some nora) =
     (Inl (ValidationError None ''This invitation has expired.''), with_status rival_invite EXPIRED demo_db) \<and>
   db_members (snd (invitation_accept 50 (Inr ''tok1'') demo_db (Some nora))) =
     \<lparr>tb_rows = tb_rows (db_members demo_db) @
        [\<lparr>m_id = 5, m_user = 5, m_org = 2, m_role = ADMIN, m_created_at = 50\<rparr>], tb_next = 6\<rparr>"
proof -
  have i: "rival_invite \<in> set (tb_rows (db_invites demo_db))" by (simp add: demo_defs)
  have row: "i_token rival_invite = ''tok1''" "i_status rival_invite = PENDING" "i_expires_at rival_invite = 100"
    "i_email rival_invite = u_email nora" "i_org rival_invite = 2" "i_role rival_invite = ADMIN" "u_id nora = 5"
    by (simp_all add: rival_invite_def nora_def demo_user_def)
  have none: "\<forall>m \<in> set (tb_rows (db_members demo_db)). \<not> (m_user m = 5 \<and> m_org m = 2)"
    and fresh: "tb_next (db_members demo_db) = 5" by (simp_all add: demo_defs)
  have "invitation_accept 100 (Inr ''tok1'') demo_db (Some nora) =
     (Inl (ValidationError None ''This invitation has expired.''), with_status rival_invite EXPIRED demo_db)"
    using invitation_accept_spec [OF demo_inv i, of 100 nora] row by simp
  moreover have "snd (invitation_accept 50 (Inr ''tok1'') demo_db (Some nora)) =
      with_status rival_invite ACCEPTED (demo_db\<lparr>db_members := \<lparr>tb_rows = tb_rows (db_members demo_db) @
        [\<lparr>m_id = 5, m_user = 5, m_org = 2, m_role = ADMIN, m_created_at = 50\<rparr>], tb_next = 6\<rparr>\<rparr>)"
    using invitation_accept_spec [OF demo_inv i, of 50 nora] row none fresh by (simp add: Let_def)
  ultimately show ?thesis by (simp add: with_status_def)
qed



lemma count_status_change:
  assumes "tbl_wf i_id (db_invites d)" "i \<in> set (tb_rows (db_invites d))" "i_status i = PENDING"
    "s \<noteq> PENDING"
  shows "pending_count k (set_invite_status i s d) + (if i_org i = k then 1 else 0) = pending_count k d"
proof -
  have uniq: "x = i" if "x \<in> set (tb_rows (db_invites d))" "i_id x = i_id i" for x
    using that assms(2) tbl_wfD_inj [OF assms(1)] by (auto dest: inj_onD)
  let ?P = "\<lambda>x. i_org x = k \<and> i_status x = PENDING"
  let ?g = "\<lambda>x. if i_id x = i_id i then x\<lparr>i_status := s\<rparr> else x"
  have "length (filter ?P (map ?g rs)) + (if i \<in> set rs \<and> i_org i = k then 1 else 0) = length (filter ?P rs)"
    if "set rs \<subseteq> set (tb_rows (db_invites d))" "distinct (map i_id rs)" for rs
    using that
  proof (induction rs)
    case (Cons a rs)
    show ?case
    proof (cases "a = i")
      case True
      with Cons.prems have "i \<notin> set rs" by auto
      with Cons True assms(3,4) show ?thesis by auto
    next
      case False
      with Cons.prems uniq [of a] have "i_id a \<noteq> i_id i" by auto
      with Cons False show ?thesis by auto
    qed
  qed simp
  from this [of "tb_rows (db_invites d)"] assms(1,2) show ?thesis
    by (simp add: pending_count_def tbl_count_def set_invite_status_def tbl_wf_def)
qed

text \<open>C28. Seats: no invitation call takes an organization above its plan's seats. Members and pending
  invitations together stay at or below the larger of the cap and what they were; accepting turns
  a reserved seat into a member and never adds one.\<close>

theorem seats_respected:
  assumes inv: "db_inv d" and cap: "limit_of k ''max_members'' d = Some l"
    and step: "invitation_create now days token raw body d caller = (res, d') \<or>
      invitation_accept now body' d caller = (res', d')"
  shows "int (seat_count k d') \<le> max (int (seat_count k d)) l"
  using step
proof
  assume "invitation_create now days token raw body d caller = (res, d')"
  then show ?thesis
  proof (cases rule: invitation_create_cases [of now days token raw body d caller])
    case (created u org m email role d1)
    then have d': "d' = enqueue (Send_Invitation_Email (tb_next (db_invites d))) d1"
      using \<open>invitation_create now days token raw body d caller = (res, d')\<close> by simp
    have count: "seat_count j d1 = seat_count j d + (if j = o_id org then 1 else 0)" for j
      unfolding created(10)
      by (simp add: seat_count_def member_count_def pending_count_def new_invite_def)
    have same: "seat_count k d' = seat_count k d1"
      by (simp add: d' seat_count_def member_count_def pending_count_def)
    show ?thesis
    proof (cases "k = o_id org")
      case True
      have "int (seat_count k d) < l"
        using seat_cap.check_allows [of "o_id org" d] created(8) cap True by simp
      then show ?thesis using count [of k] same True by simp
    qed (use count [of k] same in simp)
  qed simp
next
  have uniq: "tbl_unique i_token (db_invites d)" using db_invD(4) [OF inv] by (simp add: unique_ok_def)
  have wf: "tbl_wf i_id (db_invites d)" using db_invD(1) [OF inv] by (simp add: keys_ok_def)
  assume step: "invitation_accept now body' d caller = (res', d')"
  from uniq show ?thesis
  proof (cases rule: accept_cases [of d now body' caller])
    case (refused e)
    with step show ?thesis by simp
  next
    case (expired u token' i)
    with step have "d' = set_invite_status i EXPIRED d" by simp
    then show ?thesis using count_status_change [OF wf expired(3,5), of EXPIRED k]
      by (simp add: seat_count_def member_count_def)
  next
    case (accepted u token' i m d1)
    with step have d': "d' = set_invite_status i ACCEPTED d1" by simp
    from get_or_create_member_spec [OF accepted(8)]
    have inv1: "db_invites d1 = db_invites d"
      and members: "member_count k d1 \<le> member_count k d + (if i_org i = k then 1 else 0)"
      by (auto simp: member_count_def tbl_count_def)
    have "pending_count k d' + (if i_org i = k then 1 else 0) = pending_count k d"
      using count_status_change [of d1 i ACCEPTED k] wf accepted(3,5) inv1
      by (simp add: d' pending_count_def)
    moreover have "member_count k d' = member_count k d1" by (simp add: d' member_count_def)
    ultimately show ?thesis using members by (simp add: seat_count_def)
  qed
qed

theorem seats_respected_witness:
  "int (seat_count 2 (snd (invitation_accept 50 (Inr ''tok1'') demo_db (Some nora)))) \<le> 3"
proof -
  obtain res d' where step: "invitation_accept 50 (Inr ''tok1'') demo_db (Some nora) = (res, d')"
    by fastforce
  have cap: "limit_of 2 ''max_members'' demo_db = Some 3" "seat_count 2 demo_db = 2" by code_simp+
  from seats_respected [OF demo_inv cap(1) disjI2 [OF step]] step cap(2) show ?thesis by simp
qed


subsection \<open>Deduplication\<close>

definition pending_unique :: "db \<Rightarrow> bool" where
  \<comment> \<open>no address has two pending invitations of one organization\<close>
  "pending_unique d \<longleftrightarrow>
     (\<forall>i \<in> set (tb_rows (db_invites d)). \<forall>j \<in> set (tb_rows (db_invites d)).
        i_status i = PENDING \<and> i_status j = PENDING \<and> i_org i = i_org j \<and>
        iexact (i_email i) (i_email j) \<longrightarrow> i = j)"

lemma pending_unique_closing:
  \<comment> \<open>closing an invitation opens no duplicate\<close>
  assumes "pending_unique d" "tbl_wf i_id (db_invites d)" "i \<in> set (tb_rows (db_invites d))"
    "s \<noteq> PENDING"
  shows "pending_unique (set_invite_status i s d)"
  using assms(1,4) unfolding pending_unique_def set_invite_status_rows [OF assms(2,3)]
  by (simp add: ball_Un)

text \<open>Deduplication: however invitations are created and accepted, no organization has two pending
  invitations for one address (compared without case).\<close>

theorem pending_invitations_unique:
  assumes inv: "db_inv d" and uniq: "pending_unique d"
    and step: "invitation_create now days token raw body d caller = (res, d') \<or>
      invitation_accept now body' d caller = (res', d')"
  shows "pending_unique d'"
  using step
proof
  assume "invitation_create now days token raw body d caller = (res, d')"
  then show ?thesis
  proof (cases rule: invitation_create_cases [of now days token raw body d caller])
    case (created u org m email role d1)
    let ?i = "new_invite now days token u org email role (tb_next (db_invites d))"
    have rows: "set (tb_rows (db_invites d')) = insert ?i (set (tb_rows (db_invites d)))"
      using created(10,11) \<open>invitation_create now days token raw body d caller = (res, d')\<close>
      by (auto simp: new_invite_def)
    have "i_org ?i = o_id org" "i_email ?i = email" by (simp_all add: new_invite_def)
    moreover have "\<not> (i_org i = o_id org \<and> iexact (i_email i) email \<and> i_status i = PENDING)"
      if "i \<in> set (tb_rows (db_invites d))" for i
      using created(7) that by (auto simp: is_pending_email_def tbl_exists_iff)
    ultimately show ?thesis
      using uniq unfolding pending_unique_def rows iexact_def by (metis insert_iff)
  qed (use uniq in simp)
next
  have wf: "tbl_wf i_id (db_invites d)" using db_invD(1) [OF inv] by (simp add: keys_ok_def)
  have tok: "tbl_unique i_token (db_invites d)" using db_invD(4) [OF inv] by (simp add: unique_ok_def)
  assume step: "invitation_accept now body' d caller = (res', d')"
  from tok show ?thesis
  proof (cases rule: accept_cases [of d now body' caller])
    case (refused e)
    with step uniq show ?thesis by simp
  next
    case (expired u token' i)
    with step pending_unique_closing [OF uniq wf expired(3), of EXPIRED] show ?thesis by simp
  next
    case (accepted u token' i m d1)
    have same: "db_invites d1 = db_invites d" using get_or_create_member_spec [OF accepted(8)] by auto
    with uniq have "pending_unique d1" by (simp add: pending_unique_def)
    then have "pending_unique (set_invite_status i ACCEPTED d1)"
      using pending_unique_closing [of d1 i ACCEPTED] wf accepted(3) same by simp
    with step accepted(9) show ?thesis by simp
  qed
qed

theorem pending_invitations_unique_witness:
  "pending_unique
     (snd (invitation_create 5 7 ''t9'' ''1'' (Inr (''New@Corp.test'', None)) demo_db (Some adam))) \<and>
   pending_count 1
     (snd (invitation_create 5 7 ''t9'' ''1'' (Inr (''New@Corp.test'', None)) demo_db (Some adam))) = 1"
proof -
  have start: "pending_unique demo_db" by (simp add: pending_unique_def demo_defs)
  obtain res d' where step:
    "invitation_create 5 7 ''t9'' ''1'' (Inr (''New@Corp.test'', None)) demo_db (Some adam) = (res, d')"
    by fastforce
  have "pending_count 1
     (snd (invitation_create 5 7 ''t9'' ''1'' (Inr (''New@Corp.test'', None)) demo_db (Some adam))) = 1"
    by code_simp
  then show ?thesis
    using pending_invitations_unique [OF demo_inv start disjI1 [OF step]] step by simp
qed

subsection \<open>Expired invitations that were never opened\<close>

definition stale_invite :: "time \<Rightarrow> invitation \<Rightarrow> db \<Rightarrow> bool" where
  \<comment> \<open>past its expiry and still pending: nothing but an accept with its token marks it expired\<close>
  "stale_invite now i d \<longleftrightarrow>
     i \<in> set (tb_rows (db_invites d)) \<and> i_status i = PENDING \<and> is_expired now i"

text \<open>An invitation that ran out is not treated as gone: while its row is still pending it takes a
  seat of the plan, and a manager who may invite cannot send a new invitation to the address. The
  call is refused as a duplicate (or because the address is a member) and changes nothing.\<close>

theorem stale_invitation_blocks:
  assumes stale: "stale_invite now i d"
    and caller: "org_get_object raw d caller = Inr (u, org, Some a)" "a \<in> MANAGER_ROLES"
    and org: "i_org i = o_id org"
    and body: "bind_res body invite_payload = Inr (email, role)" "iexact (i_email i) email"
    and assign: "can_assign_role a role"
  shows "pending_count (o_id org) d > 0 \<and>
    invitation_create now days token raw body d caller =
      (Inl (ValidationError None (if is_member_email (o_id org) email d
         then ''That user is already a member of this organization.''
         else ''An invitation is already pending for that email.'')), d)"
proof -
  have pending: "is_pending_email (o_id org) email d"
    using stale org body(2) by (auto simp: is_pending_email_def stale_invite_def tbl_exists_iff)
  have "pending_count (o_id org) d > 0"
    using stale org by (auto simp: pending_count_def tbl_count_pos stale_invite_def)
  with pending caller body(1) assign show ?thesis
    by (auto simp: invitation_create_def invitation_block_def Let_def atomic_def)
qed

theorem stale_invitation_blocks_witness:
  "invitation_create 500 7 ''t9'' ''2'' (Inr (''Nora@new.test'', None)) demo_db (Some rita) =
     (Inl (ValidationError None ''An invitation is already pending for that email.''), demo_db)"
proof -
  have "stale_invite 500 rival_invite demo_db"
    "org_get_object ''2'' demo_db (Some rita) = Inr (rita, rival, Some OWNER)"
    "bind_res (Inr (''Nora@new.test'', None)) invite_payload = Inr (''nora@new.test'', MEMBER)"
    "iexact (i_email rival_invite) ''nora@new.test''" "OWNER \<in> MANAGER_ROLES"
    "can_assign_role OWNER MEMBER" "i_org rival_invite = o_id rival"
    "\<not> is_member_email (o_id rival) ''nora@new.test'' demo_db"
    unfolding stale_invite_def by code_simp+
  then show ?thesis
    using stale_invitation_blocks [of 500 rival_invite demo_db "''2''" "Some rita" rita rival OWNER]
    by auto
qed

end
