(* ===== verification/Tokens.thy ===== *)
theory Tokens
  imports Users Invitations "HOL-Library.Countable"
begin

section \<open>Signed tokens, sessions and account mails (accounts/tokens.py, sessions.py, emails.py, tasks.py)\<close>

text \<open>
  Email-verification and password-reset tokens over Django's signing, the revocation of refresh
  tokens and the two mails. \<open>dumps\<close>, \<open>loads\<close>, SHA-256 and \<open>isoformat\<close> are the record \<open>crypto\<close>, an
  argument; \<open>signing_ok\<close> is what the code relies on of the first two: a token opens under its own
  salt within its age and under no other salt. Times are microseconds, ages seconds.
\<close>

definition second :: time where
  "second = 1000000"

record crypto =
  cr_dumps :: "json \<Rightarrow> string \<Rightarrow> time \<Rightarrow> string" \<comment> \<open>payload, salt, when\<close>
  cr_loads :: "string \<Rightarrow> string \<Rightarrow> int \<Rightarrow> time \<Rightarrow> json option" \<comment> \<open>token, salt, max age, now; \<open>None\<close>: bad signature\<close>
  cr_sha256_hex :: "string \<Rightarrow> string"
  cr_isoformat :: "time \<Rightarrow> string"

definition signing_ok :: "crypto \<Rightarrow> bool" where
  "signing_ok c \<longleftrightarrow>
     (\<forall>p salt t salt' age now. cr_loads c (cr_dumps c p salt t) salt' age now =
        (if salt' = salt \<and> now - t \<le> age * second then Some p else None))"

definition EMAIL_VERIFY_SALT :: string where
  "EMAIL_VERIFY_SALT = ''bastiq.accounts.email-verify''"

definition PASSWORD_RESET_SALT :: string where
  "PASSWORD_RESET_SALT = ''bastiq.accounts.password-reset''"

subsection \<open>Email verification\<close>

definition generate_email_verification_token :: "crypto \<Rightarrow> time \<Rightarrow> user \<Rightarrow> string" where
  "generate_email_verification_token c now user =
     cr_dumps c (JObj [(''uid'', JInt (u_id user))]) EMAIL_VERIFY_SALT now"

definition read_email_verification_token :: "crypto \<Rightarrow> int \<Rightarrow> time \<Rightarrow> string \<Rightarrow> exn + json" where
  \<comment> \<open>the timeout is \<open>settings.EMAIL_VERIFICATION_TIMEOUT\<close>\<close>
  "read_email_verification_token c timeout now token =
     (case cr_loads c token EMAIL_VERIFY_SALT timeout now of
        None \<Rightarrow> Inl (TokenError ''Invalid or expired verification token.'')
      | Some data \<Rightarrow>
          bind_res (py_get data ''uid'') (\<lambda>uid.
            if uid = JNull then Inl (TokenError ''Malformed verification token.'') else Inr uid))"

subsection \<open>Password reset\<close>

definition fingerprint_payload :: "crypto \<Rightarrow> user \<Rightarrow> string" where
  "fingerprint_payload c user =
     (let last_login = (case u_last_login user of None \<Rightarrow> [] | Some t \<Rightarrow> cr_isoformat c t)
      in show_int (u_id user) @ '':'' @ u_password user @ '':'' @ last_login)"

definition password_reset_fingerprint :: "crypto \<Rightarrow> user \<Rightarrow> string" where
  "password_reset_fingerprint c user = take 20 (cr_sha256_hex c (fingerprint_payload c user))"

definition generate_password_reset_token :: "crypto \<Rightarrow> time \<Rightarrow> user \<Rightarrow> string" where
  "generate_password_reset_token c now user =
     cr_dumps c (JObj [(''uid'', JInt (u_id user)), (''fp'', JStr (password_reset_fingerprint c user))])
       PASSWORD_RESET_SALT now"

definition compare_digest :: "string \<Rightarrow> json \<Rightarrow> exn + bool" where
  \<comment> \<open>\<open>hmac.compare_digest\<close> takes two ASCII strings (its operands' timing is not modelled)\<close>
  "compare_digest a v =
     (case v of
        JStr b \<Rightarrow> (if list_all (\<lambda>ch. code_point ch < 128) b then Inr (a = b) else Inl PyTypeError)
      | _ \<Rightarrow> Inl PyTypeError)"

definition data_get :: "json \<Rightarrow> string \<Rightarrow> json \<Rightarrow> exn + json" where
  \<comment> \<open>\<open>data.get(k, default)\<close>\<close>
  "data_get data k dflt =
     (case data of
        JObj kvs \<Rightarrow> Inr (case map_of kvs k of None \<Rightarrow> dflt | Some v \<Rightarrow> v)
      | _ \<Rightarrow> Inl PyAttributeError)"

definition read_password_reset_token :: "crypto \<Rightarrow> int \<Rightarrow> time \<Rightarrow> string \<Rightarrow> db \<Rightarrow> exn + user" where
  "read_password_reset_token c timeout now token d =
     (case cr_loads c token PASSWORD_RESET_SALT timeout now of
        None \<Rightarrow> Inl (TokenError ''Invalid or expired reset token.'')
      | Some data \<Rightarrow>
          bind_res (data_get data ''uid'' JNull) (\<lambda>uid.
          bind_res (data_get data ''fp'' (JStr [])) (\<lambda>fp.
            if uid = JNull then Inl (TokenError ''Malformed reset token.'')
            else bind_res (col_int uid) (\<lambda>k.
              case tbl_get u_id k (db_users d) of
                None \<Rightarrow> Inl (TokenError ''Invalid reset token.'')
              | Some user \<Rightarrow>
                  bind_res (compare_digest (password_reset_fingerprint c user) fp) (\<lambda>same.
                    if \<not> same
                    then Inl (TokenError ''This reset token has already been used or has expired.'')
                    else Inr user)))))"

subsection \<open>Sessions\<close>

definition revoke_step :: "outstanding_token \<Rightarrow> nat \<times> key list \<Rightarrow> nat \<times> key list" where
  \<comment> \<open>\<open>BlacklistedToken.objects.get_or_create(token=outstanding)\<close>\<close>
  "revoke_step t acc =
     (if ot_id t \<in> set (snd acc) then acc else (fst acc + 1, snd acc @ [ot_id t]))"

definition revoke_all_refresh_tokens :: "key \<Rightarrow> db \<Rightarrow> nat \<times> db" where
  "revoke_all_refresh_tokens user d =
     (let (revoked, blacklist) = fold revoke_step
        (tbl_filter (\<lambda>t. ot_user t = Some user) (db_tokens d)) (0, db_blacklist d)
      in (revoked, d\<lparr>db_blacklist := blacklist\<rparr>))"

subsection \<open>Mails\<close>

definition account_link :: "(string \<times> string \<Rightarrow> string) \<Rightarrow> string \<Rightarrow> string \<Rightarrow> string \<Rightarrow> string" where
  \<comment> \<open>\<open>_link\<close>\<close>
  "account_link urlencode frontend_url path token =
     frontend_url @ path @ ''?'' @ urlencode (''token'', token)"

definition send_verification_email ::
  "crypto \<Rightarrow> (string \<times> string \<Rightarrow> string) \<Rightarrow> string \<Rightarrow> int \<Rightarrow> time \<Rightarrow> user \<Rightarrow> mail" where
  "send_verification_email c urlencode frontend_url timeout now user =
     (let token = generate_email_verification_token c now user;
          link = account_link urlencode frontend_url ''/verify-email'' token;
          hours = timeout div 3600
      in (u_email user, ''Verify your Bastiq email address'',
          ''Hi '' @ full_name user @ '','' @ nl @ nl @
          ''Confirm your email address by opening this link:'' @ nl @ link @ nl @ nl @
          ''Or POST this token to /api/auth/verify-email:'' @ nl @ token @ nl @ nl @
          ''This link expires in '' @ show_int hours @
          '' hours. If you didn't sign up, ignore this email.'' @ nl))"

definition send_password_reset_email ::
  "crypto \<Rightarrow> (string \<times> string \<Rightarrow> string) \<Rightarrow> string \<Rightarrow> int \<Rightarrow> time \<Rightarrow> user \<Rightarrow> mail" where
  "send_password_reset_email c urlencode frontend_url timeout now user =
     (let token = generate_password_reset_token c now user;
          link = account_link urlencode frontend_url ''/reset-password'' token;
          minutes = timeout div 60
      in (u_email user, ''Reset your Bastiq password'',
          ''Hi '' @ full_name user @ '','' @ nl @ nl @
          ''Reset your password by opening this link:'' @ nl @ link @ nl @ nl @
          ''Or POST this token with a new password to /api/auth/password-reset/confirm:'' @ nl @
          token @ nl @ nl @
          ''This link expires in '' @ show_int minutes @
          '' minutes. If you didn't request this, ignore this email.'' @ nl))"

definition send_verification_email_task ::
  "crypto \<Rightarrow> (string \<times> string \<Rightarrow> string) \<Rightarrow> string \<Rightarrow> int \<Rightarrow> time \<Rightarrow> key \<Rightarrow> db \<Rightarrow> mail list" where
  "send_verification_email_task c urlencode frontend_url timeout now user_id d =
     (case tbl_first (\<lambda>u. u_id u = user_id) (db_users d) of
        None \<Rightarrow> []
      | Some user \<Rightarrow> [send_verification_email c urlencode frontend_url timeout now user])"

definition send_password_reset_email_task ::
  "crypto \<Rightarrow> (string \<times> string \<Rightarrow> string) \<Rightarrow> string \<Rightarrow> int \<Rightarrow> time \<Rightarrow> key \<Rightarrow> db \<Rightarrow> mail list" where
  "send_password_reset_email_task c urlencode frontend_url timeout now user_id d =
     (case tbl_first (\<lambda>u. u_id u = user_id) (db_users d) of
        None \<Rightarrow> []
      | Some user \<Rightarrow> [send_password_reset_email c urlencode frontend_url timeout now user])"

subsection \<open>Reading back what was generated\<close>

lemma salts_differ [simp]:
  "EMAIL_VERIFY_SALT \<noteq> PASSWORD_RESET_SALT" "PASSWORD_RESET_SALT \<noteq> EMAIL_VERIFY_SALT"
  by (simp_all add: EMAIL_VERIFY_SALT_def PASSWORD_RESET_SALT_def)

lemma signing_loads:
  "signing_ok c \<Longrightarrow> cr_loads c (cr_dumps c p salt t) salt' age now =
     (if salt' = salt \<and> now - t \<le> age * second then Some p else None)"
  unfolding signing_ok_def by blast

lemma read_verification_generated:
  assumes "signing_ok c"
  shows "read_email_verification_token c timeout now (generate_email_verification_token c t u) =
    (if now - t \<le> timeout * second then Inr (JInt (u_id u))
     else Inl (TokenError ''Invalid or expired verification token.''))"
  using assms by (simp add: read_email_verification_token_def generate_email_verification_token_def
      signing_loads py_get_def obj_get_def)

definition ascii_hex :: "crypto \<Rightarrow> bool" where
  \<comment> \<open>\<open>hexdigest\<close> is ASCII\<close>
  "ascii_hex c \<longleftrightarrow> (\<forall>s. list_all (\<lambda>ch. code_point ch < 128) (cr_sha256_hex c s))"

lemma compare_fingerprint:
  assumes "ascii_hex c"
  shows "compare_digest a (JStr (password_reset_fingerprint c u)) = Inr (a = password_reset_fingerprint c u)"
proof -
  have "list_all (\<lambda>ch. code_point ch < 128) (password_reset_fingerprint c u)"
    using assms by (auto simp: ascii_hex_def password_reset_fingerprint_def list_all_iff dest: in_set_takeD)
  then show ?thesis by (simp add: compare_digest_def)
qed

lemma read_reset_generated:
  assumes "signing_ok c" "ascii_hex c"
  shows "read_password_reset_token c timeout now (generate_password_reset_token c t u) d =
    (if timeout * second < now - t then Inl (TokenError ''Invalid or expired reset token.'')
     else case tbl_get u_id (u_id u) (db_users d) of
       None \<Rightarrow> Inl (TokenError ''Invalid reset token.'')
     | Some v \<Rightarrow>
         if password_reset_fingerprint c v = password_reset_fingerprint c u then Inr v
         else Inl (TokenError ''This reset token has already been used or has expired.''))"
  using assms by (auto simp: read_password_reset_token_def generate_password_reset_token_def
      signing_loads data_get_def col_int_def compare_fingerprint not_le split: option.splits)

subsection \<open>What the fingerprint pins down\<close>

definition no_second_preimage :: "crypto \<Rightarrow> string \<Rightarrow> string set \<Rightarrow> bool" where
  \<comment> \<open>what the code relies on of SHA-256: no other string of \<open>S\<close> has the first 20 digits of \<open>s\<close>'s digest\<close>
  "no_second_preimage c s S \<longleftrightarrow>
     (\<forall>s' \<in> S. take 20 (cr_sha256_hex c s') = take 20 (cr_sha256_hex c s) \<longrightarrow> s' = s)"

lemma fingerprint_payload_eq:
  assumes "no_second_preimage c (fingerprint_payload c u) S" "fingerprint_payload c v \<in> S"
  shows "password_reset_fingerprint c v = password_reset_fingerprint c u \<longleftrightarrow>
    fingerprint_payload c v = fingerprint_payload c u"
  using assms by (auto simp: no_second_preimage_def password_reset_fingerprint_def)

lemma payload_password:
  "fingerprint_payload c (u\<lparr>u_password := h\<rparr>) = fingerprint_payload c u \<longleftrightarrow> h = u_password u"
  by (simp add: fingerprint_payload_def Let_def)

lemma split_first:
  "x \<notin> set xs \<Longrightarrow> x \<notin> set ys \<Longrightarrow> xs @ x # as = ys @ x # bs \<longleftrightarrow> xs = ys \<and> as = bs"
proof (induction xs arbitrary: ys)
  case Nil
  then show ?case by (cases ys) auto
next
  case (Cons y xs)
  then show ?case by (cases ys) auto
qed

lemma payload_inj:
  \<comment> \<open>the fields cannot run into each other: no colon in a hash, every login time has its own text\<close>
  assumes "u_id v = u_id u" "CHR '':'' \<notin> set (u_password u)" "CHR '':'' \<notin> set (u_password v)"
    and iso: "inj (cr_isoformat c)" "\<And>t. cr_isoformat c t \<noteq> []"
  shows "fingerprint_payload c v = fingerprint_payload c u \<longleftrightarrow>
    u_password v = u_password u \<and> u_last_login v = u_last_login u"
proof -
  have "x = y" if "(case x of None \<Rightarrow> [] | Some t \<Rightarrow> cr_isoformat c t) =
      (case y of None \<Rightarrow> [] | Some t \<Rightarrow> cr_isoformat c t)" for x y
    using that iso by (auto simp: inj_eq split: option.splits) (metis iso(2))+
  with assms(1-3) show ?thesis
    by (auto simp: fingerprint_payload_def Let_def split_first)
qed

text \<open>C23. A reset token opens for the account as it was: within its age and while password and last login
  are those it was made for, it gives the account of the database; a new password or a login in
  between closes it, whatever else of the account changed.\<close>

theorem reset_token_opens_iff:
  assumes sg: "signing_ok c" "ascii_hex c" and row: "tbl_get u_id (u_id u) (db_users d) = Some v"
    and hash: "no_second_preimage c (fingerprint_payload c u) {fingerprint_payload c v}"
    and fields: "CHR '':'' \<notin> set (u_password u)" "CHR '':'' \<notin> set (u_password v)"
      "inj (cr_isoformat c)" "\<And>t. cr_isoformat c t \<noteq> []"
  shows "read_password_reset_token c timeout now (generate_password_reset_token c t u) d =
    (if timeout * second < now - t then Inl (TokenError ''Invalid or expired reset token.'')
     else if u_password v = u_password u \<and> u_last_login v = u_last_login u then Inr v
     else Inl (TokenError ''This reset token has already been used or has expired.''))"
proof -
  have "u_id v = u_id u" using row by (auto dest: tbl_get_Some)
  from payload_inj [OF this fields] fingerprint_payload_eq [OF hash] row show ?thesis
    by (simp add: read_reset_generated [OF sg])
qed

text \<open>Tokens are bound to their purpose and their age: a verification token is never a reset token
  nor the other way round, and each opens for exactly its timeout, giving back the user it was
  made for.\<close>

theorem token_purpose_and_age:
  assumes "signing_ok c" "ascii_hex c"
  shows "read_password_reset_token c timeout now (generate_email_verification_token c t u) d =
      Inl (TokenError ''Invalid or expired reset token.'') \<and>
    read_email_verification_token c timeout now (generate_password_reset_token c t u) =
      Inl (TokenError ''Invalid or expired verification token.'') \<and>
    (read_email_verification_token c timeout now (generate_email_verification_token c t u) =
      Inr (JInt (u_id u)) \<longleftrightarrow> now - t \<le> timeout * second) \<and>
    (tbl_get u_id (u_id u) (db_users d) = Some u \<longrightarrow>
      (read_password_reset_token c timeout now (generate_password_reset_token c t u) d = Inr u \<longleftrightarrow>
       now - t \<le> timeout * second))"
  using assms
  by (simp add: read_verification_generated read_reset_generated not_less)
     (simp add: read_password_reset_token_def read_email_verification_token_def
      generate_email_verification_token_def generate_password_reset_token_def signing_loads)

text \<open>A signing the witnesses use: a token is the number of its payload, salt and time in unary.\<close>

instance json :: countable
  by countable_datatype

definition demo_crypto :: crypto where
  "demo_crypto = \<lparr>cr_dumps = (\<lambda>p salt t. replicate (to_nat (p, salt, t)) (CHR ''x'')),
     cr_loads = (\<lambda>token salt age now. case from_nat (length token) of
       (p, salt', t) \<Rightarrow> if salt = salt' \<and> now - t \<le> age * second then Some p else None),
     cr_sha256_hex = filter (\<lambda>ch. code_point ch < 128), cr_isoformat = show_int\<rparr>"

lemma demo_signing_ok: "signing_ok demo_crypto"
  by (simp add: signing_ok_def demo_crypto_def)

lemma demo_ascii_hex: "ascii_hex demo_crypto"
  by (simp add: ascii_hex_def demo_crypto_def list_all_iff)

lemma demo_users_found [simp]:
  "tbl_get u_id 1 (db_users demo_db) = Some olivia" "tbl_get u_id 3 (db_users demo_db) = Some mia"
  "u_id olivia = 1" "u_id mia = 3" "u_id adam = 2" "u_id nora = 5"
  by (simp_all add: tbl_get_def demo_defs)

theorem token_purpose_and_age_witness:
  "read_password_reset_token demo_crypto 3600 9 (generate_password_reset_token demo_crypto 0 olivia) demo_db =
     Inr olivia \<and>
   read_email_verification_token demo_crypto 3600 9 (generate_password_reset_token demo_crypto 0 olivia) =
     Inl (TokenError ''Invalid or expired verification token.'')"
  using token_purpose_and_age [OF demo_signing_ok demo_ascii_hex, of 3600 9 0 olivia demo_db]
  by (simp add: second_def)

theorem reset_token_opens_iff_witness:
  "let c = demo_crypto\<lparr>cr_isoformat := (\<lambda>t. replicate (Suc (to_nat t)) (CHR ''x''))\<rparr>;
       login = (\<lambda>u. u\<lparr>u_last_login := Some 7\<rparr>);
       d = demo_db\<lparr>db_users := tbl_update_where (\<lambda>u. u_id u = 1) login (db_users demo_db)\<rparr>
   in read_password_reset_token c 3600 9 (generate_password_reset_token c 0 olivia) d =
     Inl (TokenError ''This reset token has already been used or has expired.'')"
proof -
  let ?c = "demo_crypto\<lparr>cr_isoformat := (\<lambda>t. replicate (Suc (to_nat t)) (CHR ''x''))\<rparr>"
  let ?v = "olivia\<lparr>u_last_login := Some 7\<rparr>"
  let ?d = "demo_db\<lparr>db_users := tbl_update_where (\<lambda>u. u_id u = 1) (\<lambda>u. u\<lparr>u_last_login := Some 7\<rparr>)
    (db_users demo_db)\<rparr>"
  have sg: "signing_ok ?c" "ascii_hex ?c"
    using demo_signing_ok demo_ascii_hex by (simp_all add: signing_ok_def ascii_hex_def)
  have row: "tbl_get u_id (u_id olivia) (db_users ?d) = Some ?v"
    using demo_users_found(1) by (simp add: user_t.get_update)
  have hash: "no_second_preimage ?c (fingerprint_payload ?c olivia) {fingerprint_payload ?c ?v}"
    by (simp add: no_second_preimage_def fingerprint_payload_def demo_crypto_def olivia_def demo_user_def
        show_int_def show_nat.simps code_point_def)
  have iso: "inj (cr_isoformat ?c)" "cr_isoformat ?c t \<noteq> []" for t
    by (auto simp: inj_def)
  have colon: "CHR '':'' \<notin> set (u_password olivia)" "CHR '':'' \<notin> set (u_password ?v)"
    by (simp_all add: olivia_def demo_user_def)
  show ?thesis
    using reset_token_opens_iff [OF sg row hash colon iso, of 3600 9 0]
    by (simp add: Let_def second_def olivia_def demo_user_def)
qed

subsection \<open>Revocation\<close>

lemma revoke_fold:
  "fold revoke_step ts (n, bl) = (n', bl') \<Longrightarrow>
   set bl' = set bl \<union> ot_id ` set ts \<and> length bl' + n = length bl + n'"
proof (induction ts arbitrary: n bl)
  case (Cons t ts)
  show ?case
  proof (cases "ot_id t \<in> set bl")
    case True
    with Cons.prems have "fold revoke_step ts (n, bl) = (n', bl')"
      by (simp add: revoke_step_def [of t])
    from Cons.IH [OF this] True show ?thesis by auto
  next
    case False
    with Cons.prems have "fold revoke_step ts (n + 1, bl @ [ot_id t]) = (n', bl')"
      by (simp add: revoke_step_def [of t])
    from Cons.IH [OF this] show ?thesis by auto
  qed
qed simp

lemma revoke_all_spec:
  assumes "revoke_all_refresh_tokens k d = (n, d')"
  shows "set (db_blacklist d') = set (db_blacklist d) \<union>
      {ot_id t | t. t \<in> set (tb_rows (db_tokens d)) \<and> ot_user t = Some k}"
    "d' = d\<lparr>db_blacklist := db_blacklist d'\<rparr>"
    "length (db_blacklist d') = length (db_blacklist d) + n"
proof -
  obtain m bl where f: "fold revoke_step (tbl_filter (\<lambda>t. ot_user t = Some k) (db_tokens d))
      (0, db_blacklist d) = (m, bl)" by fastforce
  with assms have d: "n = m" "d' = d\<lparr>db_blacklist := bl\<rparr>"
    by (simp_all add: revoke_all_refresh_tokens_def)
  from revoke_fold [OF f] d show
    "set (db_blacklist d') = set (db_blacklist d) \<union>
      {ot_id t | t. t \<in> set (tb_rows (db_tokens d)) \<and> ot_user t = Some k}"
    "d' = d\<lparr>db_blacklist := db_blacklist d'\<rparr>"
    "length (db_blacklist d') = length (db_blacklist d) + n"
    by (auto simp: tbl_filter_def)
qed

end
