(* ===== verification/Accounts.thy ===== *)
theory Accounts
  imports Tokens
begin

section \<open>Account endpoints (accounts/serializers.py, accounts/views.py)\<close>

text \<open>
  Registration, email verification, login, password reset and \<open>/me\<close>. Password hashing, the
  password validators, the JWT library's login and the address normalization are arguments; a body
  is what the field validation made of the request's data, or the exception it raised.
\<close>

definition split_name :: "string \<Rightarrow> string \<times> string" where
  "split_name name =
     (let n = str_strip name
      in if \<not> truthy n then ([], [])
         else case str_split1 n of
           [] \<Rightarrow> ([], [])
         | [a] \<Rightarrow> (a, [])
         | a # b # _ \<Rightarrow> (a, b))"

definition token_error :: "exn + 'a \<Rightarrow> exn + 'a" where
  \<comment> \<open>\<open>except TokenError as exc: raise ValidationError({"token": str(exc)})\<close>\<close>
  "token_error r =
     (case r of
        Inl (TokenError msg) \<Rightarrow> Inl (ValidationError (Some ''token'') msg)
      | Inl e \<Rightarrow> Inl e
      | Inr x \<Rightarrow> Inr x)"

subsection \<open>\<open>/me\<close>\<close>

type_synonym user_org_out = "key \<times> string \<times> string \<times> string"

definition get_organizations :: "(string \<Rightarrow> int) \<Rightarrow> user \<Rightarrow> db \<Rightarrow> user_org_out list" where
  \<comment> \<open>\<open>order_by("organization__name")\<close>, under the collation of the database\<close>
  "get_organizations collate user d =
     map snd (order_by fst
       (concat (map (\<lambda>m. case tbl_get o_id (m_org m) (db_orgs d) of
            None \<Rightarrow> []
          | Some org \<Rightarrow> [(collate (o_name org), (m_org m, o_name org, o_slug org, m_role m))])
         (tbl_filter (\<lambda>m. m_user m = u_id user) (db_members d)))))"

type_synonym user_out =
  "key \<times> string \<times> string \<times> string \<times> string \<times> bool \<times> time \<times> user_org_out list"

definition user_repr :: "(string \<Rightarrow> int) \<Rightarrow> db \<Rightarrow> user \<Rightarrow> user_out" where
  \<comment> \<open>\<open>UserSerializer\<close>: no password, no flags but the verification\<close>
  "user_repr collate d u =
     (u_id u, u_email u, u_first_name u, u_last_name u, full_name u, u_is_email_verified u,
      u_date_joined u, get_organizations collate u d)"

definition me_view :: "(string \<Rightarrow> int) \<Rightarrow> db \<Rightarrow> user option \<Rightarrow> exn + user_out" where
  "me_view collate d caller = bind_res (require_user d caller) (\<lambda>u. Inr (user_repr collate d u))"

subsection \<open>Registration\<close>

definition validate_register_email :: "string \<Rightarrow> db \<Rightarrow> exn + string" where
  "validate_register_email value d =
     (let value' = str_lower (str_strip value)
      in if tbl_exists (\<lambda>u. iexact (u_email u) value') (db_users d)
         then Inl (ValidationError (Some ''email'') ''A user with this email already exists.'')
         else Inr value')"

record passwords =
  pw_make :: "string option \<Rightarrow> string" \<comment> \<open>\<open>make_password\<close>\<close>
  pw_validate :: "string \<Rightarrow> string \<times> string \<times> string \<Rightarrow> string option"
    \<comment> \<open>\<open>validate_password\<close> with the user's email and names; the message of a refusal\<close>

definition validate_register ::
  "passwords \<Rightarrow> string \<times> string \<times> string \<Rightarrow> db \<Rightarrow> exn + (string \<times> string \<times> string)" where
  \<comment> \<open>\<open>email\<close>, \<open>password\<close>, \<open>name\<close>\<close>
  "validate_register pw b d =
     (case b of (email, password, name) \<Rightarrow>
       bind_res (validate_register_email email d) (\<lambda>email'.
         case pw_validate pw password (email', split_name name) of
           Some msg \<Rightarrow> Inl (ValidationError (Some ''password'') msg)
         | None \<Rightarrow> Inr (email', password, name)))"

definition register_create ::
  "(string \<Rightarrow> string) \<Rightarrow> passwords \<Rightarrow> time \<Rightarrow> string \<times> string \<times> string \<Rightarrow> db \<Rightarrow> exn + (user \<times> db)" where
  "register_create normalize_email pw now validated d =
     (case validated of (email, password, name) \<Rightarrow>
       bind_res (create_user normalize_email (pw_make pw) now email (Some password)
         \<lparr>x_is_staff = None, x_is_superuser = None, x_is_email_verified = Some False,
          x_first_name = fst (split_name name), x_last_name = snd (split_name name)\<rparr> d)
       (\<lambda>(user, d'). Inr (user, enqueue (Send_Verification_Email (u_id user)) d')))"

definition register_view ::
  "(string \<Rightarrow> string) \<Rightarrow> passwords \<Rightarrow> (string \<Rightarrow> int) \<Rightarrow> time \<Rightarrow> exn + (string \<times> string \<times> string) \<Rightarrow> db \<Rightarrow>
   user_out outcome" where
  "register_view normalize_email pw collate now body d =
     (case bind_res body (\<lambda>b. bind_res (validate_register pw b d) (\<lambda>v.
             register_create normalize_email pw now v d)) of
        Inl e \<Rightarrow> (Inl e, d)
      | Inr (user, d') \<Rightarrow> (Inr (user_repr collate d' user), d'))"

subsection \<open>Verification\<close>

definition VerifyEmailSerializer_validate :: "crypto \<Rightarrow> int \<Rightarrow> time \<Rightarrow> string \<Rightarrow> exn + json" where
  "VerifyEmailSerializer_validate c timeout now token =
     token_error (read_email_verification_token c timeout now token)"

definition VerifyEmailSerializer_save :: "json \<Rightarrow> db \<Rightarrow> exn + db" where
  "VerifyEmailSerializer_save uid d =
     (case col_int uid of
        Inl e \<Rightarrow> Inl e
      | Inr k \<Rightarrow> Inr (d\<lparr>db_users := tbl_update_where (\<lambda>u. u_id u = k)
          (\<lambda>u. u\<lparr>u_is_email_verified := True\<rparr>) (db_users d)\<rparr>))"

definition verify_email_view :: "crypto \<Rightarrow> int \<Rightarrow> time \<Rightarrow> exn + string \<Rightarrow> db \<Rightarrow> string outcome" where
  "verify_email_view c timeout now body d =
     (case bind_res body (VerifyEmailSerializer_validate c timeout now) of
        Inl e \<Rightarrow> (Inl e, d)
      | Inr uid \<Rightarrow>
          (case VerifyEmailSerializer_save uid d of
             Inl e \<Rightarrow> (Inl e, d)
           | Inr d' \<Rightarrow> (Inr ''Email address verified.'', d')))"

lemmas verify_email_view_eq =
  verify_email_view_def VerifyEmailSerializer_validate_def VerifyEmailSerializer_save_def

subsection \<open>Login\<close>

type_synonym claims = "(string \<times> json) list"

definition get_token :: "(user \<Rightarrow> claims) \<Rightarrow> user \<Rightarrow> claims" where
  \<comment> \<open>the library's claims, then \<open>email\<close> and \<open>is_email_verified\<close>\<close>
  "get_token super_token user =
     (''is_email_verified'', JBool (u_is_email_verified user)) # (''email'', JStr (u_email user)) #
     super_token user"

definition LoginSerializer_validate ::
  "(string \<Rightarrow> string \<Rightarrow> db \<Rightarrow> (user \<times> 'tokens) outcome) \<Rightarrow> bool \<Rightarrow> string \<times> string \<Rightarrow> db \<Rightarrow>
   'tokens outcome" where
  \<comment> \<open>the library's \<open>validate\<close>: it authenticates, mints the pair and records the login\<close>
  "LoginSerializer_validate super_validate require_verified attrs d =
     (case super_validate (fst attrs) (snd attrs) d of
        (Inl e, d') \<Rightarrow> (Inl e, d')
      | (Inr (user, data), d') \<Rightarrow>
          (if require_verified \<and> \<not> u_is_email_verified user
           then (Inl (ValidationError None ''Email address is not verified.''), d')
           else (Inr data, d')))"

definition login_view ::
  "(string \<Rightarrow> string \<Rightarrow> db \<Rightarrow> (user \<times> 'tokens) outcome) \<Rightarrow> bool \<Rightarrow> exn + (string \<times> string) \<Rightarrow> db \<Rightarrow>
   'tokens outcome" where
  "login_view super_validate require_verified body d =
     (case body of
        Inl e \<Rightarrow> (Inl e, d)
      | Inr attrs \<Rightarrow> LoginSerializer_validate super_validate require_verified attrs d)"

lemmas login_view_eq = login_view_def LoginSerializer_validate_def

subsection \<open>Password reset\<close>

definition PasswordResetRequestSerializer_save :: "string \<Rightarrow> db \<Rightarrow> db" where
  "PasswordResetRequestSerializer_save value d =
     (let email = str_lower (str_strip value);
          user = tbl_first (\<lambda>u. iexact (u_email u) email \<and> u_is_active u) (db_users d)
      in case user of
           None \<Rightarrow> d
         | Some u \<Rightarrow> enqueue (Send_Password_Reset_Email (u_id u)) d)"

definition password_reset_request_view :: "exn + string \<Rightarrow> db \<Rightarrow> string outcome" where
  "password_reset_request_view body d =
     (case body of
        Inl e \<Rightarrow> (Inl e, d)
      | Inr value \<Rightarrow>
          (Inr ''If an account with that email exists, a reset link has been sent.'',
           PasswordResetRequestSerializer_save value d))"

lemmas password_reset_request_view_eq =
  password_reset_request_view_def PasswordResetRequestSerializer_save_def

definition set_user_password :: "user \<Rightarrow> string \<Rightarrow> db \<Rightarrow> exn + db" where
  \<comment> \<open>\<open>set_password\<close> and \<open>save(update_fields=["password"])\<close>\<close>
  "set_user_password u hash d =
     bind_res (char_field 128 hash) (\<lambda>_.
       Inr (d\<lparr>db_users := tbl_update_where (\<lambda>x. u_id x = u_id u)
         (\<lambda>x. x\<lparr>u_password := hash\<rparr>) (db_users d)\<rparr>))"

definition PasswordResetConfirmSerializer_validate ::
  "crypto \<Rightarrow> passwords \<Rightarrow> int \<Rightarrow> time \<Rightarrow> db \<Rightarrow> string \<times> string \<Rightarrow> exn + (user \<times> string)" where
  "PasswordResetConfirmSerializer_validate c pw timeout now d attrs =
     (case attrs of (token, new_password) \<Rightarrow>
        bind_res (token_error (read_password_reset_token c timeout now token d)) (\<lambda>user.
          case pw_validate pw new_password (u_email user, u_first_name user, u_last_name user) of
            Some msg \<Rightarrow> Inl (ValidationError (Some ''new_password'') msg)
          | None \<Rightarrow> Inr (user, new_password)))"

definition PasswordResetConfirmSerializer_save :: "passwords \<Rightarrow> user \<Rightarrow> string \<Rightarrow> db \<Rightarrow> exn + db" where
  "PasswordResetConfirmSerializer_save pw user new_password d =
     (case set_user_password user (pw_make pw (Some new_password)) d of
        Inl e \<Rightarrow> Inl e
      | Inr d1 \<Rightarrow> (let (revoked, d2) = revoke_all_refresh_tokens (u_id user) d1 in Inr d2))"

definition password_reset_confirm_view ::
  "crypto \<Rightarrow> passwords \<Rightarrow> int \<Rightarrow> time \<Rightarrow> exn + (string \<times> string) \<Rightarrow> db \<Rightarrow> string outcome" where
  "password_reset_confirm_view c pw timeout now body d =
     (case bind_res body (PasswordResetConfirmSerializer_validate c pw timeout now d) of
        Inl e \<Rightarrow> (Inl e, d)
      | Inr (user, new_password) \<Rightarrow>
          (case PasswordResetConfirmSerializer_save pw user new_password d of
             Inl e \<Rightarrow> (Inl e, d)
           | Inr d2 \<Rightarrow> (Inr ''Password has been reset.'', d2)))"

lemmas password_reset_confirm_view_eq =
  password_reset_confirm_view_def PasswordResetConfirmSerializer_validate_def
  PasswordResetConfirmSerializer_save_def

subsection \<open>Registration, proved\<close>

lemma create_user_row_frame:
  "create_user_row ne mp now email password extra d = Inr (u, d') \<Longrightarrow>
   d' = d\<lparr>db_users := db_users d'\<rparr>"
  by (auto simp: create_user_row_def user_insert_Inr split: if_splits)

lemma register_frame:
  assumes "register_view ne pw collate now body d = (res, d')"
  shows "d' = d\<lparr>db_users := db_users d', db_queue := db_queue d'\<rparr>"
proof -
  have "x = d\<lparr>db_users := db_users x, db_queue := db_queue x\<rparr>"
    if "register_create ne pw now v d = Inr (u, x)" for v u x
  proof -
    obtain em pwd nm where v: "v = (em, pwd, nm)" by (cases v)
    from that obtain y ex where y: "create_user_row ne (pw_make pw) now em (Some pwd) ex d = Inr (u, y)"
      "x = enqueue (Send_Verification_Email (u_id u)) y"
      by (auto simp: v register_create_def create_user_def bind_res_Inr_iff)
    have "y = d\<lparr>db_users := db_users y\<rparr>" using create_user_row_frame [OF y(1)] .
    then obtain t where "y = d\<lparr>db_users := t\<rparr>" by blast
    then show ?thesis by (simp add: y(2) enqueue_def)
  qed
  with assms show ?thesis
    by (auto simp: register_view_def bind_res_Inr_iff split: sum.splits prod.splits)
qed

lemma register_frames:
  fixes ne pw collate now body d
  defines "d' \<equiv> snd (register_view ne pw collate now body d)"
  shows "db_orgs d' = db_orgs d" "db_members d' = db_members d" "db_invites d' = db_invites d"
    "db_subs d' = db_subs d" "db_projects d' = db_projects d" "db_plans d' = db_plans d"
    "db_events d' = db_events d"
proof -
  obtain u q where "d' = d\<lparr>db_users := u, db_queue := q\<rparr>"
    using register_frame [OF prod.collapse [symmetric]] unfolding d'_def by blast
  then show "db_orgs d' = db_orgs d" "db_members d' = db_members d" "db_invites d' = db_invites d"
    "db_subs d' = db_subs d" "db_projects d' = db_projects d" "db_plans d' = db_plans d"
    "db_events d' = db_events d" by simp_all
qed

lemma reset_confirm_frames:
  fixes c pw timeout now body d
  defines "d' \<equiv> snd (password_reset_confirm_view c pw timeout now body d)"
  shows "db_orgs d' = db_orgs d" "db_members d' = db_members d" "db_invites d' = db_invites d"
    "db_subs d' = db_subs d" "db_projects d' = db_projects d" "db_plans d' = db_plans d"
    "db_events d' = db_events d"
proof -
  have sp: "\<exists>t. y = d\<lparr>db_users := t\<rparr>" if "set_user_password u h d = Inr y" for u h y
    using that by (auto simp: set_user_password_def bind_res_Inr_iff)
  have rv: "\<exists>b. snd (revoke_all_refresh_tokens k y) = y\<lparr>db_blacklist := b\<rparr>" for k y
    by (auto simp: revoke_all_refresh_tokens_def split: prod.splits)
  have "\<exists>t b. d' = d\<lparr>db_users := t, db_blacklist := b\<rparr>"
  proof -
    have "d' = d \<or> (\<exists>u h y. set_user_password u h d = Inr y \<and>
        d' = snd (revoke_all_refresh_tokens (u_id u) y))"
      unfolding d'_def password_reset_confirm_view_eq
      by (auto split: sum.splits prod.splits) (metis snd_conv)+
    then show ?thesis
    proof
      assume "d' = d"
      then show ?thesis by (intro exI [of _ "db_users d"] exI [of _ "db_blacklist d"]) simp
    next
      assume "\<exists>u h y. set_user_password u h d = Inr y \<and>
        d' = snd (revoke_all_refresh_tokens (u_id u) y)"
      then obtain u h y where y: "set_user_password u h d = Inr y"
        "d' = snd (revoke_all_refresh_tokens (u_id u) y)" by blast
      obtain t where "y = d\<lparr>db_users := t\<rparr>" using sp [OF y(1)] by blast
      moreover obtain b where "d' = y\<lparr>db_blacklist := b\<rparr>" using rv [of "u_id u" y] y(2) by auto
      ultimately show ?thesis by auto
    qed
  qed
  then show "db_orgs d' = db_orgs d" "db_members d' = db_members d" "db_invites d' = db_invites d"
    "db_subs d' = db_subs d" "db_projects d' = db_projects d" "db_plans d' = db_plans d"
    "db_events d' = db_events d" by auto
qed

lemma register_success:
  assumes inv: "db_inv d" "emails_lower d"
    and step: "register_view ne pw collate now (Inr (email, password, name)) d = (res, d')"
  defines "email' \<equiv> str_lower (str_strip email)"
  shows "case res of
      Inl e \<Rightarrow> d' = d
    | Inr out \<Rightarrow> db_inv d' \<and> emails_lower d' \<and>
        (\<forall>u \<in> set (tb_rows (db_users d)). str_lower (u_email u) \<noteq> email') \<and>
        pw_validate pw password (email', split_name name) = None \<and>
        (\<exists>u. tb_rows (db_users d') = tb_rows (db_users d) @ [u] \<and> u_email u = str_lower (ne email') \<and>
           u_password u = pw_make pw (Some password) \<and> \<not> u_is_email_verified u \<and> \<not> u_is_staff u \<and>
           \<not> u_is_superuser u \<and> u_is_active u \<and> (u_first_name u, u_last_name u) = split_name name \<and>
           db_queue d' = db_queue d @ [Send_Verification_Email (u_id u)])"
proof (cases res)
  case (Inl e)
  with step show ?thesis by (auto simp: register_view_def split: sum.splits prod.splits)
next
  case (Inr out)
  let ?x = "\<lparr>x_is_staff = Some False, x_is_superuser = Some False, x_is_email_verified = Some False,
     x_first_name = fst (split_name name), x_last_name = snd (split_name name)\<rparr>"
  have "\<exists>u d1. create_user_row ne (pw_make pw) now email' (Some password) ?x d = Inr (u, d1) \<and>
      d' = enqueue (Send_Verification_Email (u_id u)) d1 \<and>
      \<not> tbl_exists (\<lambda>u. iexact (u_email u) email') (db_users d) \<and>
      pw_validate pw password (email', split_name name) = None"
  proof -
    let ?b = "bind_res (validate_register pw (email, password, name) d)
        (\<lambda>v. register_create ne pw now v d)"
    from step Inr obtain u where b: "?b = Inr (u, d')"
      by (cases ?b) (auto simp: register_view_def)
    then obtain v where v: "validate_register pw (email, password, name) d = Inr v"
      and r: "register_create ne pw now v d = Inr (u, d')"
      by (auto simp only: bind_res_Inr_iff)
    from v have v': "v = (email', password, name)"
      "\<not> tbl_exists (\<lambda>u. iexact (u_email u) email') (db_users d)"
      "pw_validate pw password (email', split_name name) = None"
      by (auto simp: validate_register_def validate_register_email_def email'_def Let_def
          split: if_splits option.splits)
    from r have "create_user_row ne (pw_make pw) now email' (Some password) ?x d = Inr (u, d1) \<and>
      d' = enqueue (Send_Verification_Email (u_id u)) d1"
      if "create_user_row ne (pw_make pw) now email' (Some password) ?x d = Inr (u1, d1)" for u1 d1
      using that by (auto simp: v'(1) register_create_def create_user_def setdefault_def)
    moreover have "\<exists>u1 d1. create_user_row ne (pw_make pw) now email' (Some password) ?x d = Inr (u1, d1)"
      using r by (cases "create_user_row ne (pw_make pw) now email' (Some password) ?x d")
        (auto simp: v'(1) register_create_def create_user_def setdefault_def)
    ultimately show ?thesis using v'(2,3) by blast
  qed
  then obtain u d1 where row: "create_user_row ne (pw_make pw) now email' (Some password) ?x d = Inr (u, d1)"
    and d': "d' = enqueue (Send_Verification_Email (u_id u)) d1"
    and new: "\<not> tbl_exists (\<lambda>u. iexact (u_email u) email') (db_users d)"
    and pwv: "pw_validate pw password (email', split_name name) = None" by blast
  note r = create_user_row_Inr [OF row]
  have "tb_rows (db_users d') = tb_rows (db_users d) @ [u]"
    using r(12,14) by (simp add: d')
  moreover have "str_lower email' = email'" by (simp add: email'_def)
  ultimately show ?thesis
    using Inr r create_user_row_keeps [OF row] inv new pwv
    by (auto simp: d' flag_def iexact_def tbl_exists_iff emails_lower_def)
qed


text \<open>C31. Registration: a success stores one new, active, unverified account without staff rights under
  the lower-case address, with the hash the hasher gave and never the password itself, and queues
  exactly one verification mail for it; a known address (up to case) and a weak password are 400s
  and store nothing.\<close>

theorem register_spec:
  assumes inv: "db_inv d" "emails_lower d"
    and step: "register_view ne pw collate now (Inr (email, password, name)) d = (res, d')"
  defines "email' \<equiv> str_lower (str_strip email)"
  shows "case res of
      Inl e \<Rightarrow> d' = d
    | Inr out \<Rightarrow> db_inv d' \<and> emails_lower d' \<and>
        (\<forall>u \<in> set (tb_rows (db_users d)). str_lower (u_email u) \<noteq> email') \<and>
        pw_validate pw password (email', split_name name) = None \<and>
        (\<exists>u. tb_rows (db_users d') = tb_rows (db_users d) @ [u] \<and> u_email u = str_lower (ne email') \<and>
           u_password u = pw_make pw (Some password) \<and> \<not> u_is_email_verified u \<and> \<not> u_is_staff u \<and>
           \<not> u_is_superuser u \<and> u_is_active u \<and> (u_first_name u, u_last_name u) = split_name name \<and>
           db_queue d' = db_queue d @ [Send_Verification_Email (u_id u)])"
  using register_success [OF inv step] unfolding email'_def .

lemma demo_emails_lower: "emails_lower demo_db"
  by (simp add: emails_lower_def demo_defs str_lower_def lower_char_def is_upper_def code_point_def)

definition demo_passwords :: passwords where
  "demo_passwords = \<lparr>pw_make = (\<lambda>p. case p of None \<Rightarrow> ''!'' | Some s \<Rightarrow> ''pbkdf2$'' @ rev s),
     pw_validate = (\<lambda>p u. if length p < 10 then Some ''Too short.'' else None)\<rparr>"

theorem register_spec_witness:
  "\<exists>d'. register_view id demo_passwords (\<lambda>_. 0) 5 (Inr ('' Zoe@New.test'', ''longpassword'', ''Zoe  Z''))
      demo_db = (Inr (6, ''zoe@new.test'', ''Zoe'', ''Z'', ''Zoe Z'', False, 5, []), d') \<and>
    db_inv d' \<and> db_queue d' = [Send_Verification_Email 6]"
proof -
  obtain res d' where step: "register_view id demo_passwords (\<lambda>_. 0) 5
      (Inr ('' Zoe@New.test'', ''longpassword'', ''Zoe  Z'')) demo_db = (res, d')" by fastforce
  have "fst (register_view id demo_passwords (\<lambda>_. 0) 5
      (Inr ('' Zoe@New.test'', ''longpassword'', ''Zoe  Z'')) demo_db) =
      Inr (6, ''zoe@new.test'', ''Zoe'', ''Z'', ''Zoe Z'', False, 5, [])"
    "db_queue (snd (register_view id demo_passwords (\<lambda>_. 0) 5
      (Inr ('' Zoe@New.test'', ''longpassword'', ''Zoe  Z'')) demo_db)) = [Send_Verification_Email 6]"
    by code_simp+
  with register_spec [OF demo_inv demo_emails_lower step] step show ?thesis by auto
qed

theorem create_user_identity_witness:
  "\<exists>u d'. create_superuser id (pw_make demo_passwords) 5 ''Root@Acme.test'' None
      \<lparr>x_is_staff = None, x_is_superuser = None, x_is_email_verified = None,
       x_first_name = [], x_last_name = []\<rparr> demo_db = Inr (u, d') \<and> u_is_staff u \<and> db_inv d'"
proof -
  let ?x = "\<lparr>x_is_staff = None, x_is_superuser = None, x_is_email_verified = None,
       x_first_name = [], x_last_name = []\<rparr>"
  have "\<not> isl (create_superuser id (pw_make demo_passwords) 5 ''Root@Acme.test'' None ?x demo_db)"
    by code_simp
  then obtain u d' where c: "create_superuser id (pw_make demo_passwords) 5 ''Root@Acme.test'' None ?x demo_db =
      Inr (u, d')"
    by (cases "create_superuser id (pw_make demo_passwords) 5 ''Root@Acme.test'' None ?x demo_db") auto
  with create_user_identity [OF demo_inv demo_emails_lower,
      where ne = id and mp = "pw_make demo_passwords" and now = 5 and email = "''Root@Acme.test''" and
      password = None and extra = ?x]
  show ?thesis by auto
qed

subsection \<open>Password reset, proved\<close>

text \<open>Asking for a reset reveals nothing: the reply is the same for every address and every
  database, and a mail is queued exactly when an active account has the address (up to case and
  surrounding space).\<close>

theorem reset_request_enumeration_safe:
  "fst (password_reset_request_view (Inr v) d) = fst (password_reset_request_view (Inr v') d') \<and>
   (db_queue (snd (password_reset_request_view (Inr v) d)) \<noteq> db_queue d \<longleftrightarrow>
     (\<exists>u \<in> set (tb_rows (db_users d)). u_is_active u \<and>
        str_lower (u_email u) = str_lower (str_strip v))) \<and>
   snd (password_reset_request_view (Inr v) d) =
     d\<lparr>db_queue := db_queue (snd (password_reset_request_view (Inr v) d))\<rparr>"
proof -
  let ?P = "\<lambda>u. iexact (u_email u) (str_lower (str_strip v)) \<and> u_is_active u"
  let ?m = "''If an account with that email exists, a reset link has been sent.''"
  have fst: "fst (password_reset_request_view (Inr x) y) = Inr ?m" for x y
    by (simp add: password_reset_request_view_eq Let_def)
  show ?thesis
  proof (cases "tbl_first ?P (db_users d)")
    case None
    then have "snd (password_reset_request_view (Inr v) d) = d"
      by (simp add: password_reset_request_view_eq Let_def)
    with fst None [unfolded tbl_first_None] show ?thesis by (auto simp: iexact_def)
  next
    case (Some u)
    then have "snd (password_reset_request_view (Inr v) d) = enqueue (Send_Password_Reset_Email (u_id u)) d"
      by (simp add: password_reset_request_view_eq Let_def)
    with fst tbl_first_Some [OF Some] show ?thesis by (auto simp: iexact_def enqueue_def)
  qed
qed

theorem reset_request_witness:
  "db_queue (snd (password_reset_request_view (Inr '' OWNER@acme.test'') demo_db)) \<noteq> db_queue demo_db \<and>
   fst (password_reset_request_view (Inr '' OWNER@acme.test'') demo_db) =
   fst (password_reset_request_view (Inr ''nobody@x.test'') demo_db)"
proof -
  have "\<exists>u \<in> set (tb_rows (db_users demo_db)). u_is_active u \<and>
      str_lower (u_email u) = str_lower (str_strip '' OWNER@acme.test'')"
  proof (rule bexI [of _ olivia])
    show "u_is_active olivia \<and> str_lower (u_email olivia) = str_lower (str_strip '' OWNER@acme.test'')"
      by code_simp
  qed (simp add: demo_db_def)
  then show ?thesis
    using reset_request_enumeration_safe [of "'' OWNER@acme.test''" demo_db "''nobody@x.test''" demo_db]
    by blast
qed

lemma set_user_password_rows:
  assumes "keys_ok d" "tbl_get u_id (u_id u) (db_users d) = Some u" "length hash \<le> 128"
  shows "\<exists>d'. set_user_password u hash d = Inr d' \<and>
    tbl_get u_id (u_id u) (db_users d') = Some (u\<lparr>u_password := hash\<rparr>) \<and>
    (\<forall>k. k \<noteq> u_id u \<longrightarrow> tbl_get u_id k (db_users d') = tbl_get u_id k (db_users d)) \<and>
    d' = d\<lparr>db_users := db_users d'\<rparr>"
  using assms by (simp add: set_user_password_def char_field_def user_t.get_update)

text \<open>C25. Confirming a reset: with a fresh token the password of that one account becomes the new hash,
  every refresh token of the account is blacklisted and nobody else's, and the token is dead: a second
  use is a 400 that changes nothing. The outside facts it rests on: \<open>make_password\<close> salts, so the new
  hash is a new string, and SHA-256 does not collide on the two payloads.\<close>

theorem reset_confirm_spec:
  assumes inv: "keys_ok d" and sg: "signing_ok c" "ascii_hex c"
    and u: "tbl_get u_id (u_id u) (db_users d) = Some u"
    and fresh: "now - t \<le> timeout * second"
    and strong: "pw_validate pw new (u_email u, u_first_name u, u_last_name u) = None"
    and hash: "length (pw_make pw (Some new)) \<le> 128"
    and salted: "pw_make pw (Some new) \<noteq> u_password u"
    and sha256: "no_second_preimage c (fingerprint_payload c u)
      {fingerprint_payload c (u\<lparr>u_password := pw_make pw (Some new)\<rparr>)}"
  shows "\<exists>d'. password_reset_confirm_view c pw timeout now
       (Inr (generate_password_reset_token c t u, new)) d = (Inr ''Password has been reset.'', d') \<and>
    tbl_get u_id (u_id u) (db_users d') = Some (u\<lparr>u_password := pw_make pw (Some new)\<rparr>) \<and>
    (\<forall>k. k \<noteq> u_id u \<longrightarrow> tbl_get u_id k (db_users d') = tbl_get u_id k (db_users d)) \<and>
    set (db_blacklist d') = set (db_blacklist d) \<union>
      {ot_id x | x. x \<in> set (tb_rows (db_tokens d)) \<and> ot_user x = Some (u_id u)} \<and>
    (\<forall>now' new'. password_reset_confirm_view c pw timeout now'
         (Inr (generate_password_reset_token c t u, new')) d' =
       (Inl (ValidationError (Some ''token'')
          (if timeout * second < now' - t then ''Invalid or expired reset token.''
           else ''This reset token has already been used or has expired.'')), d'))"
proof -
  let ?h = "pw_make pw (Some new)"
  obtain d1 where d1: "set_user_password u ?h d = Inr d1"
    "tbl_get u_id (u_id u) (db_users d1) = Some (u\<lparr>u_password := ?h\<rparr>)"
    "\<forall>k. k \<noteq> u_id u \<longrightarrow> tbl_get u_id k (db_users d1) = tbl_get u_id k (db_users d)"
    "d1 = d\<lparr>db_users := db_users d1\<rparr>"
    using set_user_password_rows [OF inv u hash] by blast
  obtain n d2 where d2: "revoke_all_refresh_tokens (u_id u) d1 = (n, d2)" by fastforce
  note rv = revoke_all_spec [OF d2]
  have same: "db_tokens d1 = db_tokens d" "db_blacklist d1 = db_blacklist d"
    by (subst d1(4), simp)+
  have users: "db_users d2 = db_users d1" by (subst rv(2)) simp
  have changed: "password_reset_fingerprint c (u\<lparr>u_password := ?h\<rparr>) \<noteq> password_reset_fingerprint c u"
    using fingerprint_payload_eq [OF sha256] salted by (simp add: payload_password)
  have first: "password_reset_confirm_view c pw timeout now
       (Inr (generate_password_reset_token c t u, new)) d = (Inr ''Password has been reset.'', d2)"
    using sg u fresh strong d1(1) d2
    by (simp add: password_reset_confirm_view_eq read_reset_generated token_error_def)
  have "password_reset_confirm_view c pw timeout now'
         (Inr (generate_password_reset_token c t u, new')) d2 =
       (Inl (ValidationError (Some ''token'')
          (if timeout * second < now' - t then ''Invalid or expired reset token.''
           else ''This reset token has already been used or has expired.'')), d2)" for now' new'
    using sg d1(2) users changed
    by (simp add: password_reset_confirm_view_eq read_reset_generated token_error_def)
  with first d1(2,3) users rv(1) same show ?thesis by (intro exI [of _ d2]) simp
qed

theorem reset_confirm_witness:
  "\<exists>d'. password_reset_confirm_view demo_crypto demo_passwords 3600 9
      (Inr (generate_password_reset_token demo_crypto 0 olivia, ''longpassword'')) demo_db =
      (Inr ''Password has been reset.'', d') \<and> set (db_blacklist d') = {1}"
proof -
  have a: "tbl_get u_id (u_id olivia) (db_users demo_db) = Some olivia" by simp
  have b: "(9::int) - 0 \<le> 3600 * second" by (simp add: second_def)
  have c: "pw_validate demo_passwords ''longpassword'' (u_email olivia, u_first_name olivia, u_last_name olivia) = None"
    "length (pw_make demo_passwords (Some ''longpassword'')) \<le> 128"
    by (simp_all add: demo_passwords_def)
  have e: "pw_make demo_passwords (Some ''longpassword'') \<noteq> u_password olivia"
    "no_second_preimage demo_crypto (fingerprint_payload demo_crypto olivia)
      {fingerprint_payload demo_crypto (olivia\<lparr>u_password := pw_make demo_passwords (Some ''longpassword'')\<rparr>)}"
    by (simp_all add: no_second_preimage_def fingerprint_payload_def demo_crypto_def demo_passwords_def
        olivia_def demo_user_def show_int_def show_nat.simps code_point_def)
  have f: "set (db_blacklist demo_db) \<union>
      {ot_id x | x. x \<in> set (tb_rows (db_tokens demo_db)) \<and> ot_user x = Some (u_id olivia)} = {1}"
    by (auto simp: demo_db_def intro!: exI [of _ "\<lparr>ot_id = 1, ot_user = Some 1\<rparr>"])
  show ?thesis
    using reset_confirm_spec [OF demo_keys_ok demo_signing_ok demo_ascii_hex a b c e] unfolding f by blast
qed

subsection \<open>Verification and login, proved\<close>

text \<open>Verifying an address: a live token marks exactly its own account, doing it again changes
  nothing more, and an expired token is a 400 that changes nothing.\<close>

theorem verify_email_spec:
  assumes "signing_ok c" and "tbl_get u_id (u_id u) (db_users d) = Some u"
  shows "verify_email_view c timeout now (Inr (generate_email_verification_token c t u)) d =
    (if now - t \<le> timeout * second
     then (Inr ''Email address verified.'',
           d\<lparr>db_users := tbl_update_where (\<lambda>x. u_id x = u_id u)
             (\<lambda>x. x\<lparr>u_is_email_verified := True\<rparr>) (db_users d)\<rparr>)
     else (Inl (ValidationError (Some ''token'') ''Invalid or expired verification token.''), d)) \<and>
    (now - t \<le> timeout * second \<longrightarrow>
       (let d' = snd (verify_email_view c timeout now (Inr (generate_email_verification_token c t u)) d)
        in tbl_get u_id (u_id u) (db_users d') = Some (u\<lparr>u_is_email_verified := True\<rparr>) \<and>
           (\<forall>k. k \<noteq> u_id u \<longrightarrow> tbl_get u_id k (db_users d') = tbl_get u_id k (db_users d)) \<and>
           snd (verify_email_view c timeout now (Inr (generate_email_verification_token c t u)) d') = d'))"
proof -
  have twice: "tbl_update_where P f (tbl_update_where P f tb) = tbl_update_where P f tb"
    if "\<And>x. f (f x) = f x" for P and f :: "user \<Rightarrow> user" and tb
    using that by (simp add: tbl_update_where_def)
  show ?thesis using assms
    by (simp add: verify_email_view_eq read_verification_generated token_error_def col_int_def
        user_t.get_update Let_def twice)
qed

theorem verify_email_witness:
  "fst (verify_email_view demo_crypto 60 5 (Inr (generate_email_verification_token demo_crypto 0 mia)) demo_db) =
     Inr ''Email address verified.''"
  using verify_email_spec [OF demo_signing_ok, of mia demo_db 60 5 0] by (simp add: second_def)

end
