(* ===== verification/Webhooks.thy ===== *)
theory Webhooks
  imports Invariants Tenancy Demo
begin

section \<open>Stripe webhooks (billing/webhooks.py, \<open>WebhookView\<close>, \<open>construct_event\<close>)\<close>

text \<open>
  An event is the JSON value the Stripe library hands over once the signature is verified; the
  handlers read it with \<open>get\<close> and subscripts, so every place where a value of another shape raises
  is a branch here. The library's verification, and \<open>str()\<close> of a value that is no string, are
  arguments. A handler returns the exception it raised or the database it leaves.
\<close>

subsection \<open>Reading JSON\<close>

definition col_text :: "(json \<Rightarrow> string) \<Rightarrow> json \<Rightarrow> string option" where
  \<comment> \<open>what a text column makes of a value: \<open>None\<close> is SQL's \<open>NULL\<close>\<close>
  "col_text py_str v = (case v of JNull \<Rightarrow> None | JStr s \<Rightarrow> Some s | _ \<Rightarrow> Some (py_str v))"

definition hashable :: "json \<Rightarrow> bool" where
  "hashable v = (case v of JList _ \<Rightarrow> False | JObj _ \<Rightarrow> False | _ \<Rightarrow> True)"

definition item_get :: "json \<Rightarrow> string \<Rightarrow> json option" where
  \<comment> \<open>\<open>v[k]\<close>; \<open>None\<close> is \<open>KeyError\<close> or \<open>TypeError\<close>, which the code catches alike\<close>
  "item_get v k = (case v of JObj kvs \<Rightarrow> map_of kvs k | _ \<Rightarrow> None)"

definition item_first :: "json \<Rightarrow> json option" where
  \<comment> \<open>\<open>v[0]\<close>; a character of a string fails at the next subscript\<close>
  "item_first v = (case v of JList (x # xs) \<Rightarrow> Some x | _ \<Rightarrow> None)"

subsection \<open>Mapping values\<close>

definition STATUS_MAP :: "(string \<times> string) list" where
  "STATUS_MAP =
     [(''active'', ACTIVE), (''trialing'', ACTIVE), (''past_due'', PAST_DUE), (''unpaid'', PAST_DUE),
      (''canceled'', CANCELED), (''incomplete'', INCOMPLETE), (''incomplete_expired'', CANCELED)]"

definition status_of :: "json \<Rightarrow> string \<Rightarrow> exn + string" where
  \<comment> \<open>\<open>_STATUS_MAP.get(v, default)\<close>\<close>
  "status_of v old =
     (if \<not> hashable v then Inl PyTypeError
      else case v of
        JStr s \<Rightarrow> Inr (case map_of STATUS_MAP s of Some t \<Rightarrow> t | None \<Rightarrow> old)
      | _ \<Rightarrow> Inr old)"

definition ts_to_dt :: "json \<Rightarrow> exn + time option" where
  \<comment> \<open>\<open>fromtimestamp\<close> takes the years 1 to 9999 (beyond, \<open>ValueError\<close> or \<open>OverflowError\<close>)\<close>
  "ts_to_dt v =
     (if \<not> json_truthy v then Inr None
      else bind_res (col_int v) (\<lambda>t.
        if - 62135596800 \<le> t \<and> t \<le> 253402300799 then Inr (Some (t * 1000000))
        else Inl PyValueError))"

definition metadata_of :: "json \<Rightarrow> exn + json" where
  \<comment> \<open>\<open>obj.get("metadata") or {}\<close>\<close>
  "metadata_of obj = bind_res (py_get obj ''metadata'') (\<lambda>m. Inr (json_or m (JObj [])))"

definition org_id_of :: "json \<Rightarrow> exn + json" where
  "org_id_of obj = bind_res (metadata_of obj) (\<lambda>m. py_get m ''organization_id'')"

definition sub_with :: "(subscription \<Rightarrow> string) \<Rightarrow> string option \<Rightarrow> db \<Rightarrow> subscription option" where
  "sub_with col v d = (case v of None \<Rightarrow> None | Some s \<Rightarrow> tbl_first (\<lambda>x. col x = s) (db_subs d))"

definition find_subscription ::
  "(json \<Rightarrow> string) \<Rightarrow> json \<Rightarrow> json \<Rightarrow> json \<Rightarrow> db \<Rightarrow> exn + subscription option" where
  "find_subscription py_str obj subscription_id customer_id d =
     bind_res (org_id_of obj) (\<lambda>org_id.
     bind_res (if json_truthy org_id
               then bind_res (col_int org_id) (\<lambda>k. Inr (sub_of_org k d)) else Inr None) (\<lambda>found.
       case found of
         Some sub \<Rightarrow> Inr (Some sub)
       | None \<Rightarrow>
           (case (if json_truthy subscription_id
                  then sub_with s_stripe_subscription_id (col_text py_str subscription_id) d
                  else None) of
              Some sub \<Rightarrow> Inr (Some sub)
            | None \<Rightarrow>
                Inr (if json_truthy customer_id
                     then sub_with s_stripe_customer_id (col_text py_str customer_id) d
                     else None))))"

definition plan_for_price :: "(json \<Rightarrow> string) \<Rightarrow> json \<Rightarrow> db \<Rightarrow> plan option" where
  "plan_for_price py_str price_id d =
     (if \<not> json_truthy price_id then None
      else case col_text py_str price_id of
        None \<Rightarrow> None
      | Some s \<Rightarrow> tbl_first (\<lambda>p. p_stripe_price_id p = s \<and> p_is_active p) (db_plans d))"

definition plan_by_code :: "(json \<Rightarrow> string) \<Rightarrow> json \<Rightarrow> db \<Rightarrow> plan option" where
  "plan_by_code py_str code d =
     (case col_text py_str code of
        None \<Rightarrow> None
      | Some s \<Rightarrow> tbl_first (\<lambda>p. p_code p = s \<and> p_is_active p) (db_plans d))"

definition price_id_of :: "json \<Rightarrow> json" where
  \<comment> \<open>\<open>obj["items"]["data"][0]["price"]["id"]\<close>, \<open>None\<close> when any step fails\<close>
  "price_id_of obj =
     (case Option.bind (item_get obj ''items'') (\<lambda>items.
        Option.bind (item_get items ''data'') (\<lambda>xs.
        Option.bind (item_first xs) (\<lambda>x.
        Option.bind (item_get x ''price'') (\<lambda>p. item_get p ''id'')))) of
        None \<Rightarrow> JNull
      | Some v \<Rightarrow> v)"

definition text_or :: "(json \<Rightarrow> string) \<Rightarrow> json \<Rightarrow> string \<Rightarrow> string" where
  \<comment> \<open>\<open>v or old\<close>, stored in a text column\<close>
  "text_or py_str v old =
     (if json_truthy v then (case col_text py_str v of Some s \<Rightarrow> s | None \<Rightarrow> old) else old)"

definition save_subscription :: "time \<Rightarrow> subscription \<Rightarrow> db \<Rightarrow> exn + db" where
  \<comment> \<open>\<open>save()\<close>: every column, \<open>updated_at\<close> set to now\<close>
  "save_subscription now sub d =
     bind_res (char_field 255 (s_stripe_customer_id sub)) (\<lambda>_.
     bind_res (char_field 255 (s_stripe_subscription_id sub)) (\<lambda>_.
       Inr (d\<lparr>db_subs := tbl_update_where (\<lambda>x. s_id x = s_id sub)
         (\<lambda>x. x\<lparr>s_plan := s_plan sub, s_stripe_customer_id := s_stripe_customer_id sub,
                s_stripe_subscription_id := s_stripe_subscription_id sub, s_status := s_status sub,
                s_current_period_end := s_current_period_end sub, s_updated_at := now\<rparr>)
         (db_subs d)\<rparr>)))"

subsection \<open>Handlers\<close>

definition handle_checkout_completed :: "(json \<Rightarrow> string) \<Rightarrow> time \<Rightarrow> json \<Rightarrow> db \<Rightarrow> exn + db" where
  "handle_checkout_completed py_str now obj d =
     bind_res (py_get obj ''customer'') (\<lambda>customer.
     bind_res (find_subscription py_str obj JNull customer d) (\<lambda>found.
       case found of
         None \<Rightarrow> Inr d
       | Some sub \<Rightarrow>
           bind_res (py_get obj ''subscription'') (\<lambda>subscription.
           bind_res (metadata_of obj) (\<lambda>metadata.
           bind_res (py_get metadata ''plan_code'') (\<lambda>code.
             save_subscription now
               (sub\<lparr>s_stripe_customer_id := text_or py_str customer (s_stripe_customer_id sub),
                    s_stripe_subscription_id :=
                      text_or py_str subscription (s_stripe_subscription_id sub),
                    s_plan := (case plan_by_code py_str code d of
                      Some p \<Rightarrow> p_id p | None \<Rightarrow> s_plan sub),
                    s_status := ACTIVE\<rparr>) d)))))"

definition handle_subscription_updated :: "(json \<Rightarrow> string) \<Rightarrow> time \<Rightarrow> json \<Rightarrow> db \<Rightarrow> exn + db" where
  "handle_subscription_updated py_str now obj d =
     bind_res (py_get obj ''id'') (\<lambda>sid.
     bind_res (py_get obj ''customer'') (\<lambda>customer.
     bind_res (find_subscription py_str obj sid customer d) (\<lambda>found.
       case found of
         None \<Rightarrow> Inr d
       | Some sub \<Rightarrow>
           bind_res (py_get obj ''status'') (\<lambda>st.
           bind_res (status_of st (s_status sub)) (\<lambda>status.
           bind_res (py_get obj ''current_period_end'') (\<lambda>cpe.
           bind_res (ts_to_dt cpe) (\<lambda>period_end.
             save_subscription now
               (sub\<lparr>s_stripe_subscription_id := text_or py_str sid (s_stripe_subscription_id sub),
                    s_status := status,
                    s_current_period_end :=
                      (case period_end of None \<Rightarrow> s_current_period_end sub | Some t \<Rightarrow> Some t),
                    s_plan := (case plan_for_price py_str (price_id_of obj) d of
                      Some p \<Rightarrow> p_id p | None \<Rightarrow> s_plan sub)\<rparr>) d)))))))"

definition handle_subscription_deleted :: "(json \<Rightarrow> string) \<Rightarrow> time \<Rightarrow> json \<Rightarrow> db \<Rightarrow> exn + db" where
  "handle_subscription_deleted py_str now obj d =
     bind_res (py_get obj ''id'') (\<lambda>sid.
     bind_res (py_get obj ''customer'') (\<lambda>customer.
     bind_res (find_subscription py_str obj sid customer d) (\<lambda>found.
       case found of
         None \<Rightarrow> Inr d
       | Some sub \<Rightarrow>
           save_subscription now
             (sub\<lparr>s_status := CANCELED,
                  s_plan := (case free_plan d of Some p \<Rightarrow> p_id p | None \<Rightarrow> s_plan sub),
                  s_stripe_subscription_id := []\<rparr>) d)))"

definition handle_invoice_payment_failed :: "(json \<Rightarrow> string) \<Rightarrow> time \<Rightarrow> json \<Rightarrow> db \<Rightarrow> exn + db" where
  "handle_invoice_payment_failed py_str now obj d =
     bind_res (py_get obj ''subscription'') (\<lambda>subscription.
     bind_res (py_get obj ''customer'') (\<lambda>customer.
     bind_res (find_subscription py_str obj subscription customer d) (\<lambda>found.
       case found of
         None \<Rightarrow> Inr d
       | Some sub \<Rightarrow>
           Inr (d\<lparr>db_subs := tbl_update_where (\<lambda>x. s_id x = s_id sub)
             (\<lambda>x. x\<lparr>s_status := PAST_DUE, s_updated_at := now\<rparr>) (db_subs d)\<rparr>))))"

type_synonym handler = "(json \<Rightarrow> string) \<Rightarrow> time \<Rightarrow> json \<Rightarrow> db \<Rightarrow> exn + db"

definition HANDLERS :: "(string \<times> handler) list" where
  "HANDLERS =
     [(''checkout.session.completed'', handle_checkout_completed),
      (''customer.subscription.updated'', handle_subscription_updated),
      (''customer.subscription.deleted'', handle_subscription_deleted),
      (''invoice.payment_failed'', handle_invoice_payment_failed)]"

definition handler_for :: "json \<Rightarrow> exn + handler option" where
  "handler_for ty =
     (if \<not> hashable ty then Inl PyTypeError
      else Inr (case ty of JStr s \<Rightarrow> map_of HANDLERS s | _ \<Rightarrow> None))"

definition handle_event :: "(json \<Rightarrow> string) \<Rightarrow> time \<Rightarrow> json \<Rightarrow> db \<Rightarrow> exn + db" where
  "handle_event py_str now event d =
     bind_res (py_get event ''type'') (\<lambda>ty.
     bind_res (handler_for ty) (\<lambda>h.
       case h of
         None \<Rightarrow> Inr d
       | Some handler \<Rightarrow>
           bind_res (py_get event ''data'') (\<lambda>data.
           bind_res (py_get (json_or data (JObj [])) ''object'') (\<lambda>ob.
             handler py_str now (json_or ob (JObj [])) d))))"

subsection \<open>The view\<close>

definition construct_event ::
  "(string \<Rightarrow> string \<Rightarrow> string \<Rightarrow> exn + json) \<Rightarrow> string \<Rightarrow> string \<Rightarrow> string \<Rightarrow> exn + json" where
  \<comment> \<open>\<open>stripe.Webhook.construct_event\<close> and \<open>settings.STRIPE_WEBHOOK_SECRET\<close> are arguments\<close>
  "construct_event stripe_construct secret payload signature =
     (if \<not> truthy secret then Inl BillingNotConfigured
      else stripe_construct payload signature secret)"

definition signature_error :: "exn \<Rightarrow> bool" where
  \<comment> \<open>\<open>except (ValueError, stripe.error.SignatureVerificationError)\<close>\<close>
  "signature_error e \<longleftrightarrow> e = PyValueError \<or> e = StripeError ''SignatureVerificationError''"

definition event_id :: "json \<Rightarrow> exn + json" where
  \<comment> \<open>\<open>event["id"]\<close>\<close>
  "event_id event =
     (case event of
        JObj kvs \<Rightarrow> (case map_of kvs ''id'' of None \<Rightarrow> Inl PyKeyError | Some v \<Rightarrow> Inr v)
      | _ \<Rightarrow> Inl PyTypeError)"

definition event_type :: "json \<Rightarrow> exn + json" where
  \<comment> \<open>\<open>event.get("type", "")\<close>\<close>
  "event_type event =
     (case event of
        JObj kvs \<Rightarrow> Inr (case map_of kvs ''type'' of None \<Rightarrow> JStr [] | Some v \<Rightarrow> v)
      | _ \<Rightarrow> Inl PyAttributeError)"

definition webhook_event_get_or_create ::
  "time \<Rightarrow> string option \<Rightarrow> string option \<Rightarrow> db \<Rightarrow> exn + (bool \<times> db)" where
  \<comment> \<open>the flag is \<open>created\<close>; both columns are \<open>NOT NULL\<close>\<close>
  "webhook_event_get_or_create now eid ty d =
     (case eid of
        None \<Rightarrow> Inl (IntegrityError ''not_null'')
      | Some i \<Rightarrow>
          (if tbl_exists (\<lambda>w. w_stripe_event_id w = i) (db_events d) then Inr (False, d)
           else case ty of
             None \<Rightarrow> Inl (IntegrityError ''not_null'')
           | Some t \<Rightarrow>
               bind_res (char_field 255 i) (\<lambda>_.
               bind_res (char_field 64 t) (\<lambda>_.
                 Inr (True, d\<lparr>db_events := tbl_insert set_w_id
                   \<lparr>w_id = 0, w_stripe_event_id = i, w_type = t, w_processed_at = now\<rparr>
                   (db_events d)\<rparr>)))))"

definition webhook_block :: "(json \<Rightarrow> string) \<Rightarrow> time \<Rightarrow> json \<Rightarrow> db \<Rightarrow> string outcome" where
  \<comment> \<open>the \<open>atomic\<close> block, with the detail of the reply\<close>
  "webhook_block py_str now event d =
     (case bind_res (event_id event) (\<lambda>i. bind_res (event_type event) (\<lambda>ty.
             webhook_event_get_or_create now (col_text py_str i) (col_text py_str ty) d)) of
        Inl e \<Rightarrow> (Inl e, d)
      | Inr (False, d1) \<Rightarrow> (Inr ''Already processed.'', d1)
      | Inr (True, d1) \<Rightarrow>
          (case handle_event py_str now event d1 of
             Inl e \<Rightarrow> (Inl e, d1)
           | Inr d2 \<Rightarrow> (Inr ''ok'', d2)))"

definition webhook_post ::
  "(string \<Rightarrow> string \<Rightarrow> string \<Rightarrow> exn + json) \<Rightarrow> string \<Rightarrow> (json \<Rightarrow> string) \<Rightarrow> time \<Rightarrow> string \<Rightarrow> string \<Rightarrow> db \<Rightarrow>
   (nat \<times> string) outcome" where
  \<comment> \<open>the reply: status code and detail\<close>
  "webhook_post stripe_construct secret py_str now payload signature d =
     (case construct_event stripe_construct secret payload signature of
        Inl e \<Rightarrow> (if signature_error e then (Inr (400, ''Invalid signature.''), d) else (Inl e, d))
      | Inr event \<Rightarrow>
          (case atomic (webhook_block py_str now event) d of
             (Inl e, d') \<Rightarrow> (Inl e, d')
           | (Inr detail, d') \<Rightarrow> (Inr (200, detail), d')))"


subsection \<open>The contract of a handler\<close>

definition STATUSES :: "string set" where
  "STATUSES = {ACTIVE, PAST_DUE, CANCELED, INCOMPLETE}"

definition statuses_ok :: "db \<Rightarrow> bool" where
  "statuses_ok d \<longleftrightarrow> (\<forall>s \<in> set (tb_rows (db_subs d)). s_status s \<in> STATUSES)"

definition sub_write_ok :: "db \<Rightarrow> subscription \<Rightarrow> subscription \<Rightarrow> bool" where
  \<comment> \<open>the columns are left alone or hold a known status, ids that fit, a plan of the catalogue\<close>
  "sub_write_ok d s s' \<longleftrightarrow>
     (s_status s' \<in> STATUSES \<or> s_status s' = s_status s) \<and>
     (length (s_stripe_customer_id s') \<le> 255 \<or> s_stripe_customer_id s' = s_stripe_customer_id s) \<and>
     (length (s_stripe_subscription_id s') \<le> 255 \<or>
        s_stripe_subscription_id s' = s_stripe_subscription_id s) \<and>
     (s_plan s' \<in> p_id ` set (tb_rows (db_plans d)) \<or> s_plan s' = s_plan s)"

definition sub_effect :: "db \<Rightarrow> db \<Rightarrow> bool" where
  \<comment> \<open>nothing, or an update of one subscription row that keeps its key and its organization\<close>
  "sub_effect d d' \<longleftrightarrow> d' = d \<or>
     (\<exists>s f. s \<in> set (tb_rows (db_subs d)) \<and> (\<forall>x. s_id (f x) = s_id x \<and> s_org (f x) = s_org x) \<and>
        sub_write_ok d s (f s) \<and>
        d' = d\<lparr>db_subs := tbl_update_where (\<lambda>x. s_id x = s_id s) f (db_subs d)\<rparr>)"

lemma sub_effect_refl [simp]: "sub_effect d d"
  by (simp add: sub_effect_def)

lemma sub_effect_cases:
  assumes "sub_effect d d'"
  obtains "d' = d"
  | s f where "s \<in> set (tb_rows (db_subs d))" "\<And>x. s_id (f x) = s_id x \<and> s_org (f x) = s_org x"
      "sub_write_ok d s (f s)"
      "d' = d\<lparr>db_subs := tbl_update_where (\<lambda>x. s_id x = s_id s) f (db_subs d)\<rparr>"
  using assms unfolding sub_effect_def by blast

locale webhook_handler =
  fixes handle :: handler
  assumes effect: "handle py_str now obj d = Inr d' \<Longrightarrow> sub_effect d d'"
begin

lemma handle_inv:
  assumes "db_inv d" "handle py_str now obj d = Inr d'"
  shows "db_inv d'"
  using effect [OF assms(2)] assms(1) by (auto simp: sub_effect_def intro: inv_update_sub)

lemma handle_statuses:
  assumes "keys_ok d" "statuses_ok d" "handle py_str now obj d = Inr d'"
  shows "statuses_ok d'"
proof (cases rule: sub_effect_cases [OF effect [OF assms(3)]])
  case 1
  with assms(2) show ?thesis by simp
next
  case (2 s f)
  have "set (tb_rows (db_subs d')) = insert (f s) (set (tb_rows (db_subs d)) - {s})"
    using sub_t.update_row_Un [of "db_subs d" s f] assms(1) 2(1) by (simp add: 2(4) keys_ok_def)
  with assms(2) 2(1,3) show ?thesis by (auto simp: statuses_ok_def sub_write_ok_def)
qed

lemma handle_frame:
  assumes "handle py_str now obj d = Inr d'"
  shows "db_users d' = db_users d \<and> db_orgs d' = db_orgs d \<and> db_members d' = db_members d \<and>
    db_invites d' = db_invites d \<and> db_plans d' = db_plans d \<and> db_events d' = db_events d \<and>
    db_projects d' = db_projects d \<and> db_queue d' = db_queue d \<and>
    map s_org (tb_rows (db_subs d')) = map s_org (tb_rows (db_subs d))"
  using effect [OF assms] by (auto simp: sub_effect_def)

lemma handle_one_org:
  \<comment> \<open>at most one organization's subscription changes\<close>
  assumes "keys_ok d" "handle py_str now obj d = Inr d'"
  shows "\<exists>k. \<forall>j. j \<noteq> k \<longrightarrow> for_org s_org j (db_subs d') = for_org s_org j (db_subs d)"
proof (cases rule: sub_effect_cases [OF effect [OF assms(2)]])
  case (2 s f)
  have "for_org s_org j (db_subs d') = for_org s_org j (db_subs d)" if "j \<noteq> s_org s" for j
    using sub_tenant.update_other_tenant [of "db_subs d" s j f] assms(1) 2(1,2) that
    by (simp add: 2(4) keys_ok_def)
  then show ?thesis by blast
qed simp

end

lemma find_subscription_row:
  "find_subscription py_str obj a b d = Inr (Some s) \<Longrightarrow> s \<in> set (tb_rows (db_subs d))"
  by (auto simp: find_subscription_def guard_simps sub_with_def
      split: if_splits option.splits dest!: sub_of_org_Some tbl_first_Some)

lemma save_subscription_effect:
  assumes "save_subscription now sub d = Inr d'" "s \<in> set (tb_rows (db_subs d))" "s_id sub = s_id s"
    "s_status sub \<in> STATUSES \<or> s_status sub = s_status s"
    "s_plan sub \<in> p_id ` set (tb_rows (db_plans d)) \<or> s_plan sub = s_plan s"
  shows "sub_effect d d'"
proof -
  let ?f = "\<lambda>x. x\<lparr>s_plan := s_plan sub, s_stripe_customer_id := s_stripe_customer_id sub,
                s_stripe_subscription_id := s_stripe_subscription_id sub, s_status := s_status sub,
                s_current_period_end := s_current_period_end sub, s_updated_at := now\<rparr>"
  have "d' = d\<lparr>db_subs := tbl_update_where (\<lambda>x. s_id x = s_id s) ?f (db_subs d)\<rparr>"
    and "length (s_stripe_customer_id sub) \<le> 255" "length (s_stripe_subscription_id sub) \<le> 255"
    using assms(1,3)
    by (auto simp: save_subscription_def guard_simps char_field_def split: if_splits)
  with assms(2,4,5) show ?thesis unfolding sub_effect_def
    by (intro disjI2 exI [of _ s] exI [of _ ?f]) (simp add: sub_write_ok_def)
qed

lemma status_of_range:
  "status_of v old = Inr st \<Longrightarrow> st \<in> STATUSES \<or> st = old"
  by (auto simp: status_of_def STATUS_MAP_def STATUSES_def
      split: json.splits if_splits option.splits)

lemma in_STATUSES [simp]:
  "ACTIVE \<in> STATUSES" "PAST_DUE \<in> STATUSES" "CANCELED \<in> STATUSES" "INCOMPLETE \<in> STATUSES"
  by (simp_all add: STATUSES_def)

text \<open>Whatever a handler looks up, the plan it stores is one of the catalogue or the old one.\<close>

lemma plan_lookups:
  "(case plan_by_code py_str code d of Some p \<Rightarrow> p_id p | None \<Rightarrow> old)
     \<in> p_id ` set (tb_rows (db_plans d)) \<or>
   (case plan_by_code py_str code d of Some p \<Rightarrow> p_id p | None \<Rightarrow> old) = old"
  "(case plan_for_price py_str price d of Some p \<Rightarrow> p_id p | None \<Rightarrow> old)
     \<in> p_id ` set (tb_rows (db_plans d)) \<or>
   (case plan_for_price py_str price d of Some p \<Rightarrow> p_id p | None \<Rightarrow> old) = old"
  "(case free_plan d of Some p \<Rightarrow> p_id p | None \<Rightarrow> old) \<in> p_id ` set (tb_rows (db_plans d)) \<or>
   (case free_plan d of Some p \<Rightarrow> p_id p | None \<Rightarrow> old) = old"
  by (auto simp: plan_by_code_def plan_for_price_def free_plan_def split: option.splits if_splits
      dest!: tbl_first_Some)

lemma found_cases:
  assumes "bind_res (find_subscription py_str obj a b d) (\<lambda>found. case found of
      None \<Rightarrow> Inr d | Some sub \<Rightarrow> rest sub) = Inr d'"
  obtains "d' = d" | sub where "sub \<in> set (tb_rows (db_subs d))" "rest sub = Inr d'"
proof -
  from assms obtain found where f: "find_subscription py_str obj a b d = Inr found"
    and r: "(case found of None \<Rightarrow> Inr d | Some sub \<Rightarrow> rest sub) = Inr d'"
    by (auto simp: bind_res_Inr_iff)
  show ?thesis
  proof (cases found)
    case None
    with r show ?thesis by (intro that(1)) simp
  next
    case (Some sub)
    with r f find_subscription_row [of py_str obj a b d sub] show ?thesis
      by (intro that(2) [of sub]) simp_all
  qed
qed

interpretation checkout_completed: webhook_handler handle_checkout_completed
proof
  fix py_str now obj d d' assume "handle_checkout_completed py_str now obj d = Inr d'"
  then obtain customer where "bind_res (find_subscription py_str obj JNull customer d) (\<lambda>found.
       case found of None \<Rightarrow> Inr d | Some sub \<Rightarrow>
           bind_res (py_get obj ''subscription'') (\<lambda>subscription.
           bind_res (metadata_of obj) (\<lambda>metadata.
           bind_res (py_get metadata ''plan_code'') (\<lambda>code.
             save_subscription now
               (sub\<lparr>s_stripe_customer_id := text_or py_str customer (s_stripe_customer_id sub),
                    s_stripe_subscription_id :=
                      text_or py_str subscription (s_stripe_subscription_id sub),
                    s_plan := (case plan_by_code py_str code d of
                      Some p \<Rightarrow> p_id p | None \<Rightarrow> s_plan sub),
                    s_status := ACTIVE\<rparr>) d)))) = Inr d'"
    unfolding handle_checkout_completed_def by (auto simp only: bind_res_Inr_iff)
  then show "sub_effect d d'"
    by (rule found_cases) (auto simp only: bind_res_Inr_iff sub_effect_refl
        intro!: save_subscription_effect, simp_all, use plan_lookups(1) in blast)
qed

interpretation subscription_updated: webhook_handler handle_subscription_updated
proof
  fix py_str now obj d d' assume h: "handle_subscription_updated py_str now obj d = Inr d'"
  obtain sid customer where g: "py_get obj ''id'' = Inr sid" "py_get obj ''customer'' = Inr customer"
    using h unfolding handle_subscription_updated_def by (auto simp only: bind_res_Inr_iff)
  from h show "sub_effect d d'"
    unfolding handle_subscription_updated_def g bind_res_simps
  proof (rule found_cases)
    fix sub assume sub: "sub \<in> set (tb_rows (db_subs d))"
      and r: "bind_res (py_get obj ''status'') (\<lambda>st.
           bind_res (status_of st (s_status sub)) (\<lambda>status.
           bind_res (py_get obj ''current_period_end'') (\<lambda>cpe.
           bind_res (ts_to_dt cpe) (\<lambda>period_end.
             save_subscription now
               (sub\<lparr>s_stripe_subscription_id := text_or py_str sid (s_stripe_subscription_id sub),
                    s_status := status,
                    s_current_period_end :=
                      (case period_end of None \<Rightarrow> s_current_period_end sub | Some t \<Rightarrow> Some t),
                    s_plan := (case plan_for_price py_str (price_id_of obj) d of
                      Some p \<Rightarrow> p_id p | None \<Rightarrow> s_plan sub)\<rparr>) d)))) = Inr d'"
    from r obtain st status pe where st: "status_of st (s_status sub) = Inr status"
      and sv: "save_subscription now
               (sub\<lparr>s_stripe_subscription_id := text_or py_str sid (s_stripe_subscription_id sub),
                    s_status := status,
                    s_current_period_end :=
                      (case pe of None \<Rightarrow> s_current_period_end sub | Some t \<Rightarrow> Some t),
                    s_plan := (case plan_for_price py_str (price_id_of obj) d of
                      Some p \<Rightarrow> p_id p | None \<Rightarrow> s_plan sub)\<rparr>) d = Inr d'"
      by (auto simp only: bind_res_Inr_iff)
    show "sub_effect d d'"
      by (rule save_subscription_effect [OF sv sub])
        (use status_of_range [OF st] in simp_all, use plan_lookups(2) in blast)
  qed simp
qed

interpretation subscription_deleted: webhook_handler handle_subscription_deleted
proof
  fix py_str now obj d d' assume h: "handle_subscription_deleted py_str now obj d = Inr d'"
  obtain sid customer where g: "py_get obj ''id'' = Inr sid" "py_get obj ''customer'' = Inr customer"
    using h unfolding handle_subscription_deleted_def by (auto simp only: bind_res_Inr_iff)
  from h show "sub_effect d d'"
    unfolding handle_subscription_deleted_def g bind_res_simps
    by (rule found_cases) (simp, erule save_subscription_effect, simp_all, use plan_lookups(3) in blast)
qed

interpretation invoice_failed: webhook_handler handle_invoice_payment_failed
proof
  fix py_str now obj d d' assume h: "handle_invoice_payment_failed py_str now obj d = Inr d'"
  obtain sid customer where g: "py_get obj ''subscription'' = Inr sid"
      "py_get obj ''customer'' = Inr customer"
    using h unfolding handle_invoice_payment_failed_def by (auto simp only: bind_res_Inr_iff)
  from h show "sub_effect d d'"
    unfolding handle_invoice_payment_failed_def g bind_res_simps
  proof (rule found_cases)
    fix sub assume "sub \<in> set (tb_rows (db_subs d))"
      and "Inr (d\<lparr>db_subs := tbl_update_where (\<lambda>x. s_id x = s_id sub)
             (\<lambda>x. x\<lparr>s_status := PAST_DUE, s_updated_at := now\<rparr>) (db_subs d)\<rparr>) = (Inr d' :: exn + db)"
    then show "sub_effect d d'" unfolding sub_effect_def
      by (intro disjI2 exI [of _ sub]
          exI [of _ "\<lambda>x. x\<lparr>s_status := PAST_DUE, s_updated_at := now\<rparr>"])
        (auto simp: sub_write_ok_def)
  qed simp
qed

text \<open>The dispatcher is a handler of the same contract.\<close>

lemma handler_for_known:
  "handler_for ty = Inr (Some h) \<Longrightarrow> h = handle_checkout_completed \<or> h = handle_subscription_updated \<or>
     h = handle_subscription_deleted \<or> h = handle_invoice_payment_failed"
  by (auto simp: handler_for_def HANDLERS_def split: json.splits if_splits)

interpretation dispatcher: webhook_handler handle_event
proof
  fix py_str now event d d' assume h: "handle_event py_str now event d = Inr d'"
  from h obtain ty hopt where hf: "handler_for ty = Inr hopt"
    and rest: "(case hopt of None \<Rightarrow> Inr d | Some handler \<Rightarrow>
       bind_res (py_get event ''data'') (\<lambda>data.
       bind_res (py_get (json_or data (JObj [])) ''object'') (\<lambda>ob.
         handler py_str now (json_or ob (JObj [])) d))) = Inr d'"
    unfolding handle_event_def by (auto simp only: bind_res_Inr_iff)
  show "sub_effect d d'"
  proof (cases hopt)
    case None
    with rest show ?thesis by simp
  next
    case (Some hd)
    with rest obtain obj where "hd py_str now obj d = Inr d'"
      by (auto simp only: option.simps bind_res_Inr_iff)
    moreover have "hd = handle_checkout_completed \<or> hd = handle_subscription_updated \<or>
        hd = handle_subscription_deleted \<or> hd = handle_invoice_payment_failed"
      using hf Some by (intro handler_for_known) simp
    ultimately show ?thesis
      using checkout_completed.effect subscription_updated.effect subscription_deleted.effect
        invoice_failed.effect by metis
  qed
qed


subsection \<open>Deliveries\<close>

definition recorded :: "string \<Rightarrow> db \<Rightarrow> bool" where
  "recorded i d \<longleftrightarrow> tbl_exists (\<lambda>w. w_stripe_event_id w = i) (db_events d)"

definition record_event :: "time \<Rightarrow> string \<Rightarrow> string \<Rightarrow> db \<Rightarrow> db" where
  "record_event now i t d = d\<lparr>db_events := tbl_insert set_w_id
     \<lparr>w_id = 0, w_stripe_event_id = i, w_type = t, w_processed_at = now\<rparr> (db_events d)\<rparr>"

definition has_id :: "(json \<Rightarrow> string) \<Rightarrow> json \<Rightarrow> string \<Rightarrow> bool" where
  "has_id py_str event i \<longleftrightarrow> (\<exists>v. event_id event = Inr v \<and> col_text py_str v = Some i)"

lemma recorded_record [simp]: "recorded i (record_event now i t d)"
  by (auto simp: recorded_def record_event_def tbl_exists_iff)

lemma event_id_type: "event_id event = Inr v \<Longrightarrow> \<exists>ty. event_type event = Inr ty"
  by (auto simp: event_id_def event_type_def split: json.splits)

lemma webhook_get_or_create_cases:
  assumes "webhook_event_get_or_create now eid ty d = Inr (c, d1)"
  obtains i where "eid = Some i" "recorded i d" "\<not> c" "d1 = d"
  | i t where "eid = Some i" "ty = Some t" "\<not> recorded i d" "c" "d1 = record_event now i t d"
      "length i \<le> 255" "length t \<le> 64"
proof (cases eid)
  case (Some i)
  show ?thesis
  proof (cases "recorded i d")
    case True
    with Some assms show ?thesis
      by (intro that(1) [of i]) (auto simp: webhook_event_get_or_create_def recorded_def)
  next
    case False
    with Some assms obtain t where "ty = Some t" by (cases ty) (auto simp: webhook_event_get_or_create_def recorded_def)
    with Some False assms show ?thesis
      by (intro that(2) [of i t])
        (auto simp: webhook_event_get_or_create_def recorded_def record_event_def guard_simps
          char_field_def split: if_splits)
  qed
qed (use assms in \<open>simp add: webhook_event_get_or_create_def\<close>)

lemma webhook_block_cases:
  assumes "webhook_block py_str now event d = (Inr detail, d')"
  obtains i where "has_id py_str event i" "recorded i d" "detail = ''Already processed.''" "d' = d"
  | i t where "has_id py_str event i" "\<not> recorded i d" "detail = ''ok''"
      "handle_event py_str now event (record_event now i t d) = Inr d'"
      "length i \<le> 255" "length t \<le> 64"
proof -
  let ?b = "bind_res (event_id event) (\<lambda>i. bind_res (event_type event) (\<lambda>ty.
             webhook_event_get_or_create now (col_text py_str i) (col_text py_str ty) d))"
  from assms obtain c d1 where b: "?b = Inr (c, d1)"
    by (cases ?b) (auto simp: webhook_block_def)
  then obtain v ty where v: "event_id event = Inr v"
    and g: "webhook_event_get_or_create now (col_text py_str v) (col_text py_str ty) d = Inr (c, d1)"
    by (auto simp only: bind_res_Inr_iff)
  from g show ?thesis
  proof (cases rule: webhook_get_or_create_cases)
    case (1 i)
    with b assms v show ?thesis
      by (intro that(1) [of i]) (auto simp: webhook_block_def has_id_def)
  next
    case (2 i t)
    with b assms have "handle_event py_str now event (record_event now i t d) = Inr d' \<and> detail = ''ok''"
      by (auto simp: webhook_block_def split: sum.splits)
    with 2 v show ?thesis by (intro that(2) [of i t]) (auto simp: has_id_def)
  qed
qed

lemma webhook_cases:
  assumes "webhook_post sc secret py_str now payload sg d = (res, d')"
  obtains (raised) e where "res = Inl e" "d' = d"
  | (bad_signature) "res = Inr (400, ''Invalid signature.'')" "d' = d"
  | (duplicate) event i where "construct_event sc secret payload sg = Inr event"
      "has_id py_str event i" "recorded i d" "res = Inr (200, ''Already processed.'')" "d' = d"
  | (processed) event i t where "construct_event sc secret payload sg = Inr event"
      "has_id py_str event i" "\<not> recorded i d" "res = Inr (200, ''ok'')"
      "handle_event py_str now event (record_event now i t d) = Inr d'"
      "length i \<le> 255" "length t \<le> 64"
proof (cases "construct_event sc secret payload sg")
  case (Inl e)
  with assms show ?thesis
    by (cases "signature_error e") (auto simp: webhook_post_def intro: raised bad_signature)
next
  case (Inr event)
  obtain r d1 where a: "atomic (webhook_block py_str now event) d = (r, d1)" by fastforce
  show ?thesis
  proof (cases r)
    case (Inl e)
    with a have "d1 = d" using atomic_rollback by blast
    with a Inl Inr assms show ?thesis by (intro raised [of e]) (auto simp: webhook_post_def)
  next
    case r: (Inr detail)
    with a have "webhook_block py_str now event d = (Inr detail, d1)" by (simp add: atomic_commit)
    then show ?thesis
    proof (cases rule: webhook_block_cases)
      case (1 i)
      with a r Inr assms show ?thesis by (intro duplicate [of event i]) (auto simp: webhook_post_def)
    next
      case (2 i t)
      with a r Inr assms show ?thesis by (intro processed [of event i t]) (auto simp: webhook_post_def)
    qed
  qed
qed

lemma inv_record_event: "db_inv d \<Longrightarrow> \<not> recorded i d \<Longrightarrow> db_inv (record_event now i t d)"
  unfolding record_event_def by (rule inv_insert_event) (simp_all add: recorded_def)

lemma record_event_simps [simp]:
  "db_users (record_event now i t d) = db_users d" "db_orgs (record_event now i t d) = db_orgs d"
  "db_members (record_event now i t d) = db_members d"
  "db_invites (record_event now i t d) = db_invites d" "db_plans (record_event now i t d) = db_plans d"
  "db_subs (record_event now i t d) = db_subs d" "db_projects (record_event now i t d) = db_projects d"
  "db_queue (record_event now i t d) = db_queue d"
  by (simp_all add: record_event_def)

lemma already_processed:
  assumes "construct_event sc secret payload sg = Inr event" "has_id py_str event i" "recorded i d"
  shows "webhook_post sc secret py_str now payload sg d = (Inr (200, ''Already processed.''), d)"
proof -
  from assms(2) obtain v where v: "event_id event = Inr v" "col_text py_str v = Some i"
    by (auto simp: has_id_def)
  with event_id_type obtain ty where "event_type event = Inr ty" by blast
  with assms v show ?thesis
    by (simp add: webhook_post_def webhook_block_def atomic_def webhook_event_get_or_create_def
        recorded_def)
qed

text \<open>C15. At-most-once processing: once a delivery is answered with 200, any later delivery that
  carries the same event id (another payload, signature or time, in any later database that still
  has the ledger row) is acknowledged without touching the database.\<close>

theorem webhook_idempotent:
  assumes ok: "webhook_post sc secret py_str now payload sg d = (Inr (200, detail), d')"
    and event: "construct_event sc secret payload sg = Inr event" "has_id py_str event i"
    and again: "construct_event sc secret payload' sg' = Inr event'" "has_id py_str event' i"
    and later: "set (tb_rows (db_events d')) \<subseteq> set (tb_rows (db_events d''))"
  shows "webhook_post sc secret py_str now' payload' sg' d'' =
    (Inr (200, ''Already processed.''), d'')"
proof -
  have id: "j = i" if "has_id py_str event j" for j
    using that event(2) by (auto simp: has_id_def)
  from ok have "recorded i d'"
  proof (cases rule: webhook_cases)
    case (duplicate event1 j)
    with event id show ?thesis by simp
  next
    case (processed event1 j t)
    with event id have "recorded i (record_event now i t d)" by simp
    moreover have "db_events d' = db_events (record_event now i t d)"
      using dispatcher.handle_frame [OF processed(5)] processed(1,2) event id by simp
    ultimately show ?thesis by (simp add: recorded_def)
  qed simp_all
  with later have "recorded i d''" by (auto simp: recorded_def tbl_exists_iff)
  with again show ?thesis by (rule already_processed)
qed

text \<open>A delivery that is not answered with 200 leaves no trace: a bad signature, an exception in
  a handler or a database error rolls back the ledger row with everything else, so the event is
  not lost: Stripe's retry is processed as if it were the first.\<close>

theorem webhook_failure_atomic:
  "case webhook_post sc secret py_str now payload sg d of
     (Inl e, d') \<Rightarrow> d' = d
   | (Inr (code, detail), d') \<Rightarrow> code \<in> {200, 400} \<and> (code = 400 \<longrightarrow> d' = d) \<and>
       (code = 200 \<longrightarrow> (\<exists>event. construct_event sc secret payload sg = Inr event))"
proof -
  obtain res d' where s: "webhook_post sc secret py_str now payload sg d = (res, d')" by fastforce
  have "case (res, d') of (Inl e, d') \<Rightarrow> d' = d
     | (Inr (code, detail), d') \<Rightarrow> code \<in> {200, 400} \<and> (code = 400 \<longrightarrow> d' = d) \<and>
       (code = 200 \<longrightarrow> (\<exists>event. construct_event sc secret payload sg = Inr event))"
    using s by (cases rule: webhook_cases) auto
  with s show ?thesis by simp
qed

lemma webhook_keeps:
  assumes inv: "db_inv d" "statuses_ok d"
    and step: "webhook_post sc secret py_str now payload sg d = (res, d')"
  shows "db_inv d' \<and> statuses_ok d' \<and> db_users d' = db_users d \<and> db_orgs d' = db_orgs d \<and>
    db_members d' = db_members d \<and> db_invites d' = db_invites d \<and> db_plans d' = db_plans d \<and>
    db_projects d' = db_projects d \<and>
    (\<exists>k. \<forall>j. j \<noteq> k \<longrightarrow> for_org s_org j (db_subs d') = for_org s_org j (db_subs d))"
  using step
proof (cases rule: webhook_cases)
  case (processed event i t)
  have inv1: "db_inv (record_event now i t d)" using inv processed by (intro inv_record_event)
  have st1: "statuses_ok (record_event now i t d)" using inv(2) by (simp add: statuses_ok_def)
  note keys1 = db_invD(1) [OF inv1]
  show ?thesis
    using dispatcher.handle_inv [OF inv1 processed(5)]
      dispatcher.handle_statuses [OF keys1 st1 processed(5)]
      dispatcher.handle_frame [OF processed(5)] dispatcher.handle_one_org [OF keys1 processed(5)]
    by simp
qed (use inv in simp_all)


text \<open>What a delivery can change: besides the ledger, the subscription of at most one
  organization. Users, organizations, members, invitations, plans and projects stay, the database
  invariant holds, and a subscription's status is always one of the four choices.\<close>

theorem webhook_frame:
  assumes inv: "db_inv d" "statuses_ok d"
    and step: "webhook_post sc secret py_str now payload sg d = (res, d')"
  shows "db_inv d' \<and> statuses_ok d' \<and> db_users d' = db_users d \<and> db_orgs d' = db_orgs d \<and>
    db_members d' = db_members d \<and> db_invites d' = db_invites d \<and> db_plans d' = db_plans d \<and>
    db_projects d' = db_projects d \<and>
    (\<exists>k. \<forall>j. j \<noteq> k \<longrightarrow> for_org s_org j (db_subs d') = for_org s_org j (db_subs d))"
  using assms by (rule webhook_keeps)

subsection \<open>Deliveries to evaluate\<close>

definition demo_event :: "string \<Rightarrow> string \<Rightarrow> (string \<times> json) list \<Rightarrow> json" where
  "demo_event i ty obj = JObj [(''id'', JStr i), (''type'', JStr ty),
     (''data'', JObj [(''object'', JObj obj)])]"

definition demo_update :: json where
  \<comment> \<open>Rival's subscription goes to Pro\<close>
  "demo_update = demo_event ''evt_1'' ''customer.subscription.updated''
     [(''id'', JStr ''sub_9''), (''customer'', JStr ''cus_9''), (''status'', JStr ''trialing''),
      (''current_period_end'', JInt 1700000000),
      (''metadata'', JObj [(''organization_id'', JStr ''2'')]),
      (''items'', JObj [(''data'', JList [JObj [(''price'', JObj [(''id'', JStr ''price_pro'')])]])])]"

definition demo_stripe :: "string \<Rightarrow> string \<Rightarrow> string \<Rightarrow> exn + json" where
  "demo_stripe payload sg secret =
     (if sg = ''good'' then Inr demo_update else Inl (StripeError ''SignatureVerificationError''))"

definition demo_str :: "json \<Rightarrow> string" where
  "demo_str v = ''?''"

lemma demo_construct: "construct_event demo_stripe ''whsec'' p ''good'' = Inr demo_update"
  by (simp add: construct_event_def demo_stripe_def)

lemma demo_update_id: "has_id demo_str demo_update ''evt_1''"
  by (simp add: has_id_def demo_update_def demo_event_def event_id_def col_text_def)

lemma demo_delivery:
  "fst (webhook_post demo_stripe ''whsec'' demo_str 7 [] ''good'' demo_db) = Inr (200, ''ok'')"
  by code_simp

lemma demo_statuses: "statuses_ok demo_db"
  by (simp add: statuses_ok_def demo_defs)

theorem webhook_idempotent_witness:
  "webhook_post demo_stripe ''whsec'' demo_str 99 ''retry'' ''good''
     (snd (webhook_post demo_stripe ''whsec'' demo_str 7 [] ''good'' demo_db)) =
   (Inr (200, ''Already processed.''),
    snd (webhook_post demo_stripe ''whsec'' demo_str 7 [] ''good'' demo_db))"
proof -
  obtain d' where "webhook_post demo_stripe ''whsec'' demo_str 7 [] ''good'' demo_db =
      (Inr (200, ''ok''), d')"
    using demo_delivery by (metis prod.collapse)
  from webhook_idempotent [OF this demo_construct demo_update_id demo_construct demo_update_id
      subset_refl] this
  show ?thesis by simp
qed

theorem webhook_failure_atomic_witness:
  "webhook_post demo_stripe ''whsec'' demo_str 7 [] ''forged'' demo_db =
     (Inr (400, ''Invalid signature.''), demo_db)"
proof -
  obtain res d' where s: "webhook_post demo_stripe ''whsec'' demo_str 7 [] ''forged'' demo_db = (res, d')"
    by fastforce
  have "fst (webhook_post demo_stripe ''whsec'' demo_str 7 [] ''forged'' demo_db) =
      Inr (400, ''Invalid signature.'')"
    by code_simp
  with webhook_failure_atomic [where sc = demo_stripe and secret = "''whsec''" and
      py_str = demo_str and now = 7 and payload = "[]" and sg = "''forged''" and d = demo_db] s
  show ?thesis by simp
qed

theorem webhook_frame_witness:
  "db_inv (snd (webhook_post demo_stripe ''whsec'' demo_str 7 [] ''good'' demo_db)) \<and>
   limit_of 2 ''max_projects'' (snd (webhook_post demo_stripe ''whsec'' demo_str 7 [] ''good'' demo_db)) = Some 25"
proof
  show "db_inv (snd (webhook_post demo_stripe ''whsec'' demo_str 7 [] ''good'' demo_db))"
    using webhook_frame [OF demo_inv demo_statuses prod.collapse [symmetric]] by blast
  show "limit_of 2 ''max_projects'' (snd (webhook_post demo_stripe ''whsec'' demo_str 7 [] ''good'' demo_db)) = Some 25"
    by code_simp
qed

subsection \<open>What the handlers do to limits\<close>

lemma saved_row:
  assumes inv: "db_inv d" and sub: "sub \<in> set (tb_rows (db_subs d))"
    and save: "save_subscription now new d = Inr d'" and new: "s_id new = s_id sub"
  shows "sub_of_org (s_org sub) d' = Some (sub\<lparr>s_plan := s_plan new,
      s_stripe_customer_id := s_stripe_customer_id new,
      s_stripe_subscription_id := s_stripe_subscription_id new, s_status := s_status new,
      s_current_period_end := s_current_period_end new, s_updated_at := now\<rparr>)"
    and "db_plans d' = db_plans d" and "db_events d' = db_events d" and "db_inv d'"
proof -
  let ?f = "\<lambda>x. x\<lparr>s_plan := s_plan new, s_stripe_customer_id := s_stripe_customer_id new,
                s_stripe_subscription_id := s_stripe_subscription_id new, s_status := s_status new,
                s_current_period_end := s_current_period_end new, s_updated_at := now\<rparr>"
  have d': "d' = d\<lparr>db_subs := tbl_update_where (\<lambda>x. s_id x = s_id sub) ?f (db_subs d)\<rparr>"
    using save new by (auto simp: save_subscription_def guard_simps)
  have "tbl_unique s_org (db_subs d')"
    using db_invD(4) [OF inv] by (auto simp: d' unique_ok_def intro!: sub_key.unique_update)
  moreover have "?f sub \<in> set (tb_rows (db_subs d'))" using sub by (force simp: d')
  ultimately show "sub_of_org (s_org sub) d' = Some (?f sub)"
    unfolding sub_of_org_def by (rule sub_key.first_by_key) simp
  show "db_plans d' = db_plans d" "db_events d' = db_events d" by (simp_all add: d')
  show "db_inv d'" unfolding d' by (rule inv_update_sub [OF inv]) simp_all
qed

lemma limit_of_saved:
  assumes inv: "db_inv d" and sub: "sub \<in> set (tb_rows (db_subs d))"
    and save: "save_subscription now new d = Inr d'" and new: "s_id new = s_id sub"
    and plan: "tbl_get p_id (s_plan new) (db_plans d) = Some p"
  shows "limit_of (s_org sub) key d' = plan_limit p key \<and>
    (\<exists>s. sub_of_org (s_org sub) d' = Some s \<and> s_status s = s_status new \<and> s_plan s = s_plan new \<and>
       s_stripe_subscription_id s = s_stripe_subscription_id new \<and>
       s_stripe_customer_id s = s_stripe_customer_id new)"
  using saved_row [OF inv sub save new] plan by (simp add: limit_of_def)

lemma find_by_metadata:
  assumes "map_of kvs ''metadata'' = Some (JObj md)" "map_of md ''organization_id'' = Some (JStr v)"
    "py_int v = Some k" "sub_of_org k d = Some sub"
  shows "find_subscription py_str (JObj kvs) a b d = Inr (Some sub)"
proof -
  have "v \<noteq> []" "md \<noteq> []" using assms(2,3) by (auto simp: py_int_def)
  with assms show ?thesis
    by (simp add: find_subscription_def org_id_of_def metadata_of_def py_get_def obj_get_def
        json_or_def col_int_def)
qed

lemma subscription_deleted_effect:
  assumes inv: "db_inv d"
    and obj: "map_of kvs ''metadata'' = Some (JObj md)" "map_of md ''organization_id'' = Some (JStr v)"
      "py_int v = Some k" "sub_of_org k d = Some sub"
    and free: "free_plan d = Some free" and width: "length (s_stripe_customer_id sub) \<le> 255"
  shows "\<exists>d'. handle_subscription_deleted py_str now (JObj kvs) d = Inr d' \<and>
    limit_of k key d' = plan_limit free key \<and>
    (\<exists>s. sub_of_org k d' = Some s \<and> s_status s = CANCELED \<and> s_plan s = p_id free \<and>
       s_stripe_subscription_id s = [] \<and> s_stripe_customer_id s = s_stripe_customer_id sub) \<and>
    db_projects d' = db_projects d \<and> db_members d' = db_members d"
proof -
  let ?new = "sub\<lparr>s_status := CANCELED, s_plan := p_id free, s_stripe_subscription_id := []\<rparr>"
  from obj(4) have sub: "sub \<in> set (tb_rows (db_subs d))" "s_org sub = k" by (auto dest: sub_of_org_Some)
  have "\<exists>d'. save_subscription now ?new d = Inr d'"
    using width by (simp add: save_subscription_def char_field_def)
  then obtain d' where save: "save_subscription now ?new d = Inr d'" by blast
  then have h: "handle_subscription_deleted py_str now (JObj kvs) d = Inr d'"
    using find_by_metadata [OF obj] free by (simp add: handle_subscription_deleted_def py_get_def)
  have "tbl_get p_id (p_id free) (db_plans d) = Some free"
    using free db_invD(1) [OF inv] by (auto simp: free_plan_def keys_ok_def tbl_get_iff dest: tbl_first_Some)
  with limit_of_saved [OF inv sub(1) save] sub(2) subscription_deleted.handle_frame [OF h] h
  show ?thesis by auto
qed

text \<open>A subscription that ends: the organization the event names goes back to the Free plan's limits,
  is marked canceled and forgets the Stripe subscription, and everything it owns stays. This
  happens whatever subscription the event is about: the id in the event is not compared with the
  one on record.\<close>

theorem subscription_deleted_downgrades:
  assumes inv: "db_inv d"
    and obj: "map_of kvs ''metadata'' = Some (JObj md)" "map_of md ''organization_id'' = Some (JStr v)"
      "py_int v = Some k" "sub_of_org k d = Some sub"
    and free: "free_plan d = Some free" and width: "length (s_stripe_customer_id sub) \<le> 255"
  shows "\<exists>d'. handle_subscription_deleted py_str now (JObj kvs) d = Inr d' \<and>
    limit_of k key d' = plan_limit free key \<and>
    (\<exists>s. sub_of_org k d' = Some s \<and> s_status s = CANCELED \<and> s_plan s = p_id free \<and>
       s_stripe_subscription_id s = []) \<and>
    db_projects d' = db_projects d \<and> db_members d' = db_members d"
  using subscription_deleted_effect [OF assms, of py_str now key] by blast

text \<open>The witness ends a subscription Acme no longer has: its current one is \<open>sub_1\<close>.\<close>

theorem subscription_deleted_downgrades_witness:
  "\<exists>d'. handle_subscription_deleted demo_str 7 (JObj [(''id'', JStr ''sub_old''),
      (''customer'', JStr ''cus_1''), (''metadata'', JObj [(''organization_id'', JStr ''1'')])]) demo_db = Inr d' \<and>
    limit_of 1 ''max_projects'' d' = Some 3"
proof -
  have 1: "py_int ''1'' = Some 1" by (simp add: py_int_eval)
  have 2: "sub_of_org 1 demo_db = Some (demo_sub 1 1 2 ''cus_1'' ''sub_1'')"
    "free_plan demo_db = Some (demo_plan 1 ''free'' ''Free'' (Some 3) (Some 3) [])"
    "plan_limit (demo_plan 1 ''free'' ''Free'' (Some 3) (Some 3) []) ''max_projects'' = Some 3"
    by (simp_all add: sub_of_org_def free_plan_def tbl_first_def demo_db_def demo_sub_def demo_plan_def
        FREE_PLAN_CODE_def plan_limit_def limits_get_def)
  have 3: "length (s_stripe_customer_id (demo_sub 1 1 2 ''cus_1'' ''sub_1'')) \<le> 255"
    by (simp add: demo_sub_def)
  show ?thesis
    using subscription_deleted_downgrades [OF demo_inv _ _ 1 2(1,2) 3, of
        "[(''id'', JStr ''sub_old''), (''customer'', JStr ''cus_1''),
          (''metadata'', JObj [(''organization_id'', JStr ''1'')])]"
        "[(''organization_id'', JStr ''1'')]" demo_str 7 "''max_projects''"] 2(3)
    by auto
qed

lemma subscription_updated_effect:
  assumes inv: "db_inv d"
    and obj: "map_of kvs ''metadata'' = Some (JObj md)" "map_of md ''organization_id'' = Some (JStr v)"
      "py_int v = Some k" "sub_of_org k d = Some sub"
    and event: "map_of kvs ''id'' = Some (JStr sid)" "sid \<noteq> []" "length sid \<le> 255"
      "map_of kvs ''status'' = Some (JStr st)" "map_of kvs ''current_period_end'' = None"
      "price_id_of (JObj kvs) = JStr price" "price \<noteq> []"
    and plan: "tbl_first (\<lambda>p. p_stripe_price_id p = price \<and> p_is_active p) (db_plans d) = Some p"
    and width: "length (s_stripe_customer_id sub) \<le> 255"
  shows "\<exists>d'. handle_subscription_updated py_str now (JObj kvs) d = Inr d' \<and>
    limit_of k key d' = plan_limit p key \<and>
    (\<exists>s. sub_of_org k d' = Some s \<and> s_stripe_subscription_id s = sid \<and>
       s_status s = (case map_of STATUS_MAP st of Some x \<Rightarrow> x | None \<Rightarrow> s_status sub) \<and>
       s_stripe_customer_id s = s_stripe_customer_id sub)"
proof -
  let ?st = "case map_of STATUS_MAP st of Some x \<Rightarrow> x | None \<Rightarrow> s_status sub"
  let ?new = "sub\<lparr>s_stripe_subscription_id := sid, s_status := ?st,
     s_current_period_end := s_current_period_end sub, s_plan := p_id p\<rparr>"
  from obj(4) have sub: "sub \<in> set (tb_rows (db_subs d))" "s_org sub = k" by (auto dest: sub_of_org_Some)
  have "\<exists>d'. save_subscription now ?new d = Inr d'"
    using width event(3) by (simp add: save_subscription_def char_field_def)
  then obtain d' where save: "save_subscription now ?new d = Inr d'" by blast
  have vals: "py_get (JObj kvs) ''status'' = Inr (JStr st)" "py_get (JObj kvs) ''id'' = Inr (JStr sid)"
    "py_get (JObj kvs) ''current_period_end'' = Inr JNull"
    "status_of (JStr st) (s_status sub) = Inr ?st" "ts_to_dt JNull = Inr None"
    "text_or py_str (JStr sid) (s_stripe_subscription_id sub) = sid"
    "plan_for_price py_str (JStr price) d = Some p"
    using event plan
    by (simp_all add: py_get_def obj_get_def status_of_def hashable_def ts_to_dt_def text_or_def
        col_text_def plan_for_price_def)
  obtain c where "py_get (JObj kvs) ''customer'' = Inr c" by (simp add: py_get_def)
  then have h: "handle_subscription_updated py_str now (JObj kvs) d = Inr d'"
    using find_by_metadata [OF obj] save event(6)
    by (simp add: handle_subscription_updated_def vals)
  have "tbl_get p_id (p_id p) (db_plans d) = Some p"
    using plan db_invD(1) [OF inv] by (auto simp: keys_ok_def tbl_get_iff dest: tbl_first_Some)
  with limit_of_saved [OF inv sub(1) save] sub(2) h show ?thesis by auto
qed

text \<open>An upgrade takes effect through the webhook: an update event for a known price of an active
  plan gives the organization that plan's limits, the mapped status and the event's subscription
  id; a status that Stripe may add later leaves the old one.\<close>

theorem subscription_updated_syncs:
  assumes inv: "db_inv d"
    and obj: "map_of kvs ''metadata'' = Some (JObj md)" "map_of md ''organization_id'' = Some (JStr v)"
      "py_int v = Some k" "sub_of_org k d = Some sub"
    and event: "map_of kvs ''id'' = Some (JStr sid)" "sid \<noteq> []" "length sid \<le> 255"
      "map_of kvs ''status'' = Some (JStr st)" "map_of kvs ''current_period_end'' = None"
      "price_id_of (JObj kvs) = JStr price" "price \<noteq> []"
    and plan: "tbl_first (\<lambda>p. p_stripe_price_id p = price \<and> p_is_active p) (db_plans d) = Some p"
    and width: "length (s_stripe_customer_id sub) \<le> 255"
  shows "\<exists>d'. handle_subscription_updated py_str now (JObj kvs) d = Inr d' \<and>
    limit_of k key d' = plan_limit p key \<and>
    (\<exists>s. sub_of_org k d' = Some s \<and> s_stripe_subscription_id s = sid \<and>
       s_status s = (case map_of STATUS_MAP st of Some x \<Rightarrow> x | None \<Rightarrow> s_status sub))"
  using subscription_updated_effect [OF assms, of py_str now key] by blast

theorem subscription_updated_syncs_witness:
  "\<exists>d'. handle_subscription_updated demo_str 7 (JObj [(''id'', JStr ''sub_9''),
      (''status'', JStr ''unpaid''), (''metadata'', JObj [(''organization_id'', JStr ''2'')]),
      (''items'', JObj [(''data'', JList [JObj [(''price'', JObj [(''id'', JStr ''price_biz'')])]])])])
      demo_db = Inr d' \<and> limit_of 2 ''max_projects'' d' = None"
proof -
  let ?kvs = "[(''id'', JStr ''sub_9''),
      (''status'', JStr ''unpaid''), (''metadata'', JObj [(''organization_id'', JStr ''2'')]),
      (''items'', JObj [(''data'', JList [JObj [(''price'', JObj [(''id'', JStr ''price_biz'')])]])])]"
  have 1: "py_int ''2'' = Some 2" by (simp add: py_int_eval)
  have 2: "sub_of_org 2 demo_db = Some (demo_sub 2 2 1 [] [])"
    "tbl_first (\<lambda>p. p_stripe_price_id p = ''price_biz'' \<and> p_is_active p) (db_plans demo_db) =
       Some (demo_plan 3 ''business'' ''Business'' None None ''price_biz'')"
    "plan_limit (demo_plan 3 ''business'' ''Business'' None None ''price_biz'') ''max_projects'' = None"
    by (simp_all add: sub_of_org_def tbl_first_def demo_db_def demo_sub_def demo_plan_def
        plan_limit_def limits_get_def)
  have 3: "length (s_stripe_customer_id (demo_sub 2 2 1 [] [])) \<le> 255"
    by (simp add: demo_sub_def)
  have 4: "price_id_of (JObj ?kvs) = JStr ''price_biz''"
    by (simp add: price_id_of_def item_get_def item_first_def)
  show ?thesis
    using subscription_updated_syncs [OF demo_inv _ _ 1 2(1) _ _ _ _ _ 4 _ 2(2) 3, of
        "[(''organization_id'', JStr ''2'')]" "''sub_9''" "''unpaid''" demo_str 7 "''max_projects''"] 2(3)
    by auto
qed

text \<open>An event whose metadata names an organization by something that is no number is not
  acknowledged: the lookup raises \<open>ValueError\<close> inside the transaction, nothing is recorded, and
  the delivery ends in a 500 that Stripe will retry.\<close>

theorem webhook_bad_org_id:
  assumes event: "construct_event sc secret payload sg = Inr (demo_event i ty kvs)" "kvs \<noteq> []"
    and known: "ty \<in> fst ` set HANDLERS" and new: "\<not> recorded i d" "length i \<le> 255"
    and md: "map_of kvs ''metadata'' = Some (JObj md)" "map_of md ''organization_id'' = Some (JStr v)"
      "v \<noteq> []" "py_int v = None"
  shows "webhook_post sc secret py_str now payload sg d = (Inl PyValueError, d) \<and>
    status_code PyValueError = None"
proof -
  have "md \<noteq> []" using md(2) by auto
  then have find: "find_subscription py_str (JObj kvs) a b d1 = Inl PyValueError" for a b d1
    using md by (simp add: find_subscription_def org_id_of_def metadata_of_def py_get_def obj_get_def
        json_or_def col_int_def)
  from known obtain h where h: "map_of HANDLERS ty = Some h" and
    hs: "h = handle_checkout_completed \<or> h = handle_subscription_updated \<or>
      h = handle_subscription_deleted \<or> h = handle_invoice_payment_failed"
    by (auto simp: HANDLERS_def)
  have "length ty \<le> 64" using known by (auto simp: HANDLERS_def)
  moreover have "h py_str now (JObj kvs) d1 = Inl PyValueError" for d1
    using hs find
    by (auto simp: handle_checkout_completed_def handle_subscription_updated_def
        handle_subscription_deleted_def handle_invoice_payment_failed_def py_get_def)
  ultimately have "webhook_block py_str now (demo_event i ty kvs) d =
      (Inl PyValueError, record_event now i ty d)"
    using new event(2) h
    by (simp add: webhook_block_def demo_event_def event_id_def event_type_def col_text_def
        webhook_event_get_or_create_def recorded_def char_field_def record_event_def handle_event_def
        py_get_def obj_get_def handler_for_def hashable_def json_or_def)
  with event show ?thesis by (simp add: webhook_post_def atomic_def)
qed

theorem webhook_bad_org_id_witness:
  "webhook_post (\<lambda>p s k. Inr (demo_event ''evt_7'' ''invoice.payment_failed''
      [(''metadata'', JObj [(''organization_id'', JStr ''acme'')])])) ''whsec'' demo_str 7 [] [] demo_db =
   (Inl PyValueError, demo_db)"
proof -
  have a: "construct_event (\<lambda>p s k. Inr (demo_event ''evt_7'' ''invoice.payment_failed''
      [(''metadata'', JObj [(''organization_id'', JStr ''acme'')])])) ''whsec'' [] [] =
      Inr (demo_event ''evt_7'' ''invoice.payment_failed''
      [(''metadata'', JObj [(''organization_id'', JStr ''acme'')])])"
    by (simp add: construct_event_def)
  have b: "''invoice.payment_failed'' \<in> fst ` set HANDLERS" by (simp add: HANDLERS_def)
  have c: "\<not> recorded ''evt_7'' demo_db" by (simp add: recorded_def tbl_exists_def demo_db_def tbl_empty_def)
  have e: "py_int ''acme'' = None" by (simp add: py_int_eval)
  show ?thesis using webhook_bad_org_id [OF a _ b c, of "[(''organization_id'', JStr ''acme'')]" "''acme''"] e
    by simp
qed

end
