(* ===== verification/Projects.thy ===== *)
theory Projects
  imports Tenancy Demo
begin

section \<open>Projects: the tenant-scoped resource (projects/)\<close>

text \<open>
  The five actions of \<open>ProjectViewSet\<close>, each as the generic view runs it: the permission chain, the
  scoped lookup, the object permission \<open>CanWriteProject\<close>, the validated body, the write. A body is
  what the serializer's field validation made of the request's data, or the exception it raised.
  The lemmas say what each action needs and what it leaves alone.
\<close>

definition can_write_message :: string where
  "can_write_message =
     ''Only an organization owner/admin or the project's creator can modify it.''"

definition CanWriteProject :: "request \<Rightarrow> project \<Rightarrow> bool" where
  "CanWriteProject request obj =
     (if rq_method request \<in> SAFE_METHODS then True
      else if (case rq_membership request of
                 None \<Rightarrow> False | Some membership \<Rightarrow> m_role membership \<in> {OWNER, ADMIN})
      then True
      else (case rq_user request of
              None \<Rightarrow> False | Some user \<Rightarrow> pr_created_by obj = Some (u_id user)))"

definition project_permissions :: "(permission \<times> string) list" where
  \<comment> \<open>\<open>CanWriteProject\<close> refuses nothing before the object is known\<close>
  "project_permissions = tenant_permissions @ [(\<lambda>d request. (True, request), can_write_message)]"

definition check_object_permissions :: "request \<Rightarrow> project \<Rightarrow> exn + unit" where
  "check_object_permissions request obj =
     (if CanWriteProject request obj then Inr ()
      else Inl (if rq_user request = None then NotAuthenticated
                else PermissionDenied can_write_message))"

definition project_get_object :: "db \<Rightarrow> request \<Rightarrow> string \<Rightarrow> exn + project" where
  "project_get_object d request raw =
     bind_res (get_object pr_id raw (scoped_queryset pr_org request (db_projects d))) (\<lambda>obj.
     bind_res (check_object_permissions request obj) (\<lambda>_. Inr obj))"

subsection \<open>Serializer and writes\<close>

type_synonym project_out = "key \<times> string \<times> string \<times> key option \<times> time"

definition project_repr :: "project \<Rightarrow> project_out" where
  \<comment> \<open>the serializer's fields: \<open>organization\<close> is not among them\<close>
  "project_repr p = (pr_id p, pr_name p, pr_description p, pr_created_by p, pr_created_at p)"

definition get_create_kwargs :: "request \<Rightarrow> key option" where
  \<comment> \<open>\<open>{"created_by": self.request.user}\<close>\<close>
  "get_create_kwargs request = map_option u_id (rq_user request)"

definition project_insert :: "project \<Rightarrow> db \<Rightarrow> exn + (project \<times> db)" where
  "project_insert p d =
     bind_res (char_field 255 (pr_name p)) (\<lambda>_.
       Inr (set_pr_id (tb_next (db_projects d)) p,
            d\<lparr>db_projects := tbl_insert set_pr_id p (db_projects d)\<rparr>))"

definition project_perform_create ::
  "time \<Rightarrow> request \<Rightarrow> string \<times> string \<Rightarrow> db \<Rightarrow> project outcome" where
  \<comment> \<open>nobody else runs here, so the rows \<open>lock_billing\<close> locks are read and no more; what the lock does
    to concurrent requests is \<open>cap_step\<close> in \<open>Races\<close>, which refines this definition (\<open>cap_alone\<close>)\<close>
  "project_perform_create now request validated =
     atomic (\<lambda>d.
       (case rq_organization request of
          None \<Rightarrow> (Inl PyAttributeError, d)
        | Some org \<Rightarrow>
            (let locked = lock_billing (o_id org) d
             in case check_can_create_project (o_id org) d of
                  Inl e \<Rightarrow> (Inl e, d)
                | Inr _ \<Rightarrow>
                    (case stamp_organization request
                       (\<lambda>organization created_by. \<lparr>pr_id = 0, pr_org = organization,
                          pr_name = fst validated, pr_description = snd validated,
                          pr_created_by = created_by, pr_created_at = now\<rparr>)
                       (get_create_kwargs request) of
                       Inl e \<Rightarrow> (Inl e, d)
                     | Inr p \<Rightarrow>
                         (case project_insert p d of
                            Inl e \<Rightarrow> (Inl e, d)
                          | Inr (p', d') \<Rightarrow> (Inr p', d'))))))"

subsection \<open>Actions\<close>

definition project_list :: "db \<Rightarrow> request \<Rightarrow> exn + project_out list" where
  "project_list d r0 =
     bind_res (check_permissions project_permissions d r0) (\<lambda>request.
       Inr (map project_repr (order_by (\<lambda>p. - pr_created_at p)
         (scoped_queryset pr_org request (db_projects d)))))"

definition project_retrieve :: "string \<Rightarrow> db \<Rightarrow> request \<Rightarrow> exn + project_out" where
  "project_retrieve raw d r0 =
     bind_res (check_permissions project_permissions d r0) (\<lambda>request.
     bind_res (project_get_object d request raw) (\<lambda>obj. Inr (project_repr obj)))"

definition project_create ::
  "time \<Rightarrow> exn + (string \<times> string) \<Rightarrow> db \<Rightarrow> request \<Rightarrow> project_out outcome" where
  "project_create now body d r0 =
     (case check_permissions project_permissions d r0 of
        Inl e \<Rightarrow> (Inl e, d)
      | Inr request \<Rightarrow>
          (case body of
             Inl e \<Rightarrow> (Inl e, d)
           | Inr validated \<Rightarrow>
               (case project_perform_create now request validated d of
                  (Inl e, d') \<Rightarrow> (Inl e, d')
                | (Inr p, d') \<Rightarrow> (Inr (project_repr p), d'))))"

definition project_update ::
  "string \<Rightarrow> exn + (string option \<times> string option) \<Rightarrow> db \<Rightarrow> request \<Rightarrow> project_out outcome" where
  \<comment> \<open>\<open>PUT\<close> and \<open>PATCH\<close>: the writable fields the body gave\<close>
  "project_update raw body d r0 =
     (case bind_res (check_permissions project_permissions d r0)
             (\<lambda>request. project_get_object d request raw) of
        Inl e \<Rightarrow> (Inl e, d)
      | Inr obj \<Rightarrow>
          (case body of
             Inl e \<Rightarrow> (Inl e, d)
           | Inr (name, description) \<Rightarrow>
               (let obj' = obj\<lparr>pr_name := (case name of None \<Rightarrow> pr_name obj | Some v \<Rightarrow> v),
                     pr_description := (case description of None \<Rightarrow> pr_description obj | Some v \<Rightarrow> v)\<rparr>
                in case char_field 255 (pr_name obj') of
                     Inl e \<Rightarrow> (Inl e, d)
                   | Inr _ \<Rightarrow>
                       (Inr (project_repr obj'),
                        d\<lparr>db_projects := tbl_update_where (\<lambda>x. pr_id x = pr_id obj) (\<lambda>_. obj')
                            (db_projects d)\<rparr>))))"

definition project_destroy :: "string \<Rightarrow> db \<Rightarrow> request \<Rightarrow> unit outcome" where
  "project_destroy raw d r0 =
     (case bind_res (check_permissions project_permissions d r0)
             (\<lambda>request. project_get_object d request raw) of
        Inl e \<Rightarrow> (Inl e, d)
      | Inr obj \<Rightarrow>
          (Inr (), d\<lparr>db_projects :=
             tbl_delete_where (\<lambda>x. pr_id x = pr_id obj) (db_projects d)\<rparr>))"

subsection \<open>The routes\<close>

datatype project_call =
    Project_List
  | Project_Retrieve string
  | Project_Create time "exn + (string \<times> string)"
  | Project_Update http_method string "exn + (string option \<times> string option)"
  | Project_Destroy string

datatype project_reply = Reply_List "project_out list" | Reply_One project_out | Reply_Gone

definition map_outcome :: "('a \<Rightarrow> 'b) \<Rightarrow> 'a outcome \<Rightarrow> 'b outcome" where
  "map_outcome f x = (map_sum id f (fst x), snd x)"

fun project_call_ok :: "project_call \<Rightarrow> bool" where
  \<comment> \<open>the router sends \<open>PUT\<close> and \<open>PATCH\<close> to the update action\<close>
  "project_call_ok (Project_Update meth _ _) = (meth \<in> {PUT, PATCH})"
| "project_call_ok _ = True"

fun project_step ::
  "project_call \<Rightarrow> user option \<Rightarrow> string option \<Rightarrow> db \<Rightarrow> project_reply outcome" where
  "project_step Project_List u h d =
     (map_sum id Reply_List (project_list d (fresh_request GET u h)), d)"
| "project_step (Project_Retrieve raw) u h d =
     (map_sum id Reply_One (project_retrieve raw d (fresh_request GET u h)), d)"
| "project_step (Project_Create now body) u h d =
     map_outcome Reply_One (project_create now body d (fresh_request POST u h))"
| "project_step (Project_Update meth raw body) u h d =
     map_outcome Reply_One (project_update raw body d (fresh_request meth u h))"
| "project_step (Project_Destroy raw) u h d =
     map_outcome (\<lambda>_. Reply_Gone) (project_destroy raw d (fresh_request DELETE u h))"

subsection \<open>Guards\<close>

lemma project_permissions_eq:
  "check_permissions project_permissions d r = check_permissions tenant_permissions d r"
  by (simp add: project_permissions_def tenant_permissions_def split: prod.splits bool.splits)

definition active :: "request \<Rightarrow> organization \<Rightarrow> membership \<Rightarrow> request" where
  "active r org m = r\<lparr>rq_organization := Some org, rq_membership := Some m\<rparr>"

lemma active_simps [simp]:
  "rq_organization (active r org m) = Some org"
  "rq_membership (active r org m) = Some m"
  "rq_user (active r org m) = rq_user r"
  "rq_method (active r org m) = rq_method r"
  by (simp_all add: active_def)

lemma project_permissions_Inr:
  "check_permissions project_permissions d r = Inr r' \<longleftrightarrow>
     (\<exists>u org m. resolves d r u org m \<and> r' = active r org m)"
  unfolding project_permissions_eq tenant_permissions_Inr active_def ..

lemma project_permissions_resolved:
  "resolves d r u org m \<Longrightarrow> check_permissions project_permissions d r = Inr (active r org m)"
  by (auto simp: project_permissions_Inr)

lemma project_permissions_refused:
  "(\<nexists>u org m. resolves d r u org m) \<Longrightarrow>
   check_permissions project_permissions d r =
     Inl (if rq_user r = None then NotAuthenticated else PermissionDenied org_member_message)"
  using tenant_permissions_Inl [of d r] by (auto simp: project_permissions_eq)

lemma project_get_object_Inr:
  assumes "project_get_object d (active r org m) raw = Inr obj"
  shows "obj \<in> set (tb_rows (db_projects d))" "pr_org obj = o_id org"
    "py_int raw = Some (pr_id obj)" "CanWriteProject (active r org m) obj"
proof -
  from assms have g: "get_object pr_id raw (scoped_queryset pr_org (active r org m) (db_projects d)) = Inr obj"
    and c: "check_object_permissions (active r org m) obj = Inr ()"
    by (auto simp: project_get_object_def guard_simps)
  from get_object_Inr [OF g] scoped_queryset_rows [of "active r org m" org obj pr_org "db_projects d"]
  show "obj \<in> set (tb_rows (db_projects d))" "pr_org obj = o_id org" "py_int raw = Some (pr_id obj)"
    by auto
  from c show "CanWriteProject (active r org m) obj"
    by (auto simp: check_object_permissions_def split: if_splits)
qed

lemma project_get_object_404:
  assumes "\<And>p. p \<in> set (tb_rows (db_projects d)) \<Longrightarrow> pr_org p = o_id org \<Longrightarrow>
    py_int raw \<noteq> Some (pr_id p)"
  shows "project_get_object d (active r org m) raw = Inl Http404"
proof -
  have "get_object pr_id raw (scoped_queryset pr_org (active r org m) (db_projects d)) = Inl Http404"
    using assms scoped_queryset_rows [of "active r org m" org _ pr_org "db_projects d"]
    by (auto simp: get_object_Inl)
  then show ?thesis by (simp add: project_get_object_def)
qed

lemma CanWriteProject_active:
  assumes "rq_method r \<notin> SAFE_METHODS" "rq_user r = Some u"
  shows "CanWriteProject (active r org m) p \<longleftrightarrow>
     is_admin_or_owner m \<or> pr_created_by p = Some (u_id u)"
  using assms by (simp add: CanWriteProject_def is_admin_or_owner_def)

subsection \<open>Writes\<close>

lemma project_perform_create_Inr:
  assumes "project_perform_create now (active r org m) v d = (Inr p, d')"
  shows "check_can_create_project (o_id org) d = Inr ()"
    "p = \<lparr>pr_id = tb_next (db_projects d), pr_org = o_id org, pr_name = fst v,
          pr_description = snd v, pr_created_by = map_option u_id (rq_user r), pr_created_at = now\<rparr>"
    "d' = d\<lparr>db_projects := (db_projects d)\<lparr>tb_rows := tb_rows (db_projects d) @ [p],
              tb_next := tb_next (db_projects d) + 1\<rparr>\<rparr>"
    "length (fst v) \<le> 255"
  using assms
  by (auto simp: project_perform_create_def atomic_commit Let_def stamp_organization_def
      get_create_kwargs_def project_insert_def char_field_def tbl_insert_def guard_simps
      split: sum.splits if_splits prod.splits)

lemma project_perform_create_Inl:
  "project_perform_create now r v d = (Inl e, d') \<Longrightarrow> d' = d"
  unfolding project_perform_create_def by (rule atomic_rollback)

lemma project_create_cases:
  obtains (refused) e where "project_create now body d r = (Inl e, d)"
  | (created) u org m v p d' where "resolves d r u org m" "body = Inr v"
      "project_perform_create now (active r org m) v d = (Inr p, d')"
      "project_create now body d r = (Inr (project_repr p), d')"
proof (cases "check_permissions project_permissions d r")
  case (Inl e)
  then show ?thesis by (intro refused) (simp add: project_create_def)
next
  case (Inr r')
  then obtain u org m where res: "resolves d r u org m" and r': "r' = active r org m"
    by (auto simp: project_permissions_Inr)
  show ?thesis
  proof (cases body)
    case (Inl e)
    with Inr show ?thesis by (intro refused) (simp add: project_create_def)
  next
    case body: (Inr v)
    obtain res' d' where pc: "project_perform_create now r' v d = (res', d')"
      by (cases "project_perform_create now r' v d")
    show ?thesis
    proof (cases res')
      case (Inl e)
      with pc Inr body show ?thesis
        using project_perform_create_Inl [of now r' v d e d']
        by (intro refused) (simp add: project_create_def)
    next
      case p: (Inr p)
      with pc Inr body show ?thesis
        using res r' by (intro created [of u org m v p d']) (simp_all add: project_create_def)
    qed
  qed
qed

lemma project_update_cases:
  obtains (refused) e where "project_update raw body d r = (Inl e, d)"
  | (updated) u org m obj obj' where "resolves d r u org m"
      "obj \<in> set (tb_rows (db_projects d))" "pr_org obj = o_id org" "py_int raw = Some (pr_id obj)"
      "CanWriteProject (active r org m) obj"
      "pr_id obj' = pr_id obj" "pr_org obj' = pr_org obj" "pr_created_by obj' = pr_created_by obj"
      "pr_created_at obj' = pr_created_at obj"
      "project_update raw body d r = (Inr (project_repr obj'),
         d\<lparr>db_projects := tbl_update_where (\<lambda>x. pr_id x = pr_id obj) (\<lambda>_. obj') (db_projects d)\<rparr>)"
      "length (pr_name obj') \<le> 255"
proof (cases "bind_res (check_permissions project_permissions d r)
             (\<lambda>request. project_get_object d request raw)")
  case (Inl e)
  then show ?thesis by (intro refused) (simp add: project_update_def)
next
  case (Inr obj)
  then obtain u org m where res: "resolves d r u org m"
    and go: "project_get_object d (active r org m) raw = Inr obj"
    by (auto simp: guard_simps project_permissions_Inr)
  show ?thesis
  proof (cases body)
    case (Inl e)
    with Inr show ?thesis by (intro refused) (simp add: project_update_def)
  next
    case b: (Inr nd)
    obtain n de where nd: "nd = (n, de)" by (cases nd)
    define obj' where "obj' = obj\<lparr>pr_name := (case n of None \<Rightarrow> pr_name obj | Some v \<Rightarrow> v),
                     pr_description := (case de of None \<Rightarrow> pr_description obj | Some v \<Rightarrow> v)\<rparr>"
    show ?thesis
    proof (cases "char_field 255 (pr_name obj')")
      case (Inl e)
      with Inr b nd show ?thesis
        by (intro refused) (simp add: project_update_def obj'_def Let_def)
    next
      case c: (Inr x)
      show ?thesis
        by (rule updated [OF res project_get_object_Inr [OF go], of obj'])
          (use Inr b nd c in \<open>simp_all add: project_update_def obj'_def Let_def char_field_def split: if_splits\<close>)
    qed
  qed
qed

lemma project_destroy_cases:
  obtains (refused) e where "project_destroy raw d r = (Inl e, d)"
  | (destroyed) u org m obj where "resolves d r u org m"
      "obj \<in> set (tb_rows (db_projects d))" "pr_org obj = o_id org" "py_int raw = Some (pr_id obj)"
      "CanWriteProject (active r org m) obj"
      "project_destroy raw d r = (Inr (),
         d\<lparr>db_projects := tbl_delete_where (\<lambda>x. pr_id x = pr_id obj) (db_projects d)\<rparr>)"
proof (cases "bind_res (check_permissions project_permissions d r)
             (\<lambda>request. project_get_object d request raw)")
  case (Inl e)
  then show ?thesis by (intro refused) (simp add: project_destroy_def)
next
  case (Inr obj)
  then obtain u org m where res: "resolves d r u org m"
    and go: "project_get_object d (active r org m) raw = Inr obj"
    by (auto simp: guard_simps project_permissions_Inr)
  show ?thesis
    by (rule destroyed [OF res project_get_object_Inr [OF go]])
      (use Inr in \<open>simp add: project_destroy_def\<close>)
qed

subsection \<open>Properties\<close>

definition project_effect :: "db \<Rightarrow> db \<Rightarrow> bool" where
  \<comment> \<open>nothing but the project table changed\<close>
  "project_effect d d' \<longleftrightarrow> d' = d\<lparr>db_projects := db_projects d'\<rparr>"

lemma project_effect_refl [simp]: "project_effect d d"
  by (simp add: project_effect_def)

lemma project_effect_update [simp]: "project_effect d (d\<lparr>db_projects := t\<rparr>)"
  by (simp add: project_effect_def)

lemma map_outcome_simps [simp]:
  "map_outcome f (Inl e, d) = (Inl e, d)" "map_outcome f (Inr x, d) = (Inr (f x), d)"
  by (simp_all add: map_outcome_def)

lemma resolves_fresh_method:
  "resolves d (fresh_request meth u h) usr org m \<Longrightarrow> resolves d (fresh_request GET u h) usr org m"
  by (simp add: resolves_def fresh_request_def)

text \<open>
  One action either leaves the database as it was, or the caller resolved an organization and the
  action inserted, rewrote or deleted one project of exactly that organization.
\<close>

lemma project_step_cases:
  assumes "project_step call u h d = (res, d')"
  obtains (same) "d' = d"
  | (create) usr org m p where "resolves d (fresh_request GET u h) usr org m"
      "check_can_create_project (o_id org) d = Inr ()" "pr_org p = o_id org"
      "d' = d\<lparr>db_projects := tbl_insert set_pr_id p (db_projects d)\<rparr>"
      "length (pr_name p) \<le> 255" "pr_created_by p = map_option u_id u"
  | (update) usr org m obj obj' where "resolves d (fresh_request GET u h) usr org m"
      "obj \<in> set (tb_rows (db_projects d))" "pr_org obj = o_id org"
      "pr_id obj' = pr_id obj" "pr_org obj' = pr_org obj"
      "d' = d\<lparr>db_projects := tbl_update_where (\<lambda>x. pr_id x = pr_id obj) (\<lambda>_. obj') (db_projects d)\<rparr>"
      "length (pr_name obj') \<le> 255" "pr_created_by obj' = pr_created_by obj"
  | (delete) usr org m obj where "resolves d (fresh_request GET u h) usr org m"
      "obj \<in> set (tb_rows (db_projects d))" "pr_org obj = o_id org"
      "d' = d\<lparr>db_projects := tbl_delete_where (\<lambda>x. pr_id x = pr_id obj) (db_projects d)\<rparr>"
proof (cases call)
  case (Project_Create now body)
  show ?thesis
  proof (cases rule: project_create_cases [of now body d "fresh_request POST u h"])
    case (refused e)
    with assms Project_Create show ?thesis by (intro same) simp
  next
    case (created usr org m v p d2)
    from project_perform_create_Inr [OF created(3)]
    have "d2 = d\<lparr>db_projects := tbl_insert set_pr_id p (db_projects d)\<rparr>" "pr_org p = o_id org"
      "length (pr_name p) \<le> 255" "pr_created_by p = map_option u_id u"
      by (simp_all add: tbl_insert_def fresh_request_def)
    with assms Project_Create created project_perform_create_Inr(1) [OF created(3)] show ?thesis
      by (intro create [OF resolves_fresh_method [OF created(1)], of p]) auto
  qed
next
  case (Project_Update meth raw body)
  show ?thesis
  proof (cases rule: project_update_cases [of raw body d "fresh_request meth u h"])
    case (refused e)
    with assms Project_Update show ?thesis by (intro same) simp
  next
    case (updated usr org m obj obj')
    with assms Project_Update show ?thesis
      by (intro update [OF resolves_fresh_method [OF updated(1)], of obj obj']) auto
  qed
next
  case (Project_Destroy raw)
  show ?thesis
  proof (cases rule: project_destroy_cases [of raw d "fresh_request DELETE u h"])
    case (refused e)
    with assms Project_Destroy show ?thesis by (intro same) simp
  next
    case (destroyed usr org m obj)
    with assms Project_Destroy show ?thesis
      by (intro delete [OF resolves_fresh_method [OF destroyed(1)], of obj]) auto
  qed
next
  case Project_List
  with assms show ?thesis by (intro same) simp
next
  case (Project_Retrieve raw)
  with assms show ?thesis by (intro same) simp
qed

definition same_at :: "user \<Rightarrow> key \<Rightarrow> db \<Rightarrow> db \<Rightarrow> bool" where
  \<comment> \<open>the databases agree on what organization \<open>k\<close> owns, on the user's own role there and on the plans\<close>
  "same_at u k d d' \<longleftrightarrow>
     find_membership (u_id u) k d' = find_membership (u_id u) k d \<and>
     tbl_get o_id k (db_orgs d') = tbl_get o_id k (db_orgs d) \<and>
     sub_of_org k d' = sub_of_org k d \<and> db_plans d' = db_plans d \<and>
     for_org pr_org k (db_projects d') = for_org pr_org k (db_projects d)"

definition same_for :: "user option \<Rightarrow> string option \<Rightarrow> db \<Rightarrow> db \<Rightarrow> bool" where
  \<comment> \<open>they agree on the organization the header names, if a user sent one\<close>
  "same_for caller h d d' \<longleftrightarrow>
     (\<forall>u raw k. caller = Some u \<and> h = Some raw \<and> py_int raw = Some k \<longrightarrow> same_at u k d d')"

definition creates :: "project_call \<Rightarrow> bool" where
  "creates call \<longleftrightarrow> (case call of Project_Create _ _ \<Rightarrow> True | _ \<Rightarrow> False)"

fun with_key :: "key \<Rightarrow> project_reply \<Rightarrow> project_reply" where
  "with_key k (Reply_One (_, rest)) = Reply_One (k, rest)"
| "with_key k reply = reply"

lemma creates_simps [simp]:
  "creates (Project_Create now body)" "\<not> creates Project_List" "\<not> creates (Project_Retrieve raw)"
  "\<not> creates (Project_Update meth raw b)" "\<not> creates (Project_Destroy raw)"
  by (simp_all add: creates_def)

lemma same_for_resolves:
  assumes "same_for caller h d d'"
  shows "resolves d' (fresh_request meth caller h) usr org m \<longleftrightarrow>
    resolves d (fresh_request meth caller h) usr org m"
  using assms by (auto simp: resolves_def fresh_request_def same_for_def same_at_def)

lemma same_for_active:
  assumes "same_for caller h d d'" and r: "resolves d (fresh_request meth caller h) usr org m"
  shows "same_at usr (o_id org) d d'"
    "\<And>rq. rq_organization rq = Some org \<Longrightarrow>
      scoped_queryset pr_org rq (db_projects d') = scoped_queryset pr_org rq (db_projects d)"
    "check_can_create_project (o_id org) d' = check_can_create_project (o_id org) d"
proof -
  from r show same: "same_at usr (o_id org) d d'"
    using assms(1) by (rule_tac resolvesE [OF r]) (auto simp: same_for_def fresh_request_def)
  then have rows: "for_org pr_org (o_id org) (db_projects d') = for_org pr_org (o_id org) (db_projects d)"
    and lim: "limit_of (o_id org) ''max_projects'' d' = limit_of (o_id org) ''max_projects'' d"
    using limit_of_cong [of "o_id org" d' d] by (simp_all add: same_at_def)
  from rows show "rq_organization rq = Some org \<Longrightarrow>
      scoped_queryset pr_org rq (db_projects d') = scoped_queryset pr_org rq (db_projects d)" for rq
    by (simp add: scoped_queryset_def for_org_def)
  from rows have "project_count (o_id org) d' = project_count (o_id org) d"
    by (simp add: project_count_def project_tenant.count_for_org)
  with lim show "check_can_create_project (o_id org) d' = check_can_create_project (o_id org) d"
    by (simp add: check_can_create_project_def split: option.split)
qed

lemma same_for_objects:
  assumes "same_for caller h d d'"
  shows "bind_res (check_permissions project_permissions d' (fresh_request meth caller h))
      (\<lambda>request. project_get_object d' request raw) =
    bind_res (check_permissions project_permissions d (fresh_request meth caller h))
      (\<lambda>request. project_get_object d request raw)"
proof (cases "\<exists>usr org m. resolves d (fresh_request meth caller h) usr org m")
  case True
  then obtain usr org m where r: "resolves d (fresh_request meth caller h) usr org m" by blast
  with same_for_resolves [OF assms] have r': "resolves d' (fresh_request meth caller h) usr org m" by simp
  show ?thesis
    using same_for_active(2) [OF assms r, of "active (fresh_request meth caller h) org m"]
    by (simp add: project_permissions_resolved [OF r] project_permissions_resolved [OF r']
        project_get_object_def)
next
  case False
  with same_for_resolves [OF assms] have
    "check_permissions project_permissions d' (fresh_request meth caller h) =
     check_permissions project_permissions d (fresh_request meth caller h)"
    by (simp add: project_permissions_refused)
  with False show ?thesis by (simp add: project_permissions_refused)
qed

lemma same_for_write:
  assumes "same_for caller h d d'" and r: "resolves d (fresh_request meth caller h) usr org m"
    and "for_org pr_org (o_id org) t' = for_org pr_org (o_id org) t"
  shows "same_for caller h (d\<lparr>db_projects := t\<rparr>) (d'\<lparr>db_projects := t'\<rparr>)"
proof -
  have "u = usr \<and> k = o_id org" if "caller = Some u" "h = Some raw" "py_int raw = Some k" for u raw k
    using that by (rule_tac resolvesE [OF r]) (simp add: fresh_request_def)
  moreover have "same_at usr (o_id org) (d\<lparr>db_projects := t\<rparr>) (d'\<lparr>db_projects := t'\<rparr>)"
    using same_for_active(1) [OF assms(1) r] assms(3)
    by (simp add: same_at_def sub_of_org_def find_membership_def)
  ultimately show ?thesis unfolding same_for_def by blast
qed

lemma project_get_object_chain:
  assumes "bind_res (check_permissions project_permissions d (fresh_request meth caller h))
      (\<lambda>request. project_get_object d request raw) = Inr obj"
  obtains usr org m where "resolves d (fresh_request meth caller h) usr org m"
    "obj \<in> set (tb_rows (db_projects d))" "pr_org obj = o_id org"
proof -
  from assms obtain usr org m where r: "resolves d (fresh_request meth caller h) usr org m"
    and g: "project_get_object d (active (fresh_request meth caller h) org m) raw = Inr obj"
    by (auto simp: guard_simps project_permissions_Inr)
  from that [OF r project_get_object_Inr(1,2) [OF g]] show ?thesis .
qed

lemma update_same_for:
  assumes "keys_ok d" "keys_ok d'" and same: "same_for caller h d d'"
    and "project_update raw body d (fresh_request meth caller h) = (res, e)"
    and "project_update raw body d' (fresh_request meth caller h) = (res', e')"
  shows "res' = res \<and> same_for caller h e e'"
proof -
  let ?find = "\<lambda>d. bind_res (check_permissions project_permissions d (fresh_request meth caller h))
      (\<lambda>request. project_get_object d request raw)"
  have wf: "tbl_wf pr_id (db_projects d)" "tbl_wf pr_id (db_projects d')"
    using assms(1,2) by (simp_all add: keys_ok_def)
  note found = same_for_objects [OF same, of meth raw]
  show ?thesis
  proof (cases "?find d")
    case (Inl x)
    with assms(4,5) same found show ?thesis by (simp add: project_update_def)
  next
    case (Inr obj)
    obtain usr org m where r: "resolves d (fresh_request meth caller h) usr org m"
      and obj: "obj \<in> set (tb_rows (db_projects d))" "pr_org obj = o_id org"
      using Inr by (rule project_get_object_chain)
    have Inr': "?find d' = Inr obj" using Inr found by simp
    then have obj': "obj \<in> set (tb_rows (db_projects d'))" by (rule project_get_object_chain)
    have rows: "for_org pr_org (o_id org) (db_projects d') = for_org pr_org (o_id org) (db_projects d)"
      using same_for_active(1) [OF same r] by (simp add: same_at_def)
    have "same_for caller h (d\<lparr>db_projects := tbl_update_where (\<lambda>x. pr_id x = pr_id obj) (\<lambda>_. p) (db_projects d)\<rparr>)
        (d'\<lparr>db_projects := tbl_update_where (\<lambda>x. pr_id x = pr_id obj) (\<lambda>_. p) (db_projects d')\<rparr>)"
      if "pr_org p = o_id org" for p
      using that obj obj' rows
      by (intro same_for_write [OF same r])
        (simp add: project_tenant.update_own_tenant [OF wf(1)] project_tenant.update_own_tenant [OF wf(2)])
    with obj(2) same Inr Inr' assms(4,5) show ?thesis
      by (auto simp: project_update_def Let_def split: sum.splits prod.splits)
  qed
qed

lemma destroy_same_for:
  assumes same: "same_for caller h d d'"
    and "project_destroy raw d (fresh_request meth caller h) = (res, e)"
    and "project_destroy raw d' (fresh_request meth caller h) = (res', e')"
  shows "res' = res \<and> same_for caller h e e'"
proof -
  let ?find = "\<lambda>d. bind_res (check_permissions project_permissions d (fresh_request meth caller h))
      (\<lambda>request. project_get_object d request raw)"
  note found = same_for_objects [OF same, of meth raw]
  show ?thesis
  proof (cases "?find d")
    case (Inl x)
    with assms found show ?thesis by (simp add: project_destroy_def)
  next
    case (Inr obj)
    obtain usr org m where r: "resolves d (fresh_request meth caller h) usr org m"
      using Inr by (rule project_get_object_chain)
    have "same_for caller h (d\<lparr>db_projects := tbl_delete_where (\<lambda>x. pr_id x = pr_id obj) (db_projects d)\<rparr>)
        (d'\<lparr>db_projects := tbl_delete_where (\<lambda>x. pr_id x = pr_id obj) (db_projects d')\<rparr>)"
      using same_for_active(1) [OF same r]
      by (intro same_for_write [OF same r]) (simp add: project_tenant.delete_own_tenant same_at_def)
    with Inr found assms(2,3) show ?thesis by (auto simp: project_destroy_def)
  qed
qed

lemma create_same_for:
  assumes same: "same_for caller h d d'"
    and "project_create now body d (fresh_request POST caller h) = (res, e)"
    and "project_create now body d' (fresh_request POST caller h) = (res', e')"
  shows "map_sum id Reply_One res' = map_sum id (with_key (tb_next (db_projects d'))) (map_sum id Reply_One res) \<and>
    (tb_next (db_projects d') = tb_next (db_projects d) \<longrightarrow> same_for caller h e e')"
proof (cases "\<exists>usr org m. resolves d (fresh_request POST caller h) usr org m")
  case True
  then obtain usr org m where r: "resolves d (fresh_request POST caller h) usr org m" by blast
  let ?r = "active (fresh_request POST caller h) org m"
  have r': "resolves d' (fresh_request POST caller h) usr org m"
    using r same_for_resolves [OF same] by simp
  note cap = same_for_active(3) [OF same r]
  show ?thesis
  proof (cases body)
    case (Inl x)
    with assms show ?thesis
      by (auto simp: project_create_def project_permissions_resolved [OF r] project_permissions_resolved [OF r'])
  next
    case (Inr v)
    have "same_for caller h (d\<lparr>db_projects := tbl_insert set_pr_id p (db_projects d)\<rparr>)
        (d'\<lparr>db_projects := tbl_insert set_pr_id p (db_projects d')\<rparr>)"
      if "tb_next (db_projects d') = tb_next (db_projects d)" for p
      using same_for_active(1) [OF same r] that
      by (intro same_for_write [OF same r]) (simp add: project_tenant.insert_tenant same_at_def)
    with same Inr assms(2,3) cap show ?thesis
      by (auto simp: project_create_def project_permissions_resolved [OF r] project_permissions_resolved [OF r']
          project_perform_create_def atomic_def Let_def stamp_organization_def project_insert_def
          project_repr_def get_create_kwargs_def guard_simps split: sum.splits)
  qed
next
  case False
  with same_for_resolves [OF same] have none: "\<nexists>usr org m. resolves d' (fresh_request POST caller h) usr org m"
    by simp
  from False assms show ?thesis
    by (auto simp: project_create_def project_permissions_refused [OF False] project_permissions_refused [OF none])
qed

text \<open>C1. Isolation of the project endpoints, step by step: the reply to any project request depends on
  what the named organization owns, on the caller's own role there and on the plan catalogue, and on
  nothing else in the database: not on other tenants' rows, not on other users or members. Only the
  key of a created project comes from a counter all tenants share. What the organization owns
  afterwards depends on the same things (and the counter) only, so this holds request after request.\<close>

theorem project_replies_depend_on_own_tenant_only:
  assumes "keys_ok d" "keys_ok d'" and same: "same_for caller h d d'"
    and "project_step call caller h d = (res, e)" "project_step call caller h d' = (res', e')"
  shows "res' = (if creates call then map_sum id (with_key (tb_next (db_projects d'))) res else res) \<and>
    ((creates call \<longrightarrow> tb_next (db_projects d') = tb_next (db_projects d)) \<longrightarrow> same_for caller h e e')"
proof (cases call)
  case Project_List
  have "project_list d' (fresh_request GET caller h) = project_list d (fresh_request GET caller h)"
  proof (cases "\<exists>usr org m. resolves d (fresh_request GET caller h) usr org m")
    case True
    then obtain usr org m where r: "resolves d (fresh_request GET caller h) usr org m" by blast
    with same_for_resolves [OF same] have r': "resolves d' (fresh_request GET caller h) usr org m" by simp
    show ?thesis
      using same_for_active(2) [OF same r, of "active (fresh_request GET caller h) org m"]
      by (simp add: project_list_def project_permissions_resolved [OF r] project_permissions_resolved [OF r'])
  next
    case False
    with same_for_resolves [OF same] have none: "\<nexists>usr org m. resolves d' (fresh_request GET caller h) usr org m"
      by simp
    show ?thesis
      by (simp add: project_list_def project_permissions_refused [OF False] project_permissions_refused [OF none])
  qed
  with assms(3-5) Project_List show ?thesis by auto
next
  case (Project_Retrieve raw)
  then show ?thesis using same_for_objects [OF same, of GET raw] assms(3-5)
    by (auto simp: project_retrieve_def bind_res_assoc [symmetric])
next
  case (Project_Create now body)
  with create_same_for [OF same, of now body] assms(4,5) show ?thesis
    by (cases "project_create now body d (fresh_request POST caller h)";
        cases "project_create now body d' (fresh_request POST caller h)") (auto simp: map_outcome_def)
next
  case (Project_Update meth raw body)
  with update_same_for [OF assms(1-3), of raw body meth] assms(4,5) show ?thesis
    by (cases "project_update raw body d (fresh_request meth caller h)";
        cases "project_update raw body d' (fresh_request meth caller h)") (auto simp: map_outcome_def)
next
  case (Project_Destroy raw)
  with destroy_same_for [OF same, of raw DELETE] assms(4,5) show ?thesis
    by (cases "project_destroy raw d (fresh_request DELETE caller h)";
        cases "project_destroy raw d' (fresh_request DELETE caller h)") (auto simp: map_outcome_def)
qed

lemma demo_resolves:
  "resolves demo_db (fresh_request meth (Some olivia) (Some ''1'')) olivia acme acme_owner"
  "resolves demo_db (fresh_request meth (Some mia) (Some ''1'')) mia acme acme_member"
  "resolves demo_db (fresh_request meth (Some rita) (Some ''2'')) rita rival rival_owner"
  by (simp_all add: resolves_def fresh_request_def find_membership_def tbl_first_def tbl_get_def
      demo_defs py_int_eval)

text \<open>The witness takes nearly everything else away: no user row, no other member, no Rival, no
  project of Rival's, and the counter further on. Mia still creates her project as before.\<close>

definition stripped_db :: db where
  "stripped_db = demo_db\<lparr>db_users := tbl_empty, db_orgs := \<lparr>tb_rows = [acme], tb_next = 7\<rparr>,
     db_members := \<lparr>tb_rows = [acme_member], tb_next = 5\<rparr>, db_invites := tbl_empty,
     db_subs := \<lparr>tb_rows = [demo_sub 1 1 2 ''cus_1'' ''sub_1''], tb_next = 3\<rparr>,
     db_projects := \<lparr>tb_rows = [demo_project 1 1 ''Site'' 1, demo_project 2 1 ''App'' 3], tb_next = 9\<rparr>\<rparr>"

theorem project_replies_witness:
  "fst (project_step (Project_Create 5 (Inr (''New'', []))) (Some mia) (Some ''1'') stripped_db) =
     map_sum id (with_key 9)
       (fst (project_step (Project_Create 5 (Inr (''New'', []))) (Some mia) (Some ''1'') demo_db)) \<and>
   fst (project_step Project_List (Some mia) (Some ''1'') stripped_db) =
     fst (project_step Project_List (Some mia) (Some ''1'') demo_db)"
proof -
  have ok: "keys_ok stripped_db"
    by (simp add: keys_ok_def tbl_wf_def stripped_db_def demo_defs tbl_empty_def)
  have same: "same_for (Some mia) (Some ''1'') demo_db stripped_db"
    by (simp add: same_for_def same_at_def find_membership_def tbl_first_def tbl_get_def sub_of_org_def
        for_org_def tbl_filter_def stripped_db_def demo_defs py_int_eval)
  obtain res e res' e' where steps:
    "project_step (Project_Create 5 (Inr (''New'', []))) (Some mia) (Some ''1'') demo_db = (res, e)"
    "project_step (Project_Create 5 (Inr (''New'', []))) (Some mia) (Some ''1'') stripped_db = (res', e')"
    by fastforce
  obtain lst f lst' f' where lists: "project_step Project_List (Some mia) (Some ''1'') demo_db = (lst, f)"
    "project_step Project_List (Some mia) (Some ''1'') stripped_db = (lst', f')" by fastforce
  have "tb_next (db_projects stripped_db) = 9" by (simp add: stripped_db_def)
  with project_replies_depend_on_own_tenant_only [OF demo_keys_ok ok same steps]
    project_replies_depend_on_own_tenant_only [OF demo_keys_ok ok same lists] steps lists
  show ?thesis by (simp del: project_step.simps)
qed

lemma project_writes_isolated:
  assumes "keys_ok d" and step: "project_step call u h d = (res, d')"
    and other: "\<And>usr org m. resolves d (fresh_request GET u h) usr org m \<Longrightarrow> o_id org \<noteq> k"
  shows "project_effect d d' \<and> for_org pr_org k (db_projects d') = for_org pr_org k (db_projects d)"
proof -
  from assms(1) have wf: "tbl_wf pr_id (db_projects d)" by (simp add: keys_ok_def)
  from step show ?thesis
  proof (cases rule: project_step_cases)
    case (create usr org m p)
    with other [of usr org m] show ?thesis by (simp add: project_tenant.insert_tenant)
  next
    case (update usr org m obj obj')
    with other [of usr org m] show ?thesis
      using project_tenant.update_other_tenant [OF wf, of obj k "\<lambda>_. obj'"] by simp
  next
    case (delete usr org m obj)
    with other [of usr org m] show ?thesis
      using project_tenant.delete_other_tenant [OF wf, of obj k] by simp
  qed simp
qed

text \<open>Isolation of writes: whatever project action runs, nothing but the project table changes,
  and the projects of an organization that is not the caller's validated active organization are
  exactly as they were.\<close>

theorem project_writes_stay_in_tenant:
  assumes "keys_ok d" and step: "project_step call u h d = (res, d')"
    and other: "\<And>usr org m. resolves d (fresh_request GET u h) usr org m \<Longrightarrow> o_id org \<noteq> k"
  shows "project_effect d d' \<and> for_org pr_org k (db_projects d') = for_org pr_org k (db_projects d)"
  using assms by (rule project_writes_isolated)

theorem project_writes_witness:
  "for_org pr_org 2 (db_projects (snd (project_step (Project_Destroy ''3'') (Some olivia) (Some ''1'')
     demo_db))) = for_org pr_org 2 (db_projects demo_db)"
proof -
  obtain res d' where step: "project_step (Project_Destroy ''3'') (Some olivia) (Some ''1'') demo_db = (res, d')"
    by fastforce
  have "o_id org \<noteq> 2" if "resolves demo_db (fresh_request GET (Some olivia) (Some ''1'')) usr org m"
    for usr org m
    using resolves_unique(2) [OF demo_resolves(1) that] by (simp add: acme_def)
  from project_writes_stay_in_tenant [OF demo_keys_ok step this] step show ?thesis by simp
qed

text \<open>Another tenant's project is a 404, never a 403: when the path's key is no project of the
  active organization, retrieve, update and delete all raise \<open>Http404\<close> and write nothing, whether
  or not some other organization has a project with that key.\<close>

theorem cross_tenant_is_404:
  assumes r: "resolves d r usr org m"
    and none: "\<And>p. p \<in> set (tb_rows (db_projects d)) \<Longrightarrow> pr_org p = o_id org \<Longrightarrow>
      py_int raw \<noteq> Some (pr_id p)"
  shows "project_retrieve raw d r = Inl Http404 \<and> project_update raw body d r = (Inl Http404, d) \<and>
    project_destroy raw d r = (Inl Http404, d)"
  using project_permissions_resolved [OF r] project_get_object_404 [OF none]
  by (simp add: project_retrieve_def project_update_def project_destroy_def)

theorem cross_tenant_is_404_witness:
  "project_retrieve ''3'' demo_db (fresh_request GET (Some olivia) (Some ''1'')) = Inl Http404 \<and>
   tbl_get pr_id 3 (db_projects demo_db) = Some (demo_project 3 2 ''Secret'' 4)"
proof -
  have "py_int ''3'' \<noteq> Some (pr_id p)"
    if "p \<in> set (tb_rows (db_projects demo_db))" "pr_org p = o_id acme" for p
    using that by (auto simp: demo_defs py_int_eval)
  from cross_tenant_is_404 [OF demo_resolves(1) this] show ?thesis
    by (simp add: tbl_get_def demo_defs)
qed

text \<open>Creating a project, on every branch: the plan check decides, a name wider than the column is
  a database error, and otherwise one row is added, stamped with the active organization and the
  caller, whatever the body says.\<close>

theorem project_create_spec:
  assumes r: "resolves d r usr org m"
  shows "project_create now (Inr (name, description)) d r =
    (case check_can_create_project (o_id org) d of
       Inl e \<Rightarrow> (Inl e, d)
     | Inr _ \<Rightarrow>
         if 255 < length name then (Inl DataError, d)
         else let k = tb_next (db_projects d) in
           (Inr (k, name, description, Some (u_id usr), now),
            d\<lparr>db_projects := (db_projects d)\<lparr>tb_rows := tb_rows (db_projects d) @
                [\<lparr>pr_id = k, pr_org = o_id org, pr_name = name, pr_description = description,
                  pr_created_by = Some (u_id usr), pr_created_at = now\<rparr>], tb_next := k + 1\<rparr>\<rparr>))"
proof -
  have u: "rq_user r = Some usr" using r by (rule resolvesE)
  show ?thesis
    by (simp add: project_create_def project_permissions_resolved [OF r] project_perform_create_def
        atomic_def Let_def stamp_organization_def get_create_kwargs_def project_insert_def
        char_field_def project_repr_def tbl_insert_def u split: sum.splits)
qed

theorem project_create_spec_witness:
  "fst (project_create 9 (Inr (''New'', [])) demo_db (fresh_request POST (Some mia) (Some ''1''))) =
     Inr (4, ''New'', [], Some 3, 9)"
proof -
  have "check_can_create_project (o_id acme) demo_db = Inr ()" by code_simp
  with project_create_spec [OF demo_resolves(2), of 9 "''New''" "[]" POST] show ?thesis
    by (simp add: Let_def) (simp add: demo_defs)
qed

text \<open>Who may delete or edit a project: owners and admins of the active organization and the
  project's creator; any other member is refused with a 403 and the database is unchanged.\<close>

theorem project_write_rbac:
  assumes "keys_ok d" and r: "resolves d r usr org m" and meth: "rq_method r \<notin> SAFE_METHODS"
    and p: "p \<in> set (tb_rows (db_projects d))" "pr_org p = o_id org" "py_int raw = Some (pr_id p)"
  shows "project_destroy raw d r =
      (if is_admin_or_owner m \<or> pr_created_by p = Some (u_id usr)
       then (Inr (), d\<lparr>db_projects := tbl_delete_where (\<lambda>x. pr_id x = pr_id p) (db_projects d)\<rparr>)
       else (Inl (PermissionDenied can_write_message), d)) \<and>
    (\<not> is_admin_or_owner m \<and> pr_created_by p \<noteq> Some (u_id usr) \<longrightarrow>
       project_update raw body d r = (Inl (PermissionDenied can_write_message), d))"
proof -
  have u: "rq_user r = Some usr" using r by (rule resolvesE)
  have wf: "tbl_wf pr_id (db_projects d)" using assms(1) by (simp add: keys_ok_def)
  have "find (\<lambda>x. pr_id x = pr_id p) (scoped_queryset pr_org (active r org m) (db_projects d)) = Some p"
  proof -
    have "x = p" if "x \<in> set (tb_rows (db_projects d))" "pr_id x = pr_id p" for x
      using that p(1) tbl_wfD_inj [OF wf] by (auto dest: inj_onD)
    then have *: "x \<in> set (scoped_queryset pr_org (active r org m) (db_projects d)) \<Longrightarrow>
        pr_id x = pr_id p \<Longrightarrow> x = p" for x
      by (simp add: scoped_queryset_rows)
    have "p \<in> set (scoped_queryset pr_org (active r org m) (db_projects d))"
      using p by (simp add: scoped_queryset_rows)
    with * show ?thesis
      by (cases "find (\<lambda>x. pr_id x = pr_id p) (scoped_queryset pr_org (active r org m) (db_projects d))")
        (auto simp: find_None_iff dest: find_in_set)
  qed
  then have "project_get_object d (active r org m) raw =
      (if CanWriteProject (active r org m) p then Inr p
       else Inl (PermissionDenied can_write_message))"
    using p(3) u by (simp add: project_get_object_def get_object_def check_object_permissions_def)
  then show ?thesis
    using project_permissions_resolved [OF r] CanWriteProject_active [OF meth u]
    by (simp add: project_destroy_def project_update_def)
qed

theorem project_write_rbac_witness:
  "project_destroy ''1'' demo_db (fresh_request DELETE (Some mia) (Some ''1'')) =
     (Inl (PermissionDenied can_write_message), demo_db)"
  using project_write_rbac [OF demo_keys_ok demo_resolves(2) [of DELETE],
      of "demo_project 1 1 ''Site'' 1" "''1''"]
  by (simp add: SAFE_METHODS_def fresh_request_def is_admin_or_owner_def demo_defs py_int_eval)

text \<open>The plan's cap: no project action raises an organization's number of projects above its
  limit. An organization already over the cap (after a downgrade) keeps its projects but gets no
  new one.\<close>

theorem project_cap_respected:
  assumes "keys_ok d" and step: "project_step call u h d = (res, d')"
    and cap: "limit_of k ''max_projects'' d = Some l"
  shows "int (project_count k d') \<le> max (int (project_count k d)) l"
proof -
  from assms(1) have wf: "tbl_wf pr_id (db_projects d)" by (simp add: keys_ok_def)
  from step show ?thesis
  proof (cases rule: project_step_cases)
    case (create usr org m p)
    show ?thesis
    proof (cases "o_id org = k")
      case True
      have "limit_of k ''max_projects'' d' = Some l"
        using cap create(4) limit_of_cong [of k d' d] by (simp add: sub_of_org_def)
      then have "int (project_count k d') \<le> l"
        using project_cap.create_within_cap [of k d d' l] create True cap
        by (simp add: project_count_def)
      then show ?thesis by simp
    qed (use create in \<open>simp add: project_count_def\<close>)
  next
    case (update usr org m obj obj')
    have "project_count k d' = project_count k d"
    proof -
      have "pr_org x = o_id org" if "x \<in> set (tb_rows (db_projects d))" "pr_id x = pr_id obj" for x
        using that update(2,3) tbl_wfD_inj [OF wf] by (auto dest: inj_onD)
      then show ?thesis
        using update by (auto simp: project_count_def intro!: tbl_count_update_same)
    qed
    then show ?thesis by simp
  next
    case (delete usr org m obj)
    then show ?thesis by (simp add: project_count_def tbl_count_delete_le le_max_iff_disj)
  qed simp
qed

theorem project_cap_respected_witness:
  "project_count 2 (snd (project_step (Project_Create 9 (Inr (''B'', []))) (Some rita) (Some ''2'')
     demo_db)) \<le> 3"
proof -
  obtain res d' where
    step: "project_step (Project_Create 9 (Inr (''B'', []))) (Some rita) (Some ''2'') demo_db = (res, d')"
    by fastforce
  have "limit_of 2 ''max_projects'' demo_db = Some 3" by code_simp
  from project_cap_respected [OF demo_keys_ok step this]
  have "int (project_count 2 d') \<le> max (int (project_count 2 demo_db)) 3" .
  moreover have "project_count 2 demo_db = 1" by code_simp
  ultimately show ?thesis using step by simp
qed

end
