(* ===== verification/Billing_Views.thy ===== *)
theory Billing_Views
  imports Webhooks Projects
begin

section \<open>Billing endpoints (billing/views.py, stripe_client.py, permissions.py, serializers.py)\<close>

text \<open>
  Plans, the active organization's subscription, checkout and portal. The three Stripe calls and the
  settings they read are the record \<open>stripe_api\<close>, an argument. The last property closes the loop
  with \<open>Webhooks\<close>: what checkout stamps on a session is what the webhook resolves.
\<close>

definition owner_message :: string where
  "owner_message = ''Only the organization owner can manage billing.''"

definition IsOrganizationOwner :: permission where
  "IsOrganizationOwner d request =
     ((case rq_membership request of None \<Rightarrow> False | Some membership \<Rightarrow> m_role membership = OWNER),
      request)"

definition owner_permissions :: "(permission \<times> string) list" where
  "owner_permissions =
     [(IsAuthenticated, []), (IsOrganizationMember, org_member_message),
      (IsOrganizationOwner, owner_message)]"

subsection \<open>The Stripe client\<close>

record checkout_args =
  ca_mode :: string
  ca_customer :: string
  ca_line_items :: "(string \<times> int) list"
  ca_success_url :: string
  ca_cancel_url :: string
  ca_metadata :: "(string \<times> string) list"
  ca_subscription_metadata :: "(string \<times> string) list"

record stripe_api =
  st_secret_key :: string
  st_success_url :: string
  st_cancel_url :: string
  st_return_url :: string
  st_create_customer :: "string \<Rightarrow> (string \<times> string) list \<Rightarrow> exn + string" \<comment> \<open>name, metadata\<close>
  st_create_session :: "checkout_args \<Rightarrow> exn + string"
  st_create_portal :: "string \<Rightarrow> string \<Rightarrow> exn + string" \<comment> \<open>customer, return URL\<close>

definition stripe_client_ready :: "stripe_api \<Rightarrow> exn + unit" where
  \<comment> \<open>\<open>_client\<close>\<close>
  "stripe_client_ready st = (if \<not> truthy (st_secret_key st) then Inl BillingNotConfigured else Inr ())"

definition ensure_customer :: "stripe_api \<Rightarrow> subscription \<Rightarrow> organization \<Rightarrow> db \<Rightarrow> string outcome" where
  "ensure_customer st sub org d =
     (if truthy (s_stripe_customer_id sub) then (Inr (s_stripe_customer_id sub), d)
      else case bind_res (stripe_client_ready st) (\<lambda>_.
             st_create_customer st (o_name org) [(''organization_id'', show_int (o_id org))]) of
        Inl e \<Rightarrow> (Inl e, d)
      | Inr customer \<Rightarrow>
          (case char_field 255 customer of
             Inl e \<Rightarrow> (Inl e, d)
           | Inr _ \<Rightarrow>
               (Inr customer,
                d\<lparr>db_subs := tbl_update_where (\<lambda>x. s_id x = s_id sub)
                  (\<lambda>x. x\<lparr>s_stripe_customer_id := customer\<rparr>) (db_subs d)\<rparr>)))"

definition checkout_session_args :: "stripe_api \<Rightarrow> string \<Rightarrow> string \<Rightarrow> key \<Rightarrow> string \<Rightarrow> checkout_args" where
  "checkout_session_args st customer_id price_id organization_id plan_code =
     \<lparr>ca_mode = ''subscription'', ca_customer = customer_id, ca_line_items = [(price_id, 1)],
      ca_success_url = st_success_url st, ca_cancel_url = st_cancel_url st,
      ca_metadata = [(''organization_id'', show_int organization_id), (''plan_code'', plan_code)],
      ca_subscription_metadata = [(''organization_id'', show_int organization_id)]\<rparr>"

definition create_checkout_session ::
  "stripe_api \<Rightarrow> string \<Rightarrow> string \<Rightarrow> key \<Rightarrow> string \<Rightarrow> exn + string" where
  "create_checkout_session st customer_id price_id organization_id plan_code =
     bind_res (stripe_client_ready st) (\<lambda>_.
       st_create_session st (checkout_session_args st customer_id price_id organization_id plan_code))"

definition create_portal_session :: "stripe_api \<Rightarrow> string \<Rightarrow> exn + string" where
  "create_portal_session st customer_id =
     bind_res (stripe_client_ready st) (\<lambda>_. st_create_portal st customer_id (st_return_url st))"

subsection \<open>Views\<close>

type_synonym plan_out = "string \<times> string \<times> (string \<times> int option) list"

definition plan_repr :: "plan \<Rightarrow> plan_out" where
  "plan_repr p = (p_code p, p_name p, p_limits p)"

definition plans_view :: "db \<Rightarrow> request \<Rightarrow> exn + plan_out list" where
  "plans_view d r0 =
     bind_res (check_permissions [(IsAuthenticated, [])] d r0) (\<lambda>request.
       Inr (map plan_repr (order_by p_id (tbl_filter p_is_active (db_plans d)))))"

definition subscription_repr ::
  "db \<Rightarrow> subscription \<Rightarrow> plan_out option \<times> string \<times> time option \<times> time" where
  "subscription_repr d s =
     (map_option plan_repr (tbl_get p_id (s_plan s) (db_plans d)), s_status s,
      s_current_period_end s, s_updated_at s)"

definition subscription_view ::
  "db \<Rightarrow> request \<Rightarrow> exn + (plan_out option \<times> string \<times> time option \<times> time) option" where
  \<comment> \<open>\<open>None\<close> is the 404 reply the view writes itself\<close>
  "subscription_view d r0 =
     bind_res (check_permissions tenant_permissions d r0) (\<lambda>request.
       case rq_organization request of
         None \<Rightarrow> Inl PyAttributeError
       | Some org \<Rightarrow> Inr (map_option (subscription_repr d) (sub_of_org (o_id org) d)))"

definition checkout_view :: "stripe_api \<Rightarrow> exn + string \<Rightarrow> db \<Rightarrow> request \<Rightarrow> string outcome" where
  "checkout_view st body d r0 =
     (case check_permissions owner_permissions d r0 of
        Inl e \<Rightarrow> (Inl e, d)
      | Inr request \<Rightarrow>
          (case body of
             Inl e \<Rightarrow> (Inl e, d)
           | Inr plan_code \<Rightarrow>
               (case tbl_first (\<lambda>p. p_code p = plan_code \<and> p_is_active p) (db_plans d) of
                  None \<Rightarrow> (Inl (ValidationError (Some ''plan_code'') ''Unknown plan.''), d)
                | Some plan \<Rightarrow>
                    (if \<not> truthy (p_stripe_price_id plan)
                     then (Inl (ValidationError (Some ''plan_code'')
                       ''This plan is not available for checkout.''), d)
                     else case rq_organization request of
                       None \<Rightarrow> (Inl PyAttributeError, d)
                     | Some org \<Rightarrow>
                         (case sub_of_org (o_id org) d of
                            None \<Rightarrow> (Inl (ValidationError None
                              ''Billing is not set up for this organization.''), d)
                          | Some sub \<Rightarrow>
                              (case ensure_customer st sub org d of
                                 (Inl e, d') \<Rightarrow> (Inl e, d')
                               | (Inr customer_id, d') \<Rightarrow>
                                   (create_checkout_session st customer_id (p_stripe_price_id plan)
                                      (o_id org) (p_code plan), d')))))))"

definition portal_view :: "stripe_api \<Rightarrow> db \<Rightarrow> request \<Rightarrow> exn + string" where
  "portal_view st d r0 =
     bind_res (check_permissions owner_permissions d r0) (\<lambda>request.
       case rq_organization request of
         None \<Rightarrow> Inl PyAttributeError
       | Some org \<Rightarrow>
           (case sub_of_org (o_id org) d of
              None \<Rightarrow> Inl (ValidationError None ''No billing customer yet - subscribe first.'')
            | Some sub \<Rightarrow>
                (if \<not> truthy (s_stripe_customer_id sub)
                 then Inl (ValidationError None ''No billing customer yet - subscribe first.'')
                 else create_portal_session st (s_stripe_customer_id sub))))"

subsection \<open>Owners only\<close>

lemma owner_permissions_chain:
  "check_permissions owner_permissions d r =
     bind_res (check_permissions tenant_permissions d r) (\<lambda>r'.
       if (case rq_membership r' of None \<Rightarrow> False | Some m \<Rightarrow> m_role m = OWNER) then Inr r'
       else Inl (if rq_user r' = None then NotAuthenticated else PermissionDenied owner_message))"
  by (simp add: owner_permissions_def tenant_permissions_def IsOrganizationOwner_def
      split: prod.splits bool.splits)

lemma owner_permissions_resolved:
  assumes "resolves d r u org m"
  shows "check_permissions owner_permissions d r =
    (if m_role m = OWNER then Inr (active r org m) else Inl (PermissionDenied owner_message))"
proof -
  have "check_permissions tenant_permissions d r = Inr (active r org m)"
    using assms by (auto simp: tenant_permissions_Inr active_def)
  moreover have "rq_user r = Some u" using assms by (rule resolvesE)
  ultimately show ?thesis by (simp add: owner_permissions_chain)
qed

text \<open>Billing actions are the Owner's: for any other caller checkout and portal are a 403, whatever
  Stripe would answer, and nothing is stored.\<close>

theorem billing_owner_only:
  assumes r: "resolves d r u org m" and "m_role m \<noteq> OWNER"
  shows "checkout_view st body d r = (Inl (PermissionDenied owner_message), d) \<and>
    portal_view st d r = Inl (PermissionDenied owner_message)"
  using assms(2) by (simp add: checkout_view_def portal_view_def owner_permissions_resolved [OF r])

definition demo_api :: stripe_api where
  "demo_api = \<lparr>st_secret_key = ''sk_test'', st_success_url = ''ok'', st_cancel_url = ''no'',
     st_return_url = ''back'', st_create_customer = (\<lambda>n md. Inr ''cus_9''),
     st_create_session = (\<lambda>a. Inr ''https://pay''), st_create_portal = (\<lambda>c r. Inr ''https://portal'')\<rparr>"

lemma demo_resolves_adam:
  "resolves demo_db (fresh_request meth (Some adam) (Some ''1'')) adam acme acme_admin"
  by (simp add: resolves_def fresh_request_def find_membership_def tbl_first_def tbl_get_def
      demo_defs py_int_eval)

theorem billing_owner_only_witness:
  "checkout_view demo_api (Inr ''pro'') demo_db (fresh_request POST (Some adam) (Some ''1'')) =
     (Inl (PermissionDenied owner_message), demo_db)"
  using billing_owner_only [OF demo_resolves_adam [of POST]]
  by (simp add: acme_admin_def demo_member_def)

subsection \<open>Checkout grants nothing\<close>

definition customer_effect :: "db \<Rightarrow> db \<Rightarrow> bool" where
  "customer_effect d d' \<longleftrightarrow> d' = d \<or>
     (\<exists>sub c. sub \<in> set (tb_rows (db_subs d)) \<and> length c \<le> 255 \<and>
        d' = d\<lparr>db_subs := tbl_update_where (\<lambda>x. s_id x = s_id sub)
           (\<lambda>x. x\<lparr>s_stripe_customer_id := c\<rparr>) (db_subs d)\<rparr>)"

lemma ensure_customer_effect:
  assumes "ensure_customer st sub org d = (res, d')" "sub \<in> set (tb_rows (db_subs d))"
  shows "customer_effect d d'"
  using assms unfolding customer_effect_def ensure_customer_def
  by (auto simp: char_field_def not_less split: if_splits sum.splits)

lemma checkout_effect:
  assumes "checkout_view st body d r = (res, d')"
  shows "customer_effect d d'"
proof -
  have same: "customer_effect d d" by (simp add: customer_effect_def)
  have *: "customer_effect d e"
    if "sub_of_org k d = Some sub" "ensure_customer st sub org d = (x, e)" for k sub org x e
    using ensure_customer_effect [OF that(2)] sub_of_org_Some [OF that(1)] by blast
  show ?thesis using assms same *
    by (auto simp: checkout_view_def split: sum.splits option.splits if_splits prod.splits)
qed

lemma customer_effect_inv: "customer_effect d d' \<Longrightarrow> db_inv d \<Longrightarrow> db_inv d'"
  by (auto simp: customer_effect_def intro: inv_update_sub)

lemma sub_of_org_update_customer:
  "sub_of_org k (d\<lparr>db_subs := tbl_update_where P (\<lambda>x. x\<lparr>s_stripe_customer_id := c\<rparr>) (db_subs d)\<rparr>) =
   map_option (\<lambda>x. if P x then x\<lparr>s_stripe_customer_id := c\<rparr> else x) (sub_of_org k d)"
proof -
  have "find (\<lambda>s. s_org s = k) (map (\<lambda>x. if P x then x\<lparr>s_stripe_customer_id := c\<rparr> else x) rs) =
      map_option (\<lambda>x. if P x then x\<lparr>s_stripe_customer_id := c\<rparr> else x) (find (\<lambda>s. s_org s = k) rs)" for rs
    by (induction rs) auto
  then show ?thesis by (simp add: sub_of_org_def tbl_first_def)
qed

text \<open>The success redirect grants nothing: a checkout, whoever makes it and whatever Stripe
  answers, leaves every organization's limits, subscription status and plan as they are, and
  keeps the invariant; only the webhook changes them.\<close>

theorem checkout_grants_nothing:
  assumes "db_inv d" and step: "checkout_view st body d r = (res, d')"
  shows "db_inv d' \<and> limit_of k key d' = limit_of k key d \<and>
    map_option s_status (sub_of_org k d') = map_option s_status (sub_of_org k d) \<and>
    map_option s_plan (sub_of_org k d') = map_option s_plan (sub_of_org k d)"
  using checkout_effect [OF step] unfolding customer_effect_def
proof (elim disjE exE conjE)
  fix sub c assume d': "d' = d\<lparr>db_subs := tbl_update_where (\<lambda>x. s_id x = s_id sub)
           (\<lambda>x. x\<lparr>s_stripe_customer_id := c\<rparr>) (db_subs d)\<rparr>"
  have inv: "db_inv d'" unfolding d' using assms(1) by (rule inv_update_sub) simp_all
  have sub: "sub_of_org k d' = map_option
      (\<lambda>x. if s_id x = s_id sub then x\<lparr>s_stripe_customer_id := c\<rparr> else x) (sub_of_org k d)"
    unfolding d' by (rule sub_of_org_update_customer)
  have plans: "db_plans d' = db_plans d" by (simp add: d')
  show ?thesis
    by (cases "sub_of_org k d") (simp_all add: inv sub limit_of_def plans split: option.splits)
qed (use assms in simp)

theorem checkout_grants_nothing_witness:
  "limit_of 2 ''max_projects'' (snd (checkout_view demo_api (Inr ''business'') demo_db
     (fresh_request POST (Some rita) (Some ''2'')))) = Some 3 \<and>
   fst (checkout_view demo_api (Inr ''business'') demo_db (fresh_request POST (Some rita) (Some ''2''))) =
     Inr ''https://pay''"
proof
  have "limit_of 2 ''max_projects'' demo_db = Some 3" by code_simp
  then show "limit_of 2 ''max_projects'' (snd (checkout_view demo_api (Inr ''business'') demo_db
     (fresh_request POST (Some rita) (Some ''2'')))) = Some 3"
    using checkout_grants_nothing [OF demo_inv prod.collapse [symmetric]] by simp
  show "fst (checkout_view demo_api (Inr ''business'') demo_db (fresh_request POST (Some rita) (Some ''2''))) =
     Inr ''https://pay''"
    by code_simp
qed

subsection \<open>Checkout and webhook fit together\<close>

definition json_metadata :: "(string \<times> string) list \<Rightarrow> json" where
  \<comment> \<open>Stripe returns a session's metadata as it was given\<close>
  "json_metadata md = JObj (map (\<lambda>(k, v). (k, JStr v)) md)"

lemma save_subscription_total:
  assumes "length (s_stripe_customer_id s) \<le> 255" "length (s_stripe_subscription_id s) \<le> 255"
  shows "\<exists>d'. save_subscription now s d = Inr d'"
  using assms by (simp add: save_subscription_def char_field_def)

text \<open>C34. Round trip from checkout to limits: a completed-checkout event that carries the metadata
  the checkout call stamped finds exactly the organization that paid, whatever customer the event
  names, and gives it the limits of the plan that was bought.\<close>

theorem checkout_webhook_roundtrip:
  assumes inv: "db_inv d" and org: "o_id org > 0" "length (show_nat (nat (o_id org))) \<le> max_str_digits"
    and sub: "sub_of_org (o_id org) d = Some sub" "length (s_stripe_customer_id sub) \<le> 255"
    and plan: "tbl_first (\<lambda>p. p_code p = p_code plan \<and> p_is_active p) (db_plans d) = Some plan"
    and event: "map_of kvs ''customer'' = Some (JStr cus)" "length cus \<le> 255"
      "map_of kvs ''subscription'' = Some (JStr sid)" "sid \<noteq> []" "length sid \<le> 255"
      "map_of kvs ''metadata'' = Some (json_metadata
         (ca_metadata (checkout_session_args st cus price (o_id org) (p_code plan))))"
  shows "\<exists>d'. handle_checkout_completed py_str now (JObj kvs) d = Inr d' \<and>
    limit_of (o_id org) key d' = plan_limit plan key \<and>
    (\<exists>s. sub_of_org (o_id org) d' = Some s \<and> s_status s = ACTIVE \<and> s_plan s = p_id plan)"
proof -
  let ?md = "[(''organization_id'', JStr (show_int (o_id org))), (''plan_code'', JStr (p_code plan))]"
  let ?new = "sub\<lparr>s_stripe_customer_id := text_or py_str (JStr cus) (s_stripe_customer_id sub),
     s_stripe_subscription_id := sid, s_plan := p_id plan, s_status := ACTIVE\<rparr>"
  have md: "map_of kvs ''metadata'' = Some (JObj ?md)"
    using event(6) by (simp add: json_metadata_def checkout_session_args_def)
  have int: "py_int (show_int (o_id org)) = Some (o_id org)"
    using org py_int_show_nat [of "nat (o_id org)"] by (simp add: show_int_def)
  have row: "sub \<in> set (tb_rows (db_subs d))" "s_org sub = o_id org"
    using sub(1) by (auto dest: sub_of_org_Some)
  have "length (text_or py_str (JStr cus) (s_stripe_customer_id sub)) \<le> 255"
    using event(2) sub(2) by (simp add: text_or_def col_text_def)
  then obtain d' where save: "save_subscription now ?new d = Inr d'"
    using save_subscription_total [of ?new] event(5) by auto
  have vals: "py_get (JObj kvs) ''customer'' = Inr (JStr cus)"
    "py_get (JObj kvs) ''subscription'' = Inr (JStr sid)" "metadata_of (JObj kvs) = Inr (JObj ?md)"
    "py_get (JObj ?md) ''plan_code'' = Inr (JStr (p_code plan))"
    "plan_by_code py_str (JStr (p_code plan)) d = Some plan"
    "text_or py_str (JStr sid) (s_stripe_subscription_id sub) = sid"
    using event(1,3,4) md plan
    by (simp_all add: py_get_def obj_get_def metadata_of_def json_or_def plan_by_code_def col_text_def
        text_or_def)
  have h: "handle_checkout_completed py_str now (JObj kvs) d = Inr d'"
    using find_by_metadata [OF md _ int sub(1)] save
    by (simp add: handle_checkout_completed_def vals)
  have "tbl_get p_id (s_plan ?new) (db_plans d) = Some plan"
    using plan db_invD(1) [OF inv] by (auto simp: keys_ok_def tbl_get_iff dest: tbl_first_Some)
  from limit_of_saved [OF inv row(1) save _ this, of key] row(2) h show ?thesis by auto
qed

theorem checkout_webhook_roundtrip_witness:
  "\<exists>d'. handle_checkout_completed demo_str 7 (JObj [(''customer'', JStr ''cus_9''),
      (''subscription'', JStr ''sub_9''), (''metadata'', json_metadata
         (ca_metadata (checkout_session_args demo_api ''cus_9'' ''price_pro'' 2 ''pro'')))]) demo_db = Inr d' \<and>
    limit_of 2 ''max_members'' d' = Some 10"
proof -
  let ?p = "demo_plan 2 ''pro'' ''Pro'' (Some 25) (Some 10) ''price_pro''"
  let ?kvs = "[(''customer'', JStr ''cus_9''),
      (''subscription'', JStr ''sub_9''), (''metadata'', json_metadata
         (ca_metadata (checkout_session_args demo_api ''cus_9'' ''price_pro'' 2 ''pro'')))]"
  have 1: "o_id rival > 0" "length (show_nat (nat (o_id rival))) \<le> max_str_digits" "o_id rival = 2"
    by (simp_all add: rival_def show_nat.simps max_str_digits_def)
  have 2: "sub_of_org (o_id rival) demo_db = Some (demo_sub 2 2 1 [] [])"
    "length (s_stripe_customer_id (demo_sub 2 2 1 [] [])) \<le> 255"
    "tbl_first (\<lambda>p. p_code p = p_code ?p \<and> p_is_active p) (db_plans demo_db) = Some ?p"
    "p_code ?p = ''pro''" "plan_limit ?p ''max_members'' = Some 10"
    by (simp_all add: sub_of_org_def tbl_first_def demo_db_def demo_sub_def demo_plan_def rival_def
        plan_limit_def limits_get_def)
  show ?thesis
    using checkout_webhook_roundtrip [OF demo_inv 1(1,2) 2(1,2,3), of ?kvs "''cus_9''" "''sub_9''"
        demo_api "''price_pro''" demo_str 7 "''max_members''"] 2(4,5)
    by (auto simp: 1(3))
qed

end
