(* ===== verification/Lifecycle.thy ===== *)
theory Lifecycle
  imports Accounts Billing_Views
begin

section \<open>The API as one system\<close>

text \<open>
  Every endpoint that writes, as one step function over the database (\<open>api_step\<close>), and the
  databases a fresh deployment can reach (\<open>api_trans\<close>). \<open>invariant_system\<close> is the contract of an
  invariant of a transition system; the API interprets it here with \<open>api_ok\<close>, and \<open>Races\<close> does with
  its interleavings. The services outside the repository are the record \<open>services\<close>.
\<close>

locale invariant_system =
  fixes init :: "'s \<Rightarrow> bool" and trans :: "'s \<Rightarrow> 's \<Rightarrow> bool" and inv :: "'s \<Rightarrow> bool"
  assumes init_inv: "init s \<Longrightarrow> inv s"
    and trans_inv: "inv s \<Longrightarrow> trans s t \<Longrightarrow> inv t"
begin

lemma steps_inv: "trans\<^sup>*\<^sup>* s t \<Longrightarrow> inv s \<Longrightarrow> inv t"
  by (induction rule: rtranclp_induct) (auto intro: trans_inv)

lemma reachable_inv: "init s \<Longrightarrow> trans\<^sup>*\<^sup>* s t \<Longrightarrow> inv t"
  using init_inv steps_inv by blast

end

record services =
  sv_slugify :: "string \<Rightarrow> string"
  sv_normalize_email :: "string \<Rightarrow> string"
  sv_passwords :: passwords
  sv_crypto :: crypto
  sv_py_str :: "json \<Rightarrow> string"
  sv_stripe :: stripe_api
  sv_stripe_construct :: "string \<Rightarrow> string \<Rightarrow> string \<Rightarrow> exn + json"
  sv_webhook_secret :: string
  sv_jwt_validate :: "string \<Rightarrow> string \<Rightarrow> db \<Rightarrow> (user \<times> claims) outcome"
  sv_require_verified :: bool
  sv_verification_timeout :: int
  sv_reset_timeout :: int
  sv_invitation_days :: int

datatype api_call =
    Register time "exn + (string \<times> string \<times> string)"
  | Verify_Email time "exn + string"
  | Login "exn + (string \<times> string)"
  | Reset_Request "exn + string"
  | Reset_Confirm time "exn + (string \<times> string)"
  | Org_Create time "exn + string"
  | Org_Update string "exn + string option"
  | Org_Destroy string
  | Member_Call http_method string string "exn + string"
  | Invitation_Create time string string "exn + (string \<times> string option)"
  | Invitation_Accept time "exn + string"
  | Project_Call project_call "string option"
  | Checkout "exn + string" "string option"
  | Webhook time string string

fun api_step :: "services \<Rightarrow> api_call \<Rightarrow> user option \<Rightarrow> db \<Rightarrow> db" where
  "api_step sv (Register now body) u d =
     snd (register_view (sv_normalize_email sv) (sv_passwords sv) (\<lambda>_. 0) now body d)"
| "api_step sv (Verify_Email now body) u d =
     snd (verify_email_view (sv_crypto sv) (sv_verification_timeout sv) now body d)"
| "api_step sv (Login body) u d =
     snd (login_view (sv_jwt_validate sv) (sv_require_verified sv) body d)"
| "api_step sv (Reset_Request body) u d = snd (password_reset_request_view body d)"
| "api_step sv (Reset_Confirm now body) u d =
     snd (password_reset_confirm_view (sv_crypto sv) (sv_passwords sv) (sv_reset_timeout sv) now body d)"
| "api_step sv (Org_Create now body) u d =
     snd (org_create (sv_slugify sv) now (\<lambda>_ x. x) body d u)"
| "api_step sv (Org_Update raw body) u d = snd (org_update raw body d u)"
| "api_step sv (Org_Destroy raw) u d = snd (org_destroy raw d u)"
| "api_step sv (Member_Call meth raw member_pk body) u d =
     snd (member_action meth raw member_pk body d u)"
| "api_step sv (Invitation_Create now token raw body) u d =
     snd (invitation_create now (sv_invitation_days sv) token raw body d u)"
| "api_step sv (Invitation_Accept now body) u d = snd (invitation_accept now body d u)"
| "api_step sv (Project_Call call h) u d = snd (project_step call u h d)"
| "api_step sv (Checkout body h) u d =
     snd (checkout_view (sv_stripe sv) body d (fresh_request POST u h))"
| "api_step sv (Webhook now payload sg) u d =
     snd (webhook_post (sv_stripe_construct sv) (sv_webhook_secret sv) (sv_py_str sv) now payload sg d)"

definition api_trans :: "services \<Rightarrow> db \<Rightarrow> db \<Rightarrow> bool" where
  "api_trans sv d d' \<longleftrightarrow> (\<exists>call u. d' = api_step sv call u d)"

definition jwt_ok :: "(string \<Rightarrow> string \<Rightarrow> db \<Rightarrow> (user \<times> claims) outcome) \<Rightarrow> bool" where
  \<comment> \<open>a login writes \<open>last_login\<close> and the library's own token tables, and it returns a stored user\<close>
  "jwt_ok f \<longleftrightarrow> (\<forall>e p d. \<exists>P t tokens blacklist.
     snd (f e p d) = d\<lparr>db_users := tbl_update_where P (\<lambda>u. u\<lparr>u_last_login := t\<rparr>) (db_users d),
       db_tokens := tokens, db_blacklist := blacklist\<rparr>)"

definition api_ok :: "db \<Rightarrow> bool" where
  "api_ok d \<longleftrightarrow> db_inv d \<and> statuses_ok d \<and> emails_lower d"

definition fresh_deployment :: "db \<Rightarrow> bool" where
  \<comment> \<open>after \<open>migrate\<close>: no rows but the seeded plans\<close>
  "fresh_deployment d \<longleftrightarrow> d = seed_plans_migration empty_db"

subsection \<open>Every endpoint keeps the invariant\<close>

lemma api_okI:
  "db_inv d' \<Longrightarrow> statuses_ok d' \<Longrightarrow> emails_lower d' \<Longrightarrow> api_ok d'"
  by (simp add: api_ok_def)

lemma api_ok_cong:
  \<comment> \<open>with users and subscriptions untouched, only the invariant is left to show\<close>
  assumes "api_ok d" "db_inv d'" "db_users d' = db_users d" "db_subs d' = db_subs d"
  shows "api_ok d'"
  using assms by (simp add: api_ok_def statuses_ok_def emails_lower_def)

lemma api_ok_update_user:
  assumes "api_ok d" and f: "\<And>u. u_id (f u) = u_id u" "\<And>u. u_email (f u) = u_email u"
  shows "api_ok (d\<lparr>db_users := tbl_update_where P f (db_users d)\<rparr>)"
  using assms inv_update_user [of d f P] by (auto simp: api_ok_def statuses_ok_def emails_lower_def)

lemma api_ok_frame:
  assumes "api_ok d" "db_users d' = db_users d" "db_orgs d' = db_orgs d"
    "db_members d' = db_members d" "db_invites d' = db_invites d" "db_plans d' = db_plans d"
    "db_subs d' = db_subs d" "db_events d' = db_events d" "db_projects d' = db_projects d"
  shows "api_ok d'"
proof -
  have "db_inv d'" using assms db_inv_frame [of d d'] by (simp add: api_ok_def)
  then show ?thesis using assms by (intro api_ok_cong [of d d']) simp_all
qed

lemma register_api_ok:
  assumes "api_ok d"
  shows "api_ok (snd (register_view ne pw co now body d))"
proof (cases body)
  case (Inl e)
  with assms show ?thesis by (simp add: register_view_def)
next
  case (Inr b)
  obtain email password name where b: "b = (email, password, name)" by (cases b)
  obtain res d' where step: "register_view ne pw co now (Inr (email, password, name)) d = (res, d')"
    by fastforce
  have "db_subs d' = db_subs d" using register_frames(4) [of ne pw co now body d] step Inr b by simp
  moreover have "db_inv d' \<and> emails_lower d' \<or> d' = d"
    using register_success [OF _ _ step] assms by (cases res) (auto simp: api_ok_def)
  ultimately show ?thesis using assms step Inr b
    by (auto simp: api_ok_def statuses_ok_def)
qed

lemma reset_confirm_api_ok:
  assumes "api_ok d"
  shows "api_ok (snd (password_reset_confirm_view c pw timeout now body d))"
proof -
  have frame: "api_ok (snd (revoke_all_refresh_tokens k x))" if "api_ok x" for k x
  proof -
    obtain n y where r: "revoke_all_refresh_tokens k x = (n, y)" by fastforce
    have "api_ok y" by (rule api_ok_frame [OF that]) (subst revoke_all_spec(2) [OF r], simp)+
    with r show ?thesis by simp
  qed
  have pw_ok: "api_ok y" if "set_user_password u h x = Inr y" "api_ok x" for u h x y
    using that by (auto simp: set_user_password_def bind_res_Inr_iff intro!: api_ok_update_user)
  show ?thesis using assms frame pw_ok
    by (auto simp: password_reset_confirm_view_eq split: sum.splits prod.splits) (metis snd_conv)+
qed

lemma org_create_api_ok:
  assumes "api_ok d"
  shows "api_ok (snd (org_create sl now (\<lambda>_ x. x) body d u))"
proof -
  have inv: "db_inv d" using assms by (simp add: api_ok_def)
  have "api_ok (with_new_org now user name slug d)" if "\<not> slug_taken d slug" for user name slug
  proof -
    have "statuses_ok (with_new_org now user name slug d)"
      using assms by (auto simp: api_ok_def with_new_org_def Let_def statuses_ok_def
          create_free_subscription_def get_or_create_subscription_def new_subscription_def
          split: option.splits)
    moreover have "db_users (with_new_org now user name slug d) = db_users d"
      by (simp add: with_new_org_def Let_def)
    ultimately show ?thesis
      using assms inv_with_new_org [OF inv that] by (auto simp: api_ok_def emails_lower_def)
  qed
  then show ?thesis using assms org_create_effect [OF inv, of sl now body u] by auto
qed

lemma org_update_api_ok:
  assumes "api_ok d"
  shows "api_ok (snd (org_update raw body d u))"
proof -
  have inv: "db_inv d" using assms by (simp add: api_ok_def)
  have "api_ok (d\<lparr>db_orgs := tbl_update_where P (\<lambda>x. x\<lparr>o_name := n\<rparr>) (db_orgs d)\<rparr>)" for P n
    using inv_update_org [OF inv, of "\<lambda>x. x\<lparr>o_name := n\<rparr>" P] by (intro api_ok_cong [OF assms]) simp_all
  then show ?thesis using assms org_update_effect [of raw body d u] by auto
qed

lemma org_destroy_api_ok:
  assumes "api_ok d"
  shows "api_ok (snd (org_destroy raw d u))"
proof -
  have "api_ok (organization_delete k d)" for k
    using assms inv_organization_delete [of d k]
    by (auto simp: api_ok_def statuses_ok_def emails_lower_def organization_delete_def)
  then show ?thesis using assms org_destroy_effect [of raw d u] by auto
qed

lemma member_api_ok:
  assumes "api_ok d"
  shows "api_ok (snd (member_action meth raw mraw body d u))"
proof -
  obtain res d' where step: "member_action meth raw mraw body d u = (res, d')" by fastforce
  have "db_inv d'" using assms member_action_keeps [OF _ step] by (simp add: api_ok_def)
  moreover have "db_users d' = db_users d" "db_subs d' = db_subs d"
    using step by (cases rule: member_cases [of meth raw mraw body d u];
      auto simp: delete_member_row_def save_member_role_def)+
  ultimately show ?thesis using api_ok_cong [OF assms] step by simp
qed

lemma invite_api_ok:
  assumes "api_ok d"
  shows "api_ok (snd (invitation_create now days token raw body d u))"
proof (cases rule: invitation_create_cases [of now days token raw body d u])
  case (refused e)
  with assms show ?thesis by simp
next
  case (created usr org m email role d1)
  have inv: "db_inv d" using assms by (simp add: api_ok_def)
  have "o_id org \<in> org_keys d" using created(1) by (auto simp: org_access_def org_keys_def)
  then have "db_inv d1"
    using inv_insert_invite [OF inv, of "new_invite now days token usr org email role 0"] created(9,10)
    by (simp add: new_invite_def)
  then have "api_ok d1" using api_ok_cong [OF assms] created(10) by simp
  then have "api_ok (enqueue t d1)" for t by (rule api_ok_frame) simp_all
  with created(11) show ?thesis by simp
qed

lemma accept_api_ok:
  assumes "api_ok d"
  shows "api_ok (snd (invitation_accept now body d u))"
proof -
  have inv: "db_inv d" using assms by (simp add: api_ok_def)
  then have "tbl_unique i_token (db_invites d)" by (simp add: db_inv_def unique_ok_def)
  then show ?thesis
  proof (cases rule: accept_cases [of d now body u])
    case (refused e)
    with assms show ?thesis by simp
  next
    case (expired v token i)
    have "api_ok (set_invite_status i EXPIRED d)"
      using inv by (intro api_ok_cong [OF assms] inv_set_invite_status) simp_all
    with expired show ?thesis by simp
  next
    case (accepted v token i m d1)
    have "i_org i \<in> org_keys d" using db_invD(3) [OF inv] accepted(3) by (simp add: refs_ok_def)
    then have "db_inv d1" using get_or_create_member_inv [OF inv _ accepted(8)] by blast
    then have "db_inv (set_invite_status i ACCEPTED d1)" by (rule inv_set_invite_status)
    moreover have "db_users d1 = db_users d" "db_subs d1 = db_subs d"
      using get_or_create_member_spec [OF accepted(8)] by auto
    ultimately have "api_ok (set_invite_status i ACCEPTED d1)"
      by (intro api_ok_cong [OF assms]) simp_all
    with accepted show ?thesis by simp
  qed
qed

lemma project_api_ok:
  assumes "api_ok d"
  shows "api_ok (snd (project_step call u h d))"
proof -
  obtain res d' where step: "project_step call u h d = (res, d')" by fastforce
  have inv: "db_inv d" using assms by (simp add: api_ok_def)
  from step have "api_ok d'"
  proof (cases rule: project_step_cases)
    case same
    with assms show ?thesis by simp
  next
    case (create usr org m p)
    have "o_id org \<in> org_keys d" using resolves_membership(4) [OF create(1)] by (simp add: org_keys_def)
    with create show ?thesis
      using inv_insert_project [OF inv, of p] api_ok_cong [OF assms, of d'] by simp
  next
    case (update usr org m obj obj')
    have key: "p = obj" if "pr_id p = pr_id obj" "p \<in> set (tb_rows (db_projects d))" for p
      using that update(2) db_invD(1) [OF inv] by (auto simp: keys_ok_def dest!: tbl_wfD_inj dest: inj_onD)
    have "db_inv d'" unfolding update(6)
      using key update(4,5) by (intro inv_update_project [OF inv]) auto
    with update show ?thesis using api_ok_cong [OF assms, of d'] by simp
  next
    case (delete usr org m obj)
    with inv show ?thesis using inv_delete_project [OF inv] api_ok_cong [OF assms, of d'] by simp
  qed
  with step show ?thesis by simp
qed

lemma checkout_api_ok:
  assumes "api_ok d"
  shows "api_ok (snd (checkout_view st body d r))"
proof -
  obtain res d' where step: "checkout_view st body d r = (res, d')" by fastforce
  have "db_inv d'" using customer_effect_inv [OF checkout_effect [OF step]] assms by (simp add: api_ok_def)
  moreover have "statuses_ok d'" "db_users d' = db_users d"
    using checkout_effect [OF step] assms
    by (auto simp: customer_effect_def api_ok_def statuses_ok_def)
  ultimately show ?thesis using assms step by (simp add: api_ok_def emails_lower_def)
qed

lemma webhook_api_ok:
  assumes "api_ok d"
  shows "api_ok (snd (webhook_post sc secret ps now payload sg d))"
proof -
  obtain res d' where step: "webhook_post sc secret ps now payload sg d = (res, d')" by fastforce
  have "db_inv d' \<and> statuses_ok d' \<and> db_users d' = db_users d"
    using webhook_keeps [OF _ _ step] assms by (simp add: api_ok_def)
  with assms step show ?thesis by (simp add: api_ok_def emails_lower_def)
qed

lemma login_api_ok:
  assumes "api_ok d" "jwt_ok f"
  shows "api_ok (snd (login_view f rv body d))"
proof -
  have *: "api_ok (snd (f e p d))" for e p
  proof -
    obtain P t tk bl where s: "snd (f e p d) = d\<lparr>db_users := tbl_update_where P
        (\<lambda>u. u\<lparr>u_last_login := t\<rparr>) (db_users d), db_tokens := tk, db_blacklist := bl\<rparr>"
      using assms(2) unfolding jwt_ok_def by meson
    have "api_ok (d\<lparr>db_users := tbl_update_where P (\<lambda>u. u\<lparr>u_last_login := t\<rparr>) (db_users d)\<rparr>)"
      using assms(1) by (intro api_ok_update_user) simp_all
    then show ?thesis unfolding s by (rule api_ok_frame) simp_all
  qed
  have "snd (login_view f rv body d) = (case body of Inl e \<Rightarrow> d | Inr (e, p) \<Rightarrow> snd (f e p d))"
    by (auto simp: login_view_eq split: sum.splits prod.splits)
  with * assms(1) show ?thesis by (auto split: sum.splits prod.splits)
qed

lemma api_step_ok:
  assumes ok: "api_ok d" and jwt: "jwt_ok (sv_jwt_validate sv)"
  shows "api_ok (api_step sv call u d)"
proof (cases call)
  case (Verify_Email now body)
  have "api_ok (d\<lparr>db_users := tbl_update_where P (\<lambda>u. u\<lparr>u_is_email_verified := True\<rparr>) (db_users d)\<rparr>)" for P
    using ok by (intro api_ok_update_user) simp_all
  with ok Verify_Email show ?thesis
    by (auto simp: verify_email_view_eq split: sum.splits)
next
  case (Reset_Request body)
  have "api_ok (enqueue t d)" for t using ok by (rule api_ok_frame) simp_all
  with ok Reset_Request show ?thesis
    by (auto simp: password_reset_request_view_eq Let_def split: sum.splits option.splits)
qed (use ok jwt in \<open>simp_all add: register_api_ok login_api_ok reset_confirm_api_ok org_create_api_ok
  org_update_api_ok org_destroy_api_ok member_api_ok invite_api_ok accept_api_ok project_api_ok
  checkout_api_ok webhook_api_ok\<close>)


lemma fresh_api_ok: "fresh_deployment d \<Longrightarrow> api_ok d"
proof -
  assume "fresh_deployment d"
  then have d: "d = seed_plans_migration empty_db" by (simp add: fresh_deployment_def)
  have frame: "db_users d = tbl_empty" "db_orgs d = tbl_empty" "db_members d = tbl_empty"
    "db_invites d = tbl_empty" "db_subs d = tbl_empty" "db_events d = tbl_empty"
    "db_projects d = tbl_empty"
    by (simp_all add: d seed_plans_migration_eq DEFAULT_PLANS_def update_or_create_plan_def empty_db_def)
  have plans: "tbl_wf p_id (db_plans d)"
    by (simp add: d seed_plans_migration_eq DEFAULT_PLANS_def update_or_create_plan_def empty_db_def
        tbl_defs tbl_wf_def)
  show ?thesis
    by (simp add: api_ok_def db_inv_def keys_ok_def owned_def refs_ok_def unique_ok_def tbl_unique_def
        statuses_ok_def emails_lower_def frame plans user_t.wf_empty org_t.wf_empty member_t.wf_empty
        invite_t.wf_empty sub_t.wf_empty event_t.wf_empty project_t.wf_empty)
qed

interpretation api_system: invariant_system fresh_deployment
  "\<lambda>d d'. jwt_ok (sv_jwt_validate sv) \<and> api_trans sv d d'" api_ok for sv
  by unfold_locales (auto simp: fresh_api_ok api_trans_def intro: api_step_ok)

lemma api_reachable_ok:
  assumes jwt: "jwt_ok (sv_jwt_validate sv)" and "fresh_deployment d0" and "(api_trans sv)\<^sup>*\<^sup>* d0 d"
  shows "api_ok d"
proof -
  have "(\<lambda>d d'. jwt_ok (sv_jwt_validate sv) \<and> api_trans sv d d')\<^sup>*\<^sup>* d0 d"
    using assms(3) jwt by (simp add: Transitive_Closure.rtranclp_mono [THEN predicate2D])
  with assms(2) show ?thesis by (rule api_system.reachable_inv)
qed

text \<open>The API as a whole: starting from a fresh deployment, after any sequence of calls to any
  writing endpoint, by anybody and with any input, every organization has an Owner, primary keys,
  references to organizations and unique columns are intact, every subscription has a known
  status, and every address is in lower case.\<close>

theorem api_invariant:
  assumes "jwt_ok (sv_jwt_validate sv)" and "fresh_deployment d0" and "(api_trans sv)\<^sup>*\<^sup>* d0 d"
  shows "owned d \<and> keys_ok d \<and> refs_ok d \<and> unique_ok d \<and> statuses_ok d \<and> emails_lower d"
  using api_reachable_ok [OF assms] by (simp add: api_ok_def db_inv_def)

definition demo_services :: services where
  "demo_services = \<lparr>sv_slugify = id, sv_normalize_email = id, sv_passwords = demo_passwords,
     sv_crypto = demo_crypto, sv_py_str = demo_str, sv_stripe = demo_api,
     sv_stripe_construct = demo_stripe, sv_webhook_secret = ''whsec'',
     sv_jwt_validate = (\<lambda>e p d. (Inl (PermissionDenied ''No active account found.''), d)),
     sv_require_verified = False, sv_verification_timeout = 259200, sv_reset_timeout = 3600,
     sv_invitation_days = 7\<rparr>"

lemma demo_jwt_ok: "jwt_ok (sv_jwt_validate demo_services)"
proof -
  have "\<exists>P t tk bl. d = d\<lparr>db_users := tbl_update_where P (\<lambda>u. u\<lparr>u_last_login := t\<rparr>) (db_users d),
      db_tokens := tk, db_blacklist := bl\<rparr>" for d :: db
    by (intro exI [of _ "\<lambda>_. False"] exI [of _ None] exI [of _ "db_tokens d"] exI [of _ "db_blacklist d"])
      (simp add: tbl_update_where_def)
  then show ?thesis by (simp add: jwt_ok_def demo_services_def)
qed

theorem api_invariant_witness:
  "owned (api_step demo_services (Org_Create 2 (Inr ''Nova'')) (Some nora)
     (api_step demo_services (Register 1 (Inr (''n@x.io'', ''longpassword'', ''N''))) None
        (seed_plans_migration empty_db)))"
proof -
  let ?d0 = "seed_plans_migration empty_db"
  let ?d1 = "api_step demo_services (Register 1 (Inr (''n@x.io'', ''longpassword'', ''N''))) None ?d0"
  let ?d2 = "api_step demo_services (Org_Create 2 (Inr ''Nova'')) (Some nora) ?d1"
  have "api_trans demo_services ?d0 ?d1" "api_trans demo_services ?d1 ?d2"
    unfolding api_trans_def by blast+
  then have "(api_trans demo_services)\<^sup>*\<^sup>* ?d0 ?d2"
    by (rule rtranclp_trans [OF r_into_rtranclp r_into_rtranclp])
  with api_invariant [OF demo_jwt_ok _ this] show ?thesis by (simp add: fresh_deployment_def)
qed

subsection \<open>Tenant isolation of the whole API\<close>

definition outsider :: "user \<Rightarrow> key \<Rightarrow> db \<Rightarrow> bool" where
  \<comment> \<open>no member of the organization and without an open invitation to it\<close>
  "outsider u k d \<longleftrightarrow>
     (\<forall>m \<in> set (tb_rows (db_members d)). m_org m = k \<longrightarrow> m_user m \<noteq> u_id u) \<and>
     (\<forall>i \<in> set (tb_rows (db_invites d)). i_org i = k \<and> i_status i = PENDING \<longrightarrow>
        str_lower (i_email i) \<noteq> str_lower (u_email u))"

definition tenant_rows ::
  "key \<Rightarrow> db \<Rightarrow> organization list \<times> membership list \<times> project list \<times> subscription list \<times> invitation list" where
  \<comment> \<open>everything an organization owns\<close>
  "tenant_rows k d =
     (for_org o_id k (db_orgs d), for_org m_org k (db_members d), for_org pr_org k (db_projects d),
      for_org s_org k (db_subs d), for_org i_org k (db_invites d))"

definition ran_out :: "time set \<Rightarrow> invitation \<Rightarrow> invitation \<Rightarrow> bool" where
  \<comment> \<open>the same invitation, or one that was open, past its expiry at one of the times, and is closed for it\<close>
  "ran_out T i j \<longleftrightarrow>
     j = i \<or> i_status i = PENDING \<and> (\<exists>now \<in> T. is_expired now i) \<and> j = i\<lparr>i_status := EXPIRED\<rparr>"

definition tenant_kept :: "time set \<Rightarrow> key \<Rightarrow> db \<Rightarrow> db \<Rightarrow> bool" where
  \<comment> \<open>everything an organization owns is as it was, but for invitations that ran out\<close>
  "tenant_kept T k d d' \<longleftrightarrow>
     for_org o_id k (db_orgs d') = for_org o_id k (db_orgs d) \<and>
     for_org m_org k (db_members d') = for_org m_org k (db_members d) \<and>
     for_org pr_org k (db_projects d') = for_org pr_org k (db_projects d) \<and>
     for_org s_org k (db_subs d') = for_org s_org k (db_subs d) \<and>
     list_all2 (ran_out T) (for_org i_org k (db_invites d)) (for_org i_org k (db_invites d'))"

lemma tenant_kept_same: "tenant_rows k d' = tenant_rows k d \<Longrightarrow> tenant_kept T k d d'"
  by (simp add: tenant_kept_def tenant_rows_def ran_out_def list_all2_same)

lemma ran_out_trans: "ran_out T i j \<Longrightarrow> ran_out U j l \<Longrightarrow> ran_out (T \<union> U) i l"
  by (auto simp: ran_out_def)

lemma tenant_kept_trans: "tenant_kept T k d e \<Longrightarrow> tenant_kept U k e f \<Longrightarrow> tenant_kept (T \<union> U) k d f"
  unfolding tenant_kept_def by (auto intro: list_all2_trans [OF ran_out_trans])

lemma tenant_rows_frame:
  assumes "db_orgs d' = db_orgs d" "db_members d' = db_members d" "db_invites d' = db_invites d"
    "db_subs d' = db_subs d" "db_projects d' = db_projects d"
  shows "tenant_rows k d' = tenant_rows k d"
  using assms by (simp add: tenant_rows_def)

lemma outsider_access:
  "outsider u k d \<Longrightarrow> org_access d (Some u) raw u' org m \<Longrightarrow> o_id org \<noteq> k"
  using org_access_row by (fastforce simp: outsider_def org_access_def)

lemma outsider_resolves:
  assumes "outsider u k d" and r: "resolves d (fresh_request meth (Some u) h) usr org m"
  shows "o_id org \<noteq> k"
proof -
  from r have "usr = u" by (rule resolvesE) (simp add: fresh_request_def)
  with resolves_membership [OF r] assms(1) show ?thesis by (auto simp: outsider_def)
qed

lemma for_org_update_org:
  assumes "j \<noteq> k" "\<And>x. o_id (f x) = o_id x"
  shows "for_org o_id k (tbl_update_where (\<lambda>x. o_id x = j) f t) = for_org o_id k t"
proof -
  have "filter (\<lambda>x. o_id x = k) (map (\<lambda>x. if o_id x = j then f x else x) rs) =
      filter (\<lambda>x. o_id x = k) rs" for rs
    using assms by (induction rs) auto
  then show ?thesis by (simp add: for_org_def tbl_filter_def)
qed

lemma expire_kept:
  assumes wf: "tbl_wf i_id (db_invites d)" and i: "i \<in> set (tb_rows (db_invites d))"
    and live: "i_status i = PENDING" "is_expired now i"
  shows "tenant_kept {now} k d (set_invite_status i EXPIRED d)"
proof -
  have key: "x = i" if "x \<in> set (tb_rows (db_invites d))" "i_id x = i_id i" for x
    using that i tbl_wfD_inj [OF wf] by (auto dest: inj_onD)
  let ?f = "\<lambda>x. if i_id x = i_id i then x\<lparr>i_status := EXPIRED\<rparr> else x"
  have "filter (\<lambda>r. i_org r = k) (map ?f rs) = map ?f (filter (\<lambda>r. i_org r = k) rs)" for rs :: "invitation list"
    by (induction rs) auto
  moreover have "list_all2 (ran_out {now}) xs (map ?f xs)" if "set xs \<subseteq> set (tb_rows (db_invites d))" for xs
    using that live by (induction xs) (auto simp: ran_out_def dest: key)
  ultimately show ?thesis
    by (auto simp: tenant_kept_def set_invite_status_def for_org_def tbl_filter_def)
qed

lemma member_isolated:
  assumes "keys_ok d" "outsider u k d" "member_action meth raw mraw body d (Some u) = (res, d')"
  shows "tenant_rows k d' = tenant_rows k d"
proof (cases rule: member_cases [of meth raw mraw body d "Some u"])
  case (removed u' org m t)
  have "m_org t \<noteq> k" using outsider_access [OF assms(2) removed(1)] removed(3) by simp
  moreover have "d' = delete_member_row t d" using assms(3) removed(8) by simp
  ultimately show ?thesis
    using assms(1) removed(2) member_tenant.delete_other_tenant [of "db_members d" t k]
    by (simp add: tenant_rows_def delete_member_row_def keys_ok_def)
next
  case (changed u' org m t r)
  have "m_org t \<noteq> k" using outsider_access [OF assms(2) changed(1)] changed(3) by simp
  moreover have "d' = save_member_role t r d" using assms(3) changed(10) by simp
  ultimately show ?thesis
    using assms(1) changed(2)
      member_tenant.update_other_tenant [of "db_members d" t k "\<lambda>x. x\<lparr>m_role := r\<rparr>"]
    by (simp add: tenant_rows_def save_member_role_def keys_ok_def)
qed (use assms in simp)

lemma invite_isolated:
  assumes "outsider u k d" "invitation_create now days token raw body d (Some u) = (res, d')"
  shows "tenant_rows k d' = tenant_rows k d"
proof (cases rule: invitation_create_cases [of now days token raw body d "Some u"])
  case (created u' org m email role d1)
  have "o_id org \<noteq> k" using outsider_access [OF assms(1) created(1)] .
  moreover have "d' = enqueue (Send_Invitation_Email (tb_next (db_invites d))) d1"
    using assms(2) created(11) by simp
  ultimately show ?thesis using created(10)
    by (simp add: tenant_rows_def invite_tenant.insert_tenant new_invite_def)
qed (use assms in simp)

lemma accept_isolated:
  assumes inv: "db_inv d" "outsider u k d" "invitation_accept now body d (Some u) = (res, d')"
  shows "tenant_kept {now} k d d'"
proof -
  have wf: "tbl_wf i_id (db_invites d)" using db_invD(1) [OF inv(1)] by (simp add: keys_ok_def)
  have "tbl_unique i_token (db_invites d)" using inv(1) by (simp add: db_inv_def unique_ok_def)
  then show ?thesis
  proof (cases rule: accept_cases [of d now body "Some u"])
    case (expired v token i)
    with inv(3) expire_kept [OF wf] show ?thesis by simp
  next
    case (accepted v token i m d1)
    then have "i_org i \<noteq> k" using inv(2) by (auto simp: outsider_def)
    then have "tenant_rows k d1 = tenant_rows k d"
      using get_or_create_member_spec [OF accepted(8)]
      by (auto simp: tenant_rows_def for_org_def tbl_filter_def)
    moreover have "db_invites d1 = db_invites d" using get_or_create_member_spec [OF accepted(8)] by auto
    then have "tenant_rows k (set_invite_status i ACCEPTED d1) = tenant_rows k d1"
      using invite_tenant.update_other_tenant [OF wf accepted(3) \<open>i_org i \<noteq> k\<close>, of "\<lambda>x. x\<lparr>i_status := ACCEPTED\<rparr>"]
      by (simp add: tenant_rows_def) (simp add: set_invite_status_def)
    ultimately show ?thesis using accepted(9) inv(3) by (simp add: tenant_kept_same)
  qed (use inv in \<open>simp add: tenant_kept_same\<close>)
qed

lemma project_isolated:
  assumes "keys_ok d" "outsider u k d" "project_step call (Some u) h d = (res, d')"
  shows "tenant_rows k d' = tenant_rows k d"
proof -
  have *: "project_effect d d' \<and> for_org pr_org k (db_projects d') = for_org pr_org k (db_projects d)"
    using project_writes_isolated [OF assms(1,3)] outsider_resolves [OF assms(2)] by blast
  then obtain t where d': "d' = d\<lparr>db_projects := t\<rparr>" unfolding project_effect_def by blast
  with * show ?thesis by (simp add: tenant_rows_def)
qed


lemma org_create_isolated:
  assumes inv: "db_inv d" and k: "k \<in> org_keys d"
  shows "tenant_rows k (snd (org_create sl now (\<lambda>_ x. x) body d caller)) = tenant_rows k d"
proof -
  have new: "tb_next (db_orgs d) \<noteq> k" using fresh_org_key [OF db_invD(1) [OF inv]] k by blast
  have "tenant_rows k (with_new_org now user name slug d) = tenant_rows k d" for user name slug
    using new
    by (auto simp: with_new_org_def Let_def tenant_rows_def for_org_def tbl_filter_def org_row_def
        owner_row_def create_free_subscription_def get_or_create_subscription_def new_subscription_def
        split: option.splits)
  then show ?thesis using org_create_effect [OF inv, of sl now body caller] by auto
qed

lemma org_update_isolated:
  assumes "outsider u k d"
  shows "tenant_rows k (snd (org_update raw body d (Some u))) = tenant_rows k d"
  using org_update_effect [of raw body d "Some u"] outsider_access [OF assms]
  by (auto simp: tenant_rows_def for_org_update_org)

lemma org_destroy_isolated:
  assumes "outsider u k d"
  shows "tenant_rows k (snd (org_destroy raw d (Some u))) = tenant_rows k d"
proof -
  have "tenant_rows k (organization_delete j d) = tenant_rows k d" if "j \<noteq> k" for j
  proof -
    have "for_org o_id k (tbl_delete_where (\<lambda>r. o_id r = j) (db_orgs d)) = for_org o_id k (db_orgs d)"
      using that by (auto simp: for_org_def tbl_filter_def intro!: filter_cong)
    with that show ?thesis
      by (simp add: tenant_rows_def organization_delete_def member_tenant.delete_tenant_other
          invite_tenant.delete_tenant_other sub_tenant.delete_tenant_other project_tenant.delete_tenant_other)
  qed
  then show ?thesis
    using org_destroy_effect [of raw d "Some u"] outsider_access [OF assms] by auto
qed

lemma checkout_isolated:
  assumes "keys_ok d" "outsider u k d"
  shows "tenant_rows k (snd (checkout_view st body d (fresh_request POST (Some u) h))) = tenant_rows k d"
proof -
  let ?r = "fresh_request POST (Some u) h"
  have *: "tenant_rows k d' = tenant_rows k d"
    if r: "resolves d ?r usr org m" and s: "sub_of_org (o_id org) d = Some sub"
      and e: "ensure_customer st sub org d = (res, d')" for usr org m sub res d'
  proof -
    have other: "s_org sub \<noteq> k"
      using outsider_resolves [OF assms(2) r] sub_of_org_Some [OF s] by simp
    have row: "sub \<in> set (tb_rows (db_subs d))" using sub_of_org_Some [OF s] by simp
    from e have "d' = d \<or> (\<exists>c. d' = d\<lparr>db_subs := tbl_update_where (\<lambda>x. s_id x = s_id sub)
        (\<lambda>x. x\<lparr>s_stripe_customer_id := c\<rparr>) (db_subs d)\<rparr>)"
      by (auto simp: ensure_customer_def split: if_splits sum.splits)
    then show ?thesis
    proof (elim disjE exE)
      fix c assume d': "d' = d\<lparr>db_subs := tbl_update_where (\<lambda>x. s_id x = s_id sub)
        (\<lambda>x. x\<lparr>s_stripe_customer_id := c\<rparr>) (db_subs d)\<rparr>"
      show ?thesis
        using sub_tenant.update_other_tenant [of "db_subs d" sub k "\<lambda>x. x\<lparr>s_stripe_customer_id := c\<rparr>"]
          assms(1) row other by (simp add: d' tenant_rows_def keys_ok_def)
    qed simp
  qed
  show ?thesis
  proof (cases "check_permissions owner_permissions d ?r")
    case (Inl e)
    then show ?thesis by (simp add: checkout_view_def)
  next
    case (Inr r')
    then obtain r1 where "check_permissions tenant_permissions d ?r = Inr r1" "r1 = r'"
      unfolding owner_permissions_chain by (auto simp: bind_res_Inr_iff split: if_splits)
    then obtain usr org m where r: "resolves d ?r usr org m" and r': "r' = active ?r org m"
      by (auto simp: tenant_permissions_Inr active_def)
    show ?thesis using Inr * [OF r]
      by (auto simp: checkout_view_def r' split: sum.splits option.splits if_splits prod.splits)
  qed
qed

text \<open>The endpoints open to everybody touch no organization, whoever calls them.\<close>

fun is_public :: "api_call \<Rightarrow> bool" where
  "is_public (Register _ _) = True"
| "is_public (Verify_Email _ _) = True"
| "is_public (Login _) = True"
| "is_public (Reset_Request _) = True"
| "is_public (Reset_Confirm _ _) = True"
| "is_public _ = False"

definition same_tenants :: "db \<Rightarrow> db \<Rightarrow> bool" where
  "same_tenants d d' \<longleftrightarrow> db_orgs d' = db_orgs d \<and> db_members d' = db_members d \<and>
     db_invites d' = db_invites d \<and> db_subs d' = db_subs d \<and> db_projects d' = db_projects d \<and>
     db_plans d' = db_plans d \<and> db_events d' = db_events d"

lemma public_frame:
  assumes "is_public call" and jwt: "jwt_ok (sv_jwt_validate sv)"
  shows "same_tenants d (api_step sv call u d)"
proof (cases call)
  case (Register now body)
  show ?thesis unfolding Register api_step.simps by (simp add: same_tenants_def register_frames)
next
  case (Verify_Email now body)
  then show ?thesis by (auto simp: same_tenants_def verify_email_view_eq split: sum.splits)
next
  case (Login body)
  have "same_tenants d (snd (sv_jwt_validate sv e p d))" for e p
  proof -
    obtain P t tk bl where "snd (sv_jwt_validate sv e p d) = d\<lparr>db_users := tbl_update_where P
      (\<lambda>u. u\<lparr>u_last_login := t\<rparr>) (db_users d), db_tokens := tk, db_blacklist := bl\<rparr>"
      using jwt unfolding jwt_ok_def by meson
    then show ?thesis by (simp add: same_tenants_def)
  qed
  moreover have "snd (login_view f rv body d) = (case body of Inl e \<Rightarrow> d | Inr (e, p) \<Rightarrow> snd (f e p d))"
    for f :: "string \<Rightarrow> string \<Rightarrow> db \<Rightarrow> (user \<times> claims) outcome" and rv
    by (auto simp: login_view_eq split: sum.splits prod.splits)
  ultimately show ?thesis using Login by (auto simp: same_tenants_def split: sum.splits prod.splits)
next
  case (Reset_Request body)
  then show ?thesis
    by (auto simp: same_tenants_def password_reset_request_view_eq Let_def split: sum.splits option.splits)
next
  case (Reset_Confirm now body)
  show ?thesis unfolding Reset_Confirm api_step.simps
    by (simp add: same_tenants_def reset_confirm_frames)
qed (use assms in simp_all)

lemma public_isolated:
  assumes "is_public call" "jwt_ok (sv_jwt_validate sv)"
  shows "tenant_rows k (api_step sv call u d) = tenant_rows k d"
  using public_frame [OF assms, of d u] by (auto simp: same_tenants_def intro: tenant_rows_frame)

definition accept_times :: "api_call \<Rightarrow> time set" where
  \<comment> \<open>when the call looks at an invitation's expiry\<close>
  "accept_times call = (case call of Invitation_Accept now _ \<Rightarrow> {now} | _ \<Rightarrow> {})"

text \<open>Tenant isolation of the whole API: whatever endpoint a user calls, with whatever path, header
  or body, an organization the user neither belongs to nor has an open invitation of keeps its row,
  members, projects, subscription and invitations (but for one that has run out) exactly as they
  were. Only the signed Stripe webhook stands outside this rule.\<close>

theorem tenant_isolation:
  assumes ok: "api_ok d" and jwt: "jwt_ok (sv_jwt_validate sv)"
    and out: "outsider u k d" "k \<in> org_keys d" and call: "\<And>now p sg. call \<noteq> Webhook now p sg"
  shows "tenant_kept (accept_times call) k d (api_step sv call (Some u) d)"
proof (cases "is_public call")
  case True
  then show ?thesis using jwt by (intro tenant_kept_same public_isolated)
next
  case closed: False
  have inv: "db_inv d" "keys_ok d" using ok by (simp_all add: api_ok_def db_inv_def)
  show ?thesis using closed
  proof (cases call)
    case (Member_Call meth raw mraw body)
    then show ?thesis using member_isolated [OF inv(2) out(1) prod.collapse [symmetric]]
      by (simp add: tenant_kept_same)
  next
    case (Invitation_Create now token raw body)
    then show ?thesis using invite_isolated [OF out(1) prod.collapse [symmetric]]
      by (simp add: tenant_kept_same)
  next
    case (Invitation_Accept now body)
    then show ?thesis using accept_isolated [OF inv(1) out(1) prod.collapse [symmetric]]
      by (simp add: accept_times_def)
  next
    case (Project_Call pc h)
    then show ?thesis using project_isolated [OF inv(2) out(1) prod.collapse [symmetric]]
      by (simp add: tenant_kept_same)
  next
    case (Webhook now p sg)
    with call show ?thesis by blast
  qed (use inv out in \<open>simp_all add: tenant_kept_same org_create_isolated org_update_isolated
    org_destroy_isolated checkout_isolated\<close>)
qed

lemma demo_api_ok: "api_ok demo_db"
  by (simp add: api_ok_def demo_inv demo_statuses demo_emails_lower)

theorem tenant_isolation_witness:
  "tenant_kept {} 2 demo_db
     (api_step demo_services (Member_Call DELETE ''2'' ''4'' (Inl Http404)) (Some olivia) demo_db)"
proof -
  have "outsider olivia 2 demo_db"
    by (simp add: outsider_def demo_defs str_lower_def lower_char_def is_upper_def code_point_def)
  moreover have "2 \<in> org_keys demo_db" by (simp add: org_keys_def demo_defs)
  ultimately show ?thesis
    using tenant_isolation [OF demo_api_ok demo_jwt_ok, of olivia 2
      "Member_Call DELETE ''2'' ''4'' (Inl Http404)"] by (simp add: accept_times_def)
qed

end
