(* ===== verification/Races.thy ===== *)
theory Races
  imports Lifecycle
begin

section \<open>Interleaved requests and the admin site\<close>

text \<open>
  Two step relations over the committed database. \<open>cap_step\<close> interleaves project creations of one
  organization, with the row lock \<open>lock_billing\<close> takes; one request's steps, run alone, are the view
  (\<open>cap_alone\<close>). With a subscription row the cap holds, with none the lock locks nothing and it does
  not. \<open>removal_step\<close> interleaves member removals, which take
  no lock: two of them can leave an organization without an Owner. The last part is the admin site,
  whose paths around \<open>Membership.delete\<close> and \<open>Membership.clean\<close> do the same.
\<close>

subsection \<open>Project creations under the billing lock\<close>

datatype cap_phase = Idle | Locked | Passed | Done

record cap_state =
  cs_db :: db \<comment> \<open>committed\<close>
  cs_lock :: "nat option" \<comment> \<open>who holds the subscription row\<close>
  cs_phase :: "nat \<Rightarrow> cap_phase"

definition release :: "nat \<Rightarrow> nat option \<Rightarrow> nat option" where
  "release i l = (if l = Some i then None else l)"

inductive cap_step :: "key \<Rightarrow> (nat \<Rightarrow> project) \<Rightarrow> cap_state \<Rightarrow> cap_state \<Rightarrow> bool"
  for k :: key and new :: "nat \<Rightarrow> project" where
  lock_row: "cs_phase s i = Idle \<Longrightarrow> lock_billing k (cs_db s) \<noteq> [] \<Longrightarrow> cs_lock s = None \<Longrightarrow>
    cap_step k new s (s\<lparr>cs_lock := Some i, cs_phase := (cs_phase s)(i := Locked)\<rparr>)"
| lock_nothing: "cs_phase s i = Idle \<Longrightarrow> lock_billing k (cs_db s) = [] \<Longrightarrow>
    cap_step k new s (s\<lparr>cs_phase := (cs_phase s)(i := Locked)\<rparr>)"
| pass: "cs_phase s i = Locked \<Longrightarrow> check_can_create_project k (cs_db s) = Inr () \<Longrightarrow>
    cap_step k new s (s\<lparr>cs_phase := (cs_phase s)(i := Passed)\<rparr>)"
| refuse: "cs_phase s i = Locked \<Longrightarrow> check_can_create_project k (cs_db s) = Inl e \<Longrightarrow>
    cap_step k new s (s\<lparr>cs_lock := release i (cs_lock s), cs_phase := (cs_phase s)(i := Done)\<rparr>)"
| commit: "cs_phase s i = Passed \<Longrightarrow> project_insert (new i) (cs_db s) = Inr (p, d') \<Longrightarrow>
    cap_step k new s (s\<lparr>cs_db := d', cs_lock := release i (cs_lock s),
      cs_phase := (cs_phase s)(i := Done)\<rparr>)"
| abort: "cs_phase s i = Passed \<Longrightarrow> project_insert (new i) (cs_db s) = Inl e \<Longrightarrow>
    cap_step k new s (s\<lparr>cs_lock := release i (cs_lock s), cs_phase := (cs_phase s)(i := Done)\<rparr>)"

inductive_cases cap_stepE: "cap_step k new s t"

text \<open>With nobody else about, the steps are \<open>perform_create\<close> of the view.\<close>

lemma cap_alone:
  assumes idle: "cs_phase s i = Idle" "cs_lock s = None" and org: "rq_organization r = Some org"
    and new: "new i = \<lparr>pr_id = 0, pr_org = o_id org, pr_name = fst v, pr_description = snd v,
      pr_created_by = get_create_kwargs r, pr_created_at = now\<rparr>"
    and run: "project_perform_create now r v (cs_db s) = (res, d)"
  shows "\<exists>t. (cap_step (o_id org) new)\<^sup>*\<^sup>* s t \<and> cs_db t = d \<and> cs_lock t = None \<and> cs_phase t i = Done"
proof -
  let ?step = "cap_step (o_id org) new"
  have locked: "\<exists>t. ?step s t \<and> cs_db t = cs_db s \<and> cs_lock t \<in> {None, Some i} \<and> cs_phase t i = Locked"
    using cap_step.lock_row [OF idle(1) _ idle(2), of "o_id org" new]
      cap_step.lock_nothing [OF idle(1), of "o_id org" new] idle(2)
    by (cases "lock_billing (o_id org) (cs_db s) = []") fastforce+
  then obtain t where t: "?step s t" "cs_db t = cs_db s" "cs_lock t \<in> {None, Some i}" "cs_phase t i = Locked"
    by blast
  have free: "release i (cs_lock t) = None" using t(3) by (auto simp: release_def)
  have "\<exists>w. ?step\<^sup>*\<^sup>* t w \<and> cs_db w = d \<and> cs_lock w = None \<and> cs_phase w i = Done"
  proof (cases "check_can_create_project (o_id org) (cs_db s)")
    case (Inl e)
    let ?w = "t\<lparr>cs_lock := release i (cs_lock t), cs_phase := (cs_phase t)(i := Done)\<rparr>"
    have "?step t ?w" using cap_step.refuse [OF t(4), of "o_id org" e new] Inl t(2) by simp
    moreover have "d = cs_db s" using run org Inl by (simp add: project_perform_create_def atomic_def Let_def)
    ultimately show ?thesis using t(2) free by (intro exI [of _ ?w]) auto
  next
    case (Inr x)
    let ?t = "t\<lparr>cs_phase := (cs_phase t)(i := Passed)\<rparr>"
    let ?w = "?t\<lparr>cs_db := d, cs_lock := release i (cs_lock t), cs_phase := (cs_phase t)(i := Done)\<rparr>"
    have pass: "?step t ?t" using cap_step.pass [OF t(4), of "o_id org" new] Inr t(2) by simp
    have last: "?step ?t ?w"
    proof (cases "project_insert (new i) (cs_db s)")
      case refused: (Inl e)
      then have "d = cs_db s"
        using run org Inr new by (simp add: project_perform_create_def atomic_def Let_def stamp_organization_def)
      then have "?w = ?t\<lparr>cs_lock := release i (cs_lock t), cs_phase := (cs_phase t)(i := Done)\<rparr>"
        using t(2) by (cases t) simp
      then show ?thesis using cap_step.abort [of ?t i new e "o_id org"] refused t(2) by simp
    next
      case stored: (Inr y)
      obtain p d' where y: "y = (p, d')" by (cases y)
      have "d = d'" using run org Inr stored new y
        by (simp add: project_perform_create_def atomic_def Let_def stamp_organization_def)
      then show ?thesis using cap_step.commit [of ?t i new p d' "o_id org"] stored y t(2) by simp
    qed
    show ?thesis using pass last free
      by (intro exI [of _ ?w]) (simp add: converse_rtranclp_into_rtranclp)
  qed
  then obtain w where "?step\<^sup>*\<^sup>* t w" "cs_db w = d \<and> cs_lock w = None \<and> cs_phase w i = Done" by blast
  with t(1) show ?thesis by (blast intro: converse_rtranclp_into_rtranclp)
qed

definition cap_start :: "db \<Rightarrow> cap_state \<Rightarrow> bool" where
  "cap_start d s \<longleftrightarrow> s = \<lparr>cs_db = d, cs_lock = None, cs_phase = (\<lambda>_. Idle)\<rparr>"

definition cap_inv :: "key \<Rightarrow> int \<Rightarrow> db \<Rightarrow> cap_state \<Rightarrow> bool" where
  "cap_inv k l d s \<longleftrightarrow>
     db_subs (cs_db s) = db_subs d \<and> db_plans (cs_db s) = db_plans d \<and>
     (\<forall>i. cs_phase s i \<in> {Locked, Passed} \<longrightarrow> cs_lock s = Some i) \<and>
     (\<forall>i. cs_phase s i = Passed \<longrightarrow> int (project_count k (cs_db s)) < l) \<and>
     int (project_count k (cs_db s)) \<le> max (int (project_count k d)) l"

lemma project_insert_Inr:
  "project_insert p d = Inr (q, d') \<Longrightarrow> d' = d\<lparr>db_projects := tbl_insert set_pr_id p (db_projects d)\<rparr>"
  by (auto simp: project_insert_def bind_res_Inr_iff)

lemma cap_inv_holder:
  "cap_inv k l d s \<Longrightarrow> cs_phase s i \<in> {Locked, Passed} \<Longrightarrow> cs_phase s j \<in> {Locked, Passed} \<Longrightarrow> i = j"
  unfolding cap_inv_def by (metis option.inject)

lemma cap_inv_release:
  assumes inv: "cap_inv k l d s" and i: "cs_phase s i \<in> {Locked, Passed}"
  shows "cap_inv k l d (s\<lparr>cs_lock := release i (cs_lock s), cs_phase := (cs_phase s)(i := Done)\<rparr>)"
proof -
  have "cs_phase s j \<notin> {Locked, Passed}" if "j \<noteq> i" for j
    using cap_inv_holder [OF inv i, of j] that by blast
  then show ?thesis using inv unfolding cap_inv_def by simp
qed

lemma cap_inv_step:
  assumes lim: "limit_of k ''max_projects'' d = Some l" and locked: "lock_billing k d \<noteq> []"
    and new: "\<And>i. pr_org (new i) = k" and inv: "cap_inv k l d s" and step: "cap_step k new s t"
  shows "cap_inv k l d t"
proof -
  have frame: "limit_of k ''max_projects'' (cs_db s) = Some l" "lock_billing k (cs_db s) \<noteq> []"
    using inv lim locked limit_of_cong [of k "cs_db s" d]
    by (simp_all add: cap_inv_def sub_of_org_def lock_billing_def)
  from step show ?thesis
  proof (cases rule: cap_step.cases)
    case (lock_row i)
    with inv have "cs_phase s j \<notin> {Locked, Passed}" for j by (auto simp: cap_inv_def)
    with lock_row inv show ?thesis by (auto simp: cap_inv_def)
  next
    case (lock_nothing i)
    with frame show ?thesis by simp
  next
    case (pass i)
    have room: "int (project_count k (cs_db s)) < l"
      using project_cap.check_allows [of k "cs_db s"] pass(3) frame(1) by simp
    have held: "cs_lock s = Some j" if "cs_phase t j \<in> {Locked, Passed}" for j
    proof (cases "j = i")
      case True
      with inv pass(2) show ?thesis unfolding cap_inv_def by blast
    next
      case False
      with that pass(1) have "cs_phase s j \<in> {Locked, Passed}" by simp
      with inv show ?thesis unfolding cap_inv_def by blast
    qed
    have same: "cs_db t = cs_db s" "cs_lock t = cs_lock s" using pass(1) by simp_all
    have old: "db_subs (cs_db s) = db_subs d" "db_plans (cs_db s) = db_plans d"
      "int (project_count k (cs_db s)) \<le> max (int (project_count k d)) l"
      using inv unfolding cap_inv_def by blast+
    show ?thesis
      unfolding cap_inv_def same by (intro conjI allI impI) (rule old | rule room | erule held)+
  next
    case (refuse i e)
    then show ?thesis using cap_inv_release [OF inv, of i] by simp
  next
    case (commit i p d')
    then have room: "int (project_count k (cs_db s)) < l" using inv unfolding cap_inv_def by blast
    have d': "d' = (cs_db s)\<lparr>db_projects := tbl_insert set_pr_id (new i) (db_projects (cs_db s))\<rparr>"
      using project_insert_Inr [OF commit(3)] .
    have free: "cs_phase t j \<notin> {Locked, Passed}" for j
      using cap_inv_holder [OF inv, of i j] commit(1,2) by (cases "j = i") auto
    have grown: "project_count k d' = project_count k (cs_db s) + 1"
      using new [of i] by (simp add: d' project_count_def)
    have db: "cs_db t = d'" "db_subs d' = db_subs (cs_db s)" "db_plans d' = db_plans (cs_db s)"
      using commit(1) by (simp_all add: d')
    have old: "db_subs (cs_db s) = db_subs d" "db_plans (cs_db s) = db_plans d"
      using inv unfolding cap_inv_def by blast+
    show ?thesis unfolding cap_inv_def db old grown using free room by auto
  next
    case (abort i e)
    then show ?thesis using cap_inv_release [OF inv, of i] by simp
  qed
qed

definition locked_cap :: "key \<Rightarrow> int \<Rightarrow> db \<Rightarrow> (nat \<Rightarrow> project) \<Rightarrow> bool" where
  \<comment> \<open>the organization has a cap and a subscription row, and every request creates in it\<close>
  "locked_cap k l d new \<longleftrightarrow> limit_of k ''max_projects'' d = Some l \<and> lock_billing k d \<noteq> [] \<and>
     (\<forall>i. pr_org (new i) = k)"

interpretation cap_system: invariant_system
  "\<lambda>s. locked_cap k l d new \<and> cap_start d s"
  "\<lambda>s t. locked_cap k l d new \<and> cap_step k new s t"
  "cap_inv k l d" for k l d new
proof
  fix s assume "locked_cap k l d new \<and> cap_start d s"
  then show "cap_inv k l d s" by (simp add: cap_start_def cap_inv_def)
next
  fix s t assume "cap_inv k l d s" "locked_cap k l d new \<and> cap_step k new s t"
  then show "cap_inv k l d t"
    unfolding locked_cap_def by (intro cap_inv_step [of k d l new s t]) auto
qed

text \<open>C16. The billing lock closes the race: however any number of project creations of an organization
  with a subscription interleave, the committed number of projects never exceeds the larger of the
  cap and what it was.\<close>

theorem locked_cap_respected:
  assumes sys: "locked_cap k l d new" and "cap_start d s" and run: "(cap_step k new)\<^sup>*\<^sup>* s t"
  shows "int (project_count k (cs_db t)) \<le> max (int (project_count k d)) l"
proof -
  have "(\<lambda>s t. locked_cap k l d new \<and> cap_step k new s t)\<^sup>*\<^sup>* s t"
    using run sys by (simp add: rtranclp_mono [THEN predicate2D])
  then have "cap_inv k l d t"
    using cap_system.reachable_inv [of k l d new s t] assms(1,2) by blast
  then show ?thesis by (simp add: cap_inv_def)
qed

definition racing_project :: "nat \<Rightarrow> project" where
  "racing_project i = demo_project 0 1 ''New'' 1"

theorem locked_cap_respected_witness:
  "\<exists>t. (cap_step 1 racing_project)\<^sup>*\<^sup>* \<lparr>cs_db = demo_db, cs_lock = None, cs_phase = (\<lambda>_. Idle)\<rparr> t \<and>
     cs_lock t = Some 0 \<and> int (project_count 1 (cs_db t)) \<le> 25"
proof -
  let ?s = "\<lparr>cs_db = demo_db, cs_lock = None, cs_phase = (\<lambda>_. Idle)\<rparr>"
  have lim: "limit_of 1 ''max_projects'' demo_db = Some 25" "lock_billing 1 demo_db = [1]"
    "project_count 1 demo_db = 2"
    by code_simp+
  then have sys: "locked_cap 1 25 demo_db racing_project"
    by (simp add: locked_cap_def racing_project_def demo_project_def)
  have "cap_step 1 racing_project ?s (?s\<lparr>cs_lock := Some 0, cs_phase := (cs_phase ?s)(0 := Locked)\<rparr>)"
    by (rule cap_step.lock_row) (simp_all add: lim)
  then have run: "(cap_step 1 racing_project)\<^sup>*\<^sup>* ?s (?s\<lparr>cs_lock := Some 0, cs_phase := (cs_phase ?s)(0 := Locked)\<rparr>)"
    by blast
  from locked_cap_respected [OF sys _ run] lim(3) run show ?thesis
    by (intro exI [of _ "?s\<lparr>cs_lock := Some 0, cs_phase := (cs_phase ?s)(0 := Locked)\<rparr>"])
      (simp add: cap_start_def)
qed

definition unbilled_db :: db where
  \<comment> \<open>Acme with two projects and no subscription; the fallback cap is three\<close>
  "unbilled_db = demo_db\<lparr>db_subs := tbl_empty\<rparr>"

definition racing_state :: "db \<Rightarrow> cap_phase \<Rightarrow> cap_phase \<Rightarrow> cap_state" where
  \<comment> \<open>two requests, no lock held\<close>
  "racing_state d a b = \<lparr>cs_db = d, cs_lock = None, cs_phase = (\<lambda>_. Idle)(0 := a, 1 := b)\<rparr>"

text \<open>Without a subscription row the lock is empty and the race is open: two creations in an
  organization at one below the fallback cap both pass the check and both commit, and the
  organization is over its cap, in a database that keeps every constraint.\<close>

theorem unlocked_cap_exceeded:
  "db_inv unbilled_db \<and> lock_billing 1 unbilled_db = [] \<and>
   limit_of 1 ''max_projects'' unbilled_db = Some 3 \<and> project_count 1 unbilled_db = 2 \<and>
   (\<exists>t. (cap_step 1 racing_project)\<^sup>*\<^sup>* (racing_state unbilled_db Idle Idle) t \<and>
     project_count 1 (cs_db t) = 4)"
proof -
  let ?step = "cap_step 1 racing_project"
  let ?ins = "\<lambda>d. d\<lparr>db_projects := tbl_insert set_pr_id (racing_project 0) (db_projects d)\<rparr>"
  have start: "lock_billing 1 unbilled_db = []" "limit_of 1 ''max_projects'' unbilled_db = Some 3"
    "project_count 1 unbilled_db = 2" "check_can_create_project 1 unbilled_db = Inr ()"
    by code_simp+
  have inv: "db_inv unbilled_db"
    by (simp add: db_inv_def) (intro conjI; code_simp)
  have ins: "project_insert (racing_project i) d =
      Inr (set_pr_id (tb_next (db_projects d)) (racing_project 0), ?ins d)" for i d
    by (simp add: project_insert_def racing_project_def demo_project_def char_field_def guard_simps)
  have "?step (racing_state unbilled_db Idle Idle) (racing_state unbilled_db Locked Idle)"
    using cap_step.lock_nothing [of "racing_state unbilled_db Idle Idle" 0 1 racing_project] start
    by (simp add: racing_state_def fun_upd_twist)
  moreover have "?step (racing_state unbilled_db Locked Idle) (racing_state unbilled_db Locked Locked)"
    using cap_step.lock_nothing [of "racing_state unbilled_db Locked Idle" 1 1 racing_project] start
    by (simp add: racing_state_def fun_upd_twist)
  moreover have "?step (racing_state unbilled_db Locked Locked) (racing_state unbilled_db Passed Locked)"
    using cap_step.pass [of "racing_state unbilled_db Locked Locked" 0 1 racing_project] start
    by (simp add: racing_state_def fun_upd_twist)
  moreover have "?step (racing_state unbilled_db Passed Locked) (racing_state unbilled_db Passed Passed)"
    using cap_step.pass [of "racing_state unbilled_db Passed Locked" 1 1 racing_project] start
    by (simp add: racing_state_def fun_upd_twist)
  moreover have "?step (racing_state unbilled_db Passed Passed)
      (racing_state (?ins unbilled_db) Done Passed)"
    using cap_step.commit [OF _ ins, of "racing_state unbilled_db Passed Passed" 0 1]
    by (simp add: racing_state_def fun_upd_twist release_def)
  moreover have "?step (racing_state (?ins unbilled_db) Done Passed)
      (racing_state (?ins (?ins unbilled_db)) Done Done)"
    using cap_step.commit [OF _ ins, of "racing_state (?ins unbilled_db) Done Passed" 1 1]
    by (simp add: racing_state_def fun_upd_twist release_def)
  ultimately have "?step\<^sup>*\<^sup>* (racing_state unbilled_db Idle Idle)
      (racing_state (?ins (?ins unbilled_db)) Done Done)"
    by (meson converse_rtranclp_into_rtranclp rtranclp.rtrancl_refl)
  moreover have "project_count 1 (?ins (?ins unbilled_db)) = 4"
    using start(3) by (simp add: project_count_def racing_project_def demo_project_def)
  ultimately show ?thesis using start inv by (force simp: racing_state_def)
qed

subsection \<open>Concurrent removals\<close>

text \<open>
  \<open>member\<close> runs outside a transaction: the handler's checks, with the count of the Owners, read the
  committed database, and the row is deleted by a later statement. \<open>approve\<close> is the handler up to
  the \<open>DELETE\<close>, \<open>remove\<close> that statement, on what is committed by then.
\<close>

datatype removal = Waiting | Approved membership | Finished

record removal_state =
  rs_db :: db
  rs_phase :: "nat \<Rightarrow> removal"

definition removal_target :: "string \<Rightarrow> string \<Rightarrow> db \<Rightarrow> user option \<Rightarrow> exn + membership" where
  "removal_target raw member_pk d caller =
     bind_res (org_get_object raw d caller) (\<lambda>(user, org, actor_role).
       get_object_or_404 m_id member_pk (for_org m_org (o_id org) (db_members d)))"

inductive removal_step ::
  "(nat \<Rightarrow> user \<times> string \<times> string) \<Rightarrow> removal_state \<Rightarrow> removal_state \<Rightarrow> bool"
  for reqs where
  approve: "rs_phase s i = Waiting \<Longrightarrow> reqs i = (caller, raw, pk) \<Longrightarrow>
    removal_target raw pk (rs_db s) (Some caller) = Inr target \<Longrightarrow>
    fst (member_action DELETE raw pk (Inr []) (rs_db s) (Some caller)) = Inr None \<Longrightarrow>
    removal_step reqs s (s\<lparr>rs_phase := (rs_phase s)(i := Approved target)\<rparr>)"
| deny: "rs_phase s i = Waiting \<Longrightarrow> reqs i = (caller, raw, pk) \<Longrightarrow>
    fst (member_action DELETE raw pk (Inr []) (rs_db s) (Some caller)) = Inl e \<Longrightarrow>
    removal_step reqs s (s\<lparr>rs_phase := (rs_phase s)(i := Finished)\<rparr>)"
| remove: "rs_phase s i = Approved target \<Longrightarrow>
    removal_step reqs s (s\<lparr>rs_db := delete_member_row target (rs_db s),
      rs_phase := (rs_phase s)(i := Finished)\<rparr>)"

lemma approved_alone:
  \<comment> \<open>approved and removed with nothing in between, a removal is the handler's own\<close>
  assumes t: "removal_target raw pk d caller = Inr target"
    and ok: "fst (member_action DELETE raw pk (Inr []) d caller) = Inr None"
  shows "snd (member_action DELETE raw pk (Inr []) d caller) = delete_member_row target d"
  using assms
  by (auto simp: removal_target_def member_action_def membership_delete_def guard_simps
      split: sum.splits if_splits prod.splits option.splits)

definition two_owner_db :: db where
  \<comment> \<open>Acme with two Owners\<close>
  "two_owner_db = save_member_role acme_admin OWNER demo_db"

definition removals :: "nat \<Rightarrow> user \<times> string \<times> string" where
  \<comment> \<open>each Owner removes the other\<close>
  "removals i = (if i = 0 then (olivia, ''1'', ''2'') else (adam, ''1'', ''1''))"

definition removal_start :: removal_state where
  "removal_start = \<lparr>rs_db = two_owner_db, rs_phase = (\<lambda>_. Waiting)\<rparr>"

text \<open>C38. The last-owner guard is not atomic: from a database that keeps every constraint, two
  removals, each allowed by the handler, can interleave so that the organization has no Owner left
  (the one interleaving that matters is approve, approve, remove, remove).\<close>

theorem concurrent_removals_orphan:
  "db_inv two_owner_db \<and>
   (\<exists>t. (removal_step removals)\<^sup>*\<^sup>* removal_start t \<and> \<not> owned (rs_db t))"
proof -
  let ?step = "removal_step removals"
  let ?m1 = "acme_admin\<lparr>m_role := OWNER\<rparr>"
  let ?s1 = "removal_start\<lparr>rs_phase := (\<lambda>_. Waiting)(0 := Approved ?m1)\<rparr>"
  let ?s2 = "removal_start\<lparr>rs_phase := (\<lambda>_. Waiting)(0 := Approved ?m1, 1 := Approved acme_owner)\<rparr>"
  let ?s3 = "?s2\<lparr>rs_db := delete_member_row ?m1 two_owner_db,
    rs_phase := (\<lambda>_. Waiting)(0 := Finished, 1 := Approved acme_owner)\<rparr>"
  let ?s4 = "?s3\<lparr>rs_db := delete_member_row acme_owner (delete_member_row ?m1 two_owner_db),
    rs_phase := (\<lambda>_. Waiting)(0 := Finished, 1 := Finished)\<rparr>"
  have t: "removal_target ''1'' ''2'' two_owner_db (Some olivia) = Inr ?m1"
    "removal_target ''1'' ''1'' two_owner_db (Some adam) = Inr acme_owner"
    "fst (member_action DELETE ''1'' ''2'' (Inr []) two_owner_db (Some olivia)) = Inr None"
    "fst (member_action DELETE ''1'' ''1'' (Inr []) two_owner_db (Some adam)) = Inr None"
    by code_simp+
  have "?step removal_start ?s1"
    using removal_step.approve [of removal_start 0 removals olivia "''1''" "''2''" ?m1] t
    by (simp add: removal_start_def removals_def)
  moreover have "?step ?s1 ?s2"
    using removal_step.approve [of ?s1 1 removals adam "''1''" "''1''" acme_owner] t
    by (simp add: removal_start_def removals_def)
  moreover have "?step ?s2 ?s3"
    using removal_step.remove [of ?s2 0 ?m1 removals] by (simp add: removal_start_def fun_upd_twist)
  moreover have "?step ?s3 ?s4"
    using removal_step.remove [of ?s3 1 acme_owner removals]
    by (simp add: removal_start_def fun_upd_twist)
  ultimately have "?step\<^sup>*\<^sup>* removal_start ?s4"
    by (meson converse_rtranclp_into_rtranclp rtranclp.rtrancl_refl)
  moreover have "\<not> owned (rs_db ?s4)"
    by (simp add: owned_def) code_simp
  moreover have "db_inv two_owner_db"
    by (simp add: db_inv_def) (intro conjI; code_simp)
  ultimately show ?thesis by blast
qed

subsection \<open>The admin site\<close>

definition only_owner :: "membership \<Rightarrow> db \<Rightarrow> bool" where
  "only_owner m d \<longleftrightarrow> m \<in> set (tb_rows (db_members d)) \<and> m_role m = OWNER \<and>
     (\<forall>x \<in> set (tb_rows (db_members d)). m_org x = m_org m \<and> m_role x = OWNER \<longrightarrow> x = m)"

lemma only_owner_refused:
  assumes "keys_ok d" "only_owner m d"
  shows "membership_delete m d =
    Inl (DjangoValidationError ''Cannot remove the last owner of the organization.'')"
proof -
  have "org_owner_count m d \<le> 1"
  proof (rule ccontr)
    assume "\<not> org_owner_count m d \<le> 1"
    then have "\<exists>x \<in> set (tb_rows (db_members d)). x \<noteq> m \<and> m_org x = m_org m \<and> m_role x = OWNER"
      using model_guard.another_owner [OF assms(1), of m] assms(2) by (auto simp: only_owner_def)
    with assms(2) show False by (auto simp: only_owner_def)
  qed
  with assms(2) show ?thesis by (simp add: membership_delete_def only_owner_def)
qed

lemma orphaned:
  "k \<in> org_keys d \<Longrightarrow> \<forall>x \<in> set (tb_rows (db_members d)). m_org x = k \<longrightarrow> m_role x \<noteq> OWNER \<Longrightarrow>
   \<not> owned d"
  unfolding owned_def org_keys_def by blast

text \<open>The model-level guard is not everywhere: \<open>Membership.delete\<close> refuses to remove the only
  Owner of an organization, but the admin's bulk delete, the deletion of that user and a change form
  that moves the row to another organization (where the user has no membership yet) all leave the
  organization without an Owner.\<close>

theorem admin_can_orphan:
  assumes inv: "db_inv d" and only: "only_owner m d" and k: "k \<noteq> m_org m"
    and fresh: "\<not> tbl_exists (\<lambda>x. m_user x = m_user m \<and> m_org x = k) (db_members d)"
  shows "membership_delete m d =
      Inl (DjangoValidationError ''Cannot remove the last owner of the organization.'') \<and>
    \<not> owned (admin_bulk_delete_memberships [m_id m] d) \<and>
    \<not> owned (user_delete (m_user m) d) \<and>
    (\<exists>d'. admin_change_membership (m\<lparr>m_org := k\<rparr>) d = Inr d' \<and> \<not> owned d')"
proof (intro conjI)
  have org: "m_org m \<in> org_keys d"
    using db_invD(3) [OF inv] only by (auto simp: refs_ok_def only_owner_def)
  have own: "x = m" if "x \<in> set (tb_rows (db_members d))" "m_org x = m_org m" "m_role x = OWNER" for x
    using only that by (auto simp: only_owner_def)
  have id: "x = m" if "x \<in> set (tb_rows (db_members d))" "m_id x = m_id m" for x
    using db_invD(1) [OF inv] only that tbl_wfD_inj [of m_id "db_members d"]
    by (auto simp: keys_ok_def only_owner_def inj_on_def)
  have m: "m \<in> set (tb_rows (db_members d))" "m_role m = OWNER"
    using only by (simp_all add: only_owner_def)
  show "membership_delete m d =
      Inl (DjangoValidationError ''Cannot remove the last owner of the organization.'')"
    using only_owner_refused [OF db_invD(1) [OF inv] only] .
  show "\<not> owned (admin_bulk_delete_memberships [m_id m] d)"
    by (rule orphaned [of "m_org m"]) (use org own in
      \<open>auto simp: admin_bulk_delete_memberships_def org_keys_def\<close>)
  show "\<not> owned (user_delete (m_user m) d)"
    by (rule orphaned [of "m_org m"]) (use org own in
      \<open>auto simp: user_delete_def org_keys_def image_image\<close>)
  let ?f = "\<lambda>x. if m_id x = m_id m
    then x\<lparr>m_user := m_user m, m_org := k, m_role := OWNER\<rparr> else x"
  let ?d = "d\<lparr>db_members := (db_members d)\<lparr>tb_rows := map ?f (tb_rows (db_members d))\<rparr>\<rparr>"
  have "admin_change_membership (m\<lparr>m_org := k\<rparr>) d = Inr ?d"
    using m fresh by (auto simp: admin_change_membership_def membership_clean_def Let_def
      Role_choices_def tbl_exists_iff tbl_update_where_def)
  moreover have "\<not> owned ?d"
    by (rule orphaned [of "m_org m"]) (use org own k in \<open>auto simp: org_keys_def\<close>)
  ultimately show "\<exists>d'. admin_change_membership (m\<lparr>m_org := k\<rparr>) d = Inr d' \<and> \<not> owned d'"
    by blast
qed

theorem admin_can_orphan_witness:
  "\<not> owned (admin_bulk_delete_memberships [1] demo_db) \<and> \<not> owned (user_delete 1 demo_db)"
proof -
  have "only_owner acme_owner demo_db"
    "\<not> tbl_exists (\<lambda>x. m_user x = m_user acme_owner \<and> m_org x = 2) (db_members demo_db)"
    "m_org acme_owner = 1" "m_id acme_owner = 1" "m_user acme_owner = 1"
    unfolding only_owner_def by code_simp+
  then show ?thesis using admin_can_orphan [OF demo_inv, of acme_owner 2] by simp
qed

end
