(* ===== verification/Invite_Races.thy ===== *)
theory Invite_Races
  imports Races
begin

section \<open>Invitations and acceptances interleaved\<close>

text \<open>
  The comments of \<open>invitations\<close> (\<open>organizations/views.py\<close>) and of \<open>lock_billing\<close> (\<open>billing/limits.py\<close>)
  promise that concurrent invitations neither invite an address twice nor exceed the seats of the plan.
  \<open>seat_step\<close> interleaves the statements of any number of invitations of one organization (the
  transaction reads what is committed at each statement, as PostgreSQL's default isolation does) with
  acceptances, which lock the invitation's row and not the billing row and take effect at their commit.
  Deduplication holds in every interleaving; the cap holds up to the number of acceptances that commit
  between the two counts of \<open>check_can_invite_member\<close>, and one such acceptance does exceed it.
\<close>

subsection \<open>A row lock and its holder\<close>

definition only_holder :: "('p \<Rightarrow> bool) \<Rightarrow> nat option \<Rightarrow> (nat \<Rightarrow> 'p) \<Rightarrow> bool" where
  \<comment> \<open>who is in a critical phase holds the lock\<close>
  "only_holder critical lock phase \<longleftrightarrow> (\<forall>i. critical (phase i) \<longrightarrow> lock = Some i)"

lemma holder_alone:
  "only_holder critical lock phase \<Longrightarrow> critical (phase i) \<Longrightarrow> j \<noteq> i \<Longrightarrow> \<not> critical (phase j)"
  by (auto simp: only_holder_def)

lemma holder_take: "only_holder critical None phase \<Longrightarrow> only_holder critical (Some i) (phase(i := p))"
  by (simp add: only_holder_def)

lemma holder_keep:
  "only_holder critical lock phase \<Longrightarrow> critical (phase i) \<Longrightarrow> only_holder critical lock (phase(i := p))"
  by (auto simp: only_holder_def)

lemma holder_release:
  "only_holder critical lock phase \<Longrightarrow> critical (phase i) \<Longrightarrow> \<not> critical p \<Longrightarrow>
   only_holder critical (release i lock) (phase(i := p))"
  by (auto simp: only_holder_def)

subsection \<open>The statements of the transaction\<close>

datatype invite_phase =
    Ready
  | Holding \<comment> \<open>\<open>lock_billing\<close> returned\<close>
  | Checked_Member
  | Checked_Pending
  | Counted nat nat \<comment> \<open>the members counted, and the value of \<open>ss_between\<close> at that time\<close>
  | Admitted
  | Closed

fun in_transaction :: "invite_phase \<Rightarrow> bool" where
  "in_transaction Ready = False"
| "in_transaction Closed = False"
| "in_transaction _ = True"

record seat_state =
  ss_db :: db \<comment> \<open>committed\<close>
  ss_lock :: "nat option" \<comment> \<open>who holds the subscription row\<close>
  ss_phase :: "nat \<Rightarrow> invite_phase"
  ss_between :: nat \<comment> \<open>acceptances committed while somebody stood between his two counts\<close>

definition counting :: "seat_state \<Rightarrow> bool" where
  "counting s \<longleftrightarrow> (\<exists>i m b. ss_phase s i = Counted m b)"

definition proceed :: "nat \<Rightarrow> invite_phase \<Rightarrow> seat_state \<Rightarrow> seat_state" where
  "proceed i p s = s\<lparr>ss_phase := (ss_phase s)(i := p)\<rparr>"

definition finish :: "nat \<Rightarrow> db \<Rightarrow> seat_state \<Rightarrow> seat_state" where
  \<comment> \<open>the end of the transaction, with what it leaves committed\<close>
  "finish i d s = s\<lparr>ss_db := d, ss_lock := release i (ss_lock s), ss_phase := (ss_phase s)(i := Closed)\<rparr>"

inductive seat_step :: "key \<Rightarrow> (nat \<Rightarrow> invitation) \<Rightarrow> seat_state \<Rightarrow> seat_state \<Rightarrow> bool"
  for k :: key and req :: "nat \<Rightarrow> invitation" where
  lock_row: "ss_phase s i = Ready \<Longrightarrow> lock_billing k (ss_db s) \<noteq> [] \<Longrightarrow> ss_lock s = None \<Longrightarrow>
    seat_step k req s (proceed i Holding (s\<lparr>ss_lock := Some i\<rparr>))"
| lock_nothing: "ss_phase s i = Ready \<Longrightarrow> lock_billing k (ss_db s) = [] \<Longrightarrow>
    seat_step k req s (proceed i Holding s)"
| no_member: "ss_phase s i = Holding \<Longrightarrow> \<not> is_member_email k (i_email (req i)) (ss_db s) \<Longrightarrow>
    seat_step k req s (proceed i Checked_Member s)"
| is_member: "ss_phase s i = Holding \<Longrightarrow> is_member_email k (i_email (req i)) (ss_db s) \<Longrightarrow>
    seat_step k req s (finish i (ss_db s) s)"
| not_pending: "ss_phase s i = Checked_Member \<Longrightarrow> \<not> is_pending_email k (i_email (req i)) (ss_db s) \<Longrightarrow>
    seat_step k req s (proceed i Checked_Pending s)"
| is_pending: "ss_phase s i = Checked_Member \<Longrightarrow> is_pending_email k (i_email (req i)) (ss_db s) \<Longrightarrow>
    seat_step k req s (finish i (ss_db s) s)"
| no_limit: "ss_phase s i = Checked_Pending \<Longrightarrow> limit_of k ''max_members'' (ss_db s) = None \<Longrightarrow>
    seat_step k req s (proceed i Admitted s)"
| count_members: "ss_phase s i = Checked_Pending \<Longrightarrow> limit_of k ''max_members'' (ss_db s) = Some l \<Longrightarrow>
    seat_step k req s (proceed i (Counted (member_count k (ss_db s)) (ss_between s)) s)"
| count_pending: "ss_phase s i = Counted m b \<Longrightarrow> limit_of k ''max_members'' (ss_db s) = Some l \<Longrightarrow>
    int (m + pending_count k (ss_db s)) < l \<Longrightarrow> seat_step k req s (proceed i Admitted s)"
| over_limit: "ss_phase s i = Counted m b \<Longrightarrow> limit_of k ''max_members'' (ss_db s) = Some l \<Longrightarrow>
    l \<le> int (m + pending_count k (ss_db s)) \<Longrightarrow> seat_step k req s (finish i (ss_db s) s)"
| insert: "ss_phase s i = Admitted \<Longrightarrow> invitation_insert (req i) (ss_db s) = Inr (r, d) \<Longrightarrow>
    seat_step k req s (finish i d s)"
| insert_fails: "ss_phase s i = Admitted \<Longrightarrow> invitation_insert (req i) (ss_db s) = Inl e \<Longrightarrow>
    seat_step k req s (finish i (ss_db s) s)"
| accept: "d = snd (invitation_accept now body (ss_db s) caller) \<Longrightarrow>
    seat_step k req s (s\<lparr>ss_db := d, ss_between := ss_between s + (if counting s then 1 else 0)\<rparr>)"

subsection \<open>What an acceptance does to the counts\<close>

definition invites_ok :: "db \<Rightarrow> bool" where
  "invites_ok d \<longleftrightarrow> tbl_wf i_id (db_invites d) \<and> tbl_unique i_token (db_invites d) \<and> pending_unique d"

lemma is_pending_closing:
  assumes "tbl_wf i_id (db_invites d)" "i \<in> set (tb_rows (db_invites d))" "s \<noteq> PENDING"
    and "is_pending_email k email (set_invite_status i s d)"
  shows "is_pending_email k email d"
  using assms(3,4) set_invite_status_rows [OF assms(1,2), of s]
  by (auto simp: is_pending_email_def tbl_exists_iff)

lemma closing_ok:
  assumes "invites_ok d" "i \<in> set (tb_rows (db_invites d))" "s \<noteq> PENDING"
  shows "invites_ok (set_invite_status i s d)"
proof -
  have wf: "tbl_wf i_id (db_invites d)" and uniq: "tbl_unique i_token (db_invites d)"
    and pend: "pending_unique d" using assms(1) by (simp_all add: invites_ok_def)
  have "tbl_wf i_id (db_invites (set_invite_status i s d))"
    unfolding set_invite_status_def using invite_t.wf_update [OF wf] by simp
  moreover have "tbl_unique i_token (db_invites (set_invite_status i s d))"
    unfolding set_invite_status_def using token_key.unique_update [OF uniq] by simp
  ultimately show ?thesis using pending_unique_closing [OF pend wf assms(2,3)] by (simp add: invites_ok_def)
qed

lemma accept_effect:
  assumes "invites_ok d" and "d' = snd (invitation_accept now body d caller)"
  shows "invites_ok d' \<and> member_count k d' \<le> member_count k d + 1 \<and> seat_count k d' \<le> seat_count k d \<and>
    (is_pending_email k email d' \<longrightarrow> is_pending_email k email d) \<and>
    db_subs d' = db_subs d \<and> db_plans d' = db_plans d"
proof -
  have wf: "tbl_wf i_id (db_invites d)" and uniq: "tbl_unique i_token (db_invites d)"
    using assms(1) by (simp_all add: invites_ok_def)
  have states: "EXPIRED \<noteq> PENDING" "ACCEPTED \<noteq> PENDING"
    by (simp_all add: EXPIRED_def ACCEPTED_def PENDING_def)
  from uniq show ?thesis
  proof (cases rule: accept_cases [of d now body caller])
    case (refused e)
    with assms show ?thesis by simp
  next
    case (expired u token i)
    with assms(2) have d': "d' = set_invite_status i EXPIRED d" by simp
    show ?thesis unfolding d'
      using closing_ok [OF assms(1) expired(3) states(1)] is_pending_closing [OF wf expired(3) states(1)]
        count_status_change [OF wf expired(3,5) states(1), of k]
      by (auto simp: seat_count_def member_count_def)
  next
    case (accepted u token i m d1)
    with assms(2) have d': "d' = set_invite_status i ACCEPTED d1" by simp
    note spec = get_or_create_member_spec [OF accepted(8)]
    have same: "db_invites d1 = db_invites d" "db_subs d1 = db_subs d" "db_plans d1 = db_plans d"
      using spec by auto
    have ok1: "invites_ok d1" using assms(1) same by (simp add: invites_ok_def pending_unique_def)
    have i: "i \<in> set (tb_rows (db_invites d1))" and wf1: "tbl_wf i_id (db_invites d1)"
      using accepted(3) wf same by simp_all
    have members: "member_count k d1 \<le> member_count k d + (if i_org i = k then 1 else 0)"
      using spec by (auto simp: member_count_def tbl_count_def)
    have "pending_count k d' + (if i_org i = k then 1 else 0) = pending_count k d"
      using count_status_change [OF wf1 i accepted(5) states(2), of k] same
      by (simp add: d' pending_count_def)
    moreover have "member_count k d' = member_count k d1" by (simp add: d' member_count_def)
    ultimately have "member_count k d' \<le> member_count k d + 1 \<and> seat_count k d' \<le> seat_count k d"
      using members by (auto simp: seat_count_def split: if_splits)
    moreover have "is_pending_email k email d' \<longrightarrow> is_pending_email k email d"
      using is_pending_closing [OF wf1 i states(2), of k email] same
      by (auto simp: d' is_pending_email_def)
    ultimately show ?thesis
      using closing_ok [OF ok1 i states(2)] same by (simp add: d')
  qed
qed

lemma insert_effect:
  assumes "invites_ok d" and new: "i_org r = k" "i_status r = PENDING"
    and fresh: "\<not> is_pending_email k (i_email r) d"
    and run: "invitation_insert r d = Inr (r', d')"
  shows "invites_ok d' \<and> seat_count k d' = seat_count k d + 1 \<and>
    db_subs d' = db_subs d \<and> db_plans d' = db_plans d"
proof -
  have wf: "tbl_wf i_id (db_invites d)" and uniq: "tbl_unique i_token (db_invites d)"
    and pend: "pending_unique d" using assms(1) by (simp_all add: invites_ok_def)
  from run have d': "d' = d\<lparr>db_invites := tbl_insert set_i_id r (db_invites d)\<rparr>"
    and token: "\<not> tbl_exists (\<lambda>x. i_token x = i_token r) (db_invites d)"
    by (auto simp: invitation_insert_def bind_res_Inr_iff split: if_splits)
  have "pending_unique d'"
    using pend new fresh
    by (auto simp: d' pending_unique_def is_pending_email_def tbl_exists_iff iexact_def)
  moreover have "tbl_wf i_id (db_invites d')" using invite_t.wf_insert [OF wf] by (simp add: d')
  moreover have "tbl_unique i_token (db_invites d')"
    using token_key.unique_insert [OF uniq] token by (auto simp: d' tbl_exists_iff)
  moreover have "seat_count k d' = seat_count k d + 1"
    using new by (simp add: d' seat_count_def member_count_def pending_count_def)
  ultimately show ?thesis by (simp add: invites_ok_def d')
qed

subsection \<open>The invariant\<close>

fun phase_ok :: "key \<Rightarrow> int \<Rightarrow> db \<Rightarrow> nat \<Rightarrow> invitation \<Rightarrow> invite_phase \<Rightarrow> bool" where
  \<comment> \<open>what the statements so far have established, up to the acceptances in between\<close>
  "phase_ok k l d n r Checked_Pending = (\<not> is_pending_email k (i_email r) d)"
| "phase_ok k l d n r (Counted m b) =
     (\<not> is_pending_email k (i_email r) d \<and> member_count k d + b \<le> m + n)"
| "phase_ok k l d n r Admitted =
     (\<not> is_pending_email k (i_email r) d \<and> int (seat_count k d) < l + int n)"
| "phase_ok k l d n r _ = True"

definition seat_inv :: "key \<Rightarrow> int \<Rightarrow> db \<Rightarrow> (nat \<Rightarrow> invitation) \<Rightarrow> seat_state \<Rightarrow> bool" where
  "seat_inv k l d req s \<longleftrightarrow>
     db_subs (ss_db s) = db_subs d \<and> db_plans (ss_db s) = db_plans d \<and> invites_ok (ss_db s) \<and>
     only_holder in_transaction (ss_lock s) (ss_phase s) \<and>
     (\<forall>i. phase_ok k l (ss_db s) (ss_between s) (req i) (ss_phase s i)) \<and>
     int (seat_count k (ss_db s)) \<le> max (int (seat_count k d)) l + int (ss_between s)"

definition seats_locked :: "key \<Rightarrow> int \<Rightarrow> db \<Rightarrow> (nat \<Rightarrow> invitation) \<Rightarrow> bool" where
  \<comment> \<open>a cap, a subscription row to lock, and requests for pending invitations of the organization\<close>
  "seats_locked k l d req \<longleftrightarrow> limit_of k ''max_members'' d = Some l \<and> lock_billing k d \<noteq> [] \<and>
     (\<forall>i. i_org (req i) = k \<and> i_status (req i) = PENDING)"

definition seat_start :: "db \<Rightarrow> seat_state \<Rightarrow> bool" where
  "seat_start d s \<longleftrightarrow> s = \<lparr>ss_db = d, ss_lock = None, ss_phase = (\<lambda>_. Ready), ss_between = 0\<rparr>"

lemma not_in_transaction: "\<not> in_transaction p \<Longrightarrow> phase_ok k l d n r p"
  by (cases p) simp_all

lemma seat_inv_proceed:
  assumes inv: "seat_inv k l d req s" and i: "in_transaction (ss_phase s i)"
    and ok: "phase_ok k l (ss_db s) (ss_between s) (req i) p"
  shows "seat_inv k l d req (proceed i p s)"
  using inv holder_keep [of in_transaction _ "ss_phase s", where i = i] i ok
  by (simp add: seat_inv_def proceed_def)

lemma seat_inv_finish:
  assumes inv: "seat_inv k l d req s" and i: "in_transaction (ss_phase s i)"
    and d': "db_subs d' = db_subs (ss_db s)" "db_plans d' = db_plans (ss_db s)" "invites_ok d'"
      "int (seat_count k d') \<le> max (int (seat_count k d)) l + int (ss_between s)"
  shows "seat_inv k l d req (finish i d' s)"
proof -
  have hold: "only_holder in_transaction (ss_lock s) (ss_phase s)" using inv by (simp add: seat_inv_def)
  have "phase_ok k l d' (ss_between s) (req j) (((ss_phase s)(i := Closed)) j)" for j
    using holder_alone [OF hold i, of j] by (cases "j = i") (simp_all add: not_in_transaction)
  then show ?thesis
    using inv holder_release [OF hold i, of Closed] d' by (simp add: seat_inv_def finish_def)
qed

lemma seat_inv_step:
  assumes sys: "seats_locked k l d req" and inv: "seat_inv k l d req s" and step: "seat_step k req s t"
  shows "seat_inv k l d req t"
proof -
  have same: "db_subs (ss_db s) = db_subs d" "db_plans (ss_db s) = db_plans d"
    and ok: "invites_ok (ss_db s)" and hold: "only_holder in_transaction (ss_lock s) (ss_phase s)"
    and phase: "phase_ok k l (ss_db s) (ss_between s) (req i) (ss_phase s i)"
    and seats: "int (seat_count k (ss_db s)) \<le> max (int (seat_count k d)) l + int (ss_between s)" for i
    using inv by (simp_all add: seat_inv_def)
  have frame: "limit_of k ''max_members'' (ss_db s) = Some l" "lock_billing k (ss_db s) \<noteq> []"
    using same sys limit_of_cong [of k "ss_db s" d]
    by (simp_all add: seats_locked_def sub_of_org_def lock_billing_def)
  from step show ?thesis
  proof (cases rule: seat_step.cases)
    case (lock_row i)
    with inv holder_take [of in_transaction "ss_phase s" i Holding] show ?thesis
      by (auto simp: seat_inv_def proceed_def)
  next
    case (lock_nothing i)
    with frame show ?thesis by simp
  next
    case (count_members i l')
    with phase [of i] show ?thesis by (simp add: seat_inv_proceed [OF inv])
  next
    case (count_pending i m b l')
    then have "int (seat_count k (ss_db s)) < l + int (ss_between s)"
      using phase [of i] frame by (simp add: seat_count_def)
    with count_pending phase [of i] show ?thesis by (simp add: seat_inv_proceed [OF inv])
  next
    case (over_limit i m b l')
    from over_limit(1,2) seats ok show ?thesis by (simp add: seat_inv_finish [OF inv])
  next
    case (insert i r d')
    then have fresh: "\<not> is_pending_email k (i_email (req i)) (ss_db s)"
      and room: "int (seat_count k (ss_db s)) < l + int (ss_between s)"
      using phase [of i] by simp_all
    have new: "i_org (req i) = k" "i_status (req i) = PENDING" using sys by (simp_all add: seats_locked_def)
    from insert_effect [OF ok new fresh insert(3)] room insert(1,2) show ?thesis
      by (simp add: seat_inv_finish [OF inv])
  next
    case (accept d' now body caller)
    note effect = accept_effect [OF ok accept(2)]
    let ?n = "ss_between s + (if counting s then 1 else 0)"
    have "phase_ok k l d' ?n (req i) (ss_phase s i)" for i
    proof (cases "ss_phase s i")
      case (Counted m b)
      then have "counting s" unfolding counting_def by blast
      with Counted phase [of i] effect [of k "i_email (req i)"] show ?thesis by auto
    qed (use phase [of i] effect [of k "i_email (req i)"] in auto)
    moreover have "int (seat_count k d') \<le> max (int (seat_count k d)) l + int ?n"
    proof -
      have "int (seat_count k d') \<le> int (seat_count k (ss_db s))" using effect [of k] by simp
      with seats show ?thesis by simp
    qed
    ultimately show ?thesis using accept(1) same hold effect by (simp add: seat_inv_def)
  qed (use seats ok phase in \<open>simp_all add: seat_inv_proceed [OF inv] seat_inv_finish [OF inv] frame\<close>)
qed

interpretation seat_system: invariant_system
  "\<lambda>s. seats_locked k l d req \<and> invites_ok d \<and> seat_start d s"
  "\<lambda>s t. seats_locked k l d req \<and> seat_step k req s t"
  "seat_inv k l d req" for k l d req
proof
  fix s assume "seats_locked k l d req \<and> invites_ok d \<and> seat_start d s"
  then show "seat_inv k l d req s" by (auto simp: seat_start_def seat_inv_def only_holder_def)
qed (use seat_inv_step in blast)

subsection \<open>What the lock gives\<close>

text \<open>C17. Concurrent invitations of an organization with a subscription and a cap, interleaved with
  acceptances at will: no address ever has two pending invitations, and members and pending
  invitations together stay within the larger of the cap and what they were, up to the number of
  acceptances that committed between the two counts of some invitation; with none, within the cap.\<close>

theorem invite_races:
  assumes sys: "seats_locked k l d req" and ok: "invites_ok d" and start: "seat_start d s"
    and run: "(seat_step k req)\<^sup>*\<^sup>* s t"
  shows "pending_unique (ss_db t) \<and>
    int (seat_count k (ss_db t)) \<le> max (int (seat_count k d)) l + int (ss_between t)"
proof -
  have "(\<lambda>s t. seats_locked k l d req \<and> seat_step k req s t)\<^sup>*\<^sup>* s t"
    using run sys by (simp add: rtranclp_mono [THEN predicate2D])
  then have "seat_inv k l d req t"
    using seat_system.reachable_inv [of k l d req s t] sys ok start by blast
  then show ?thesis by (simp add: seat_inv_def invites_ok_def)
qed

text \<open>Nothing in between, the statements are the block of the handler.\<close>

lemma uninterrupted:
  assumes block: "invitation_block now days token u org email role (ss_db s) = (Inr r, d')"
    and req: "req i = new_invite now days token u org email role 0"
    and free: "ss_phase s i = Ready" "ss_lock s = None" "lock_billing (o_id org) (ss_db s) \<noteq> []"
  shows "\<exists>t. (seat_step (o_id org) req)\<^sup>*\<^sup>* s t \<and> ss_db t = d' \<and> ss_lock t = None"
proof -
  let ?k = "o_id org"
  let ?s0 = "s\<lparr>ss_lock := Some i\<rparr>"
  let ?step = "seat_step ?k req"
  note b = block [unfolded invitation_block_Inr]
  have email: "i_email (req i) = email" by (simp add: req new_invite_def)
  have ins: "invitation_insert (req i) (ss_db s) = Inr (r, d')"
    using b by (simp add: req invitation_insert_def new_invite_def char_field_def)
  have "?step s (proceed i Holding ?s0)" using free by (intro seat_step.lock_row)
  moreover have "?step (proceed i Holding ?s0) (proceed i Checked_Member ?s0)"
    using seat_step.no_member [of "proceed i Holding ?s0" i ?k req] b email by (simp add: proceed_def)
  moreover have "?step (proceed i Checked_Member ?s0) (proceed i Checked_Pending ?s0)"
    using seat_step.not_pending [of "proceed i Checked_Member ?s0" i ?k req] b email by (simp add: proceed_def)
  moreover have "?step\<^sup>*\<^sup>* (proceed i Checked_Pending ?s0) (proceed i Admitted ?s0)"
  proof (cases "limit_of ?k ''max_members'' (ss_db s)")
    case None
    then show ?thesis
      using seat_step.no_limit [of "proceed i Checked_Pending ?s0" i ?k req]
      by (intro r_into_rtranclp) (simp add: proceed_def)
  next
    case (Some l)
    have room: "int (seat_count ?k (ss_db s)) < l" using b Some seat_cap.check_allows [of ?k "ss_db s"] by simp
    let ?c = "proceed i (Counted (member_count ?k (ss_db s)) (ss_between s)) ?s0"
    have "?step (proceed i Checked_Pending ?s0) ?c"
      using seat_step.count_members [of "proceed i Checked_Pending ?s0" i ?k l req] Some
      by (simp add: proceed_def)
    moreover have "?step ?c (proceed i Admitted ?s0)"
      using seat_step.count_pending [of ?c i "member_count ?k (ss_db s)" "ss_between s" ?k l req] Some room
      by (simp add: proceed_def seat_count_def)
    ultimately show ?thesis by (rule converse_rtranclp_into_rtranclp [OF _ r_into_rtranclp])
  qed
  moreover have "?step (proceed i Admitted ?s0) (finish i d' (proceed i Admitted ?s0))"
    using ins by (intro seat_step.insert) (simp_all add: proceed_def)
  ultimately have "?step\<^sup>*\<^sup>* s (finish i d' (proceed i Admitted ?s0))"
    by (meson converse_rtranclp_into_rtranclp rtranclp.rtrancl_into_rtrancl)
  then show ?thesis by (intro exI [of _ "finish i d' (proceed i Admitted ?s0)"])
      (simp add: finish_def proceed_def release_def)
qed

subsection \<open>What it does not give\<close>

definition full_db :: db where
  \<comment> \<open>Rival on the Free plan with three seats: one member, two pending invitations\<close>
  "full_db = demo_db\<lparr>db_invites := \<lparr>tb_rows = [rival_invite,
     rival_invite\<lparr>i_id := 2, i_email := ''zed@new.test'', i_token := ''tok2''\<rparr>], tb_next = 3\<rparr>\<rparr>"

definition seat_request :: "nat \<Rightarrow> invitation" where
  "seat_request i = rival_invite\<lparr>i_id := 0, i_email := ''yan@new.test'', i_token := ''tok3''\<rparr>"

lemma full_db_facts:
  "lock_billing 2 full_db \<noteq> []" "limit_of 2 ''max_members'' full_db = Some 3" "seat_count 2 full_db = 3"
  by code_simp+

lemma full_db_ok: "db_inv full_db" "invites_ok full_db" "seats_locked 2 3 full_db seat_request"
proof -
  show inv: "db_inv full_db" by (simp add: db_inv_def) (intro conjI; code_simp)
  have "pending_unique full_db"
    unfolding pending_unique_def by (simp add: full_db_def rival_invite_def iexact_def) code_simp
  then show "invites_ok full_db"
    using db_invD(1,4) [OF inv] by (simp add: invites_ok_def keys_ok_def unique_ok_def)
  show "seats_locked 2 3 full_db seat_request"
    using full_db_facts by (simp add: seats_locked_def seat_request_def rival_invite_def)
qed

lemma overshoot_run:
  "\<exists>s t. seat_start full_db s \<and> (seat_step 2 seat_request)\<^sup>*\<^sup>* s t \<and> ss_between t = 1 \<and>
     seat_count 2 (ss_db t) = 4"
proof -
  let ?step = "seat_step 2 seat_request"
  let ?d = "snd (invitation_accept 50 (Inr ''tok1'') full_db (Some nora))"
  let ?e = "?d\<lparr>db_invites := tbl_insert set_i_id (seat_request 0) (db_invites ?d)\<rparr>"
  let ?s = "\<lambda>d l p b. \<lparr>ss_db = d, ss_lock = l, ss_phase = (\<lambda>_. Ready)(0 := p), ss_between = b\<rparr>"
  note full = full_db_facts
  have facts: "member_count 2 full_db = 1"
    "\<not> is_member_email 2 (i_email (seat_request 0)) full_db"
    "\<not> is_pending_email 2 (i_email (seat_request 0)) full_db"
    "limit_of 2 ''max_members'' ?d = Some 3" "pending_count 2 ?d = 1"
    "seat_count 2 ?e = 4" "\<not> tbl_exists (\<lambda>x. i_token x = ''tok3'') (db_invites ?d)"
    by code_simp+
  have ins: "invitation_insert (seat_request 0) ?d =
      Inr (set_i_id (tb_next (db_invites ?d)) (seat_request 0), ?e)"
    using facts(7) by (simp add: invitation_insert_def seat_request_def rival_invite_def char_field_def)
  have "?step (?s full_db None Ready 0) (?s full_db (Some 0) Holding 0)"
    using seat_step.lock_row [of "?s full_db None Ready 0" 0 2 seat_request] full(1)
    by (simp add: proceed_def)
  moreover have "?step (?s full_db (Some 0) Holding 0) (?s full_db (Some 0) Checked_Member 0)"
    using seat_step.no_member [of "?s full_db (Some 0) Holding 0" 0 2 seat_request] facts(2)
    by (simp add: proceed_def)
  moreover have "?step (?s full_db (Some 0) Checked_Member 0) (?s full_db (Some 0) Checked_Pending 0)"
    using seat_step.not_pending [of "?s full_db (Some 0) Checked_Member 0" 0 2 seat_request] facts(3)
    by (simp add: proceed_def)
  moreover have "?step (?s full_db (Some 0) Checked_Pending 0) (?s full_db (Some 0) (Counted 1 0) 0)"
    using seat_step.count_members [of "?s full_db (Some 0) Checked_Pending 0" 0 2 3 seat_request] full(2) facts(1)
    by (simp add: proceed_def)
  moreover have "counting (?s full_db (Some 0) (Counted 1 0) 0)"
    unfolding counting_def by (rule exI [of _ 0], rule exI [of _ 1], rule exI [of _ 0]) simp
  then have "?step (?s full_db (Some 0) (Counted 1 0) 0) (?s ?d (Some 0) (Counted 1 0) 1)"
    using seat_step.accept [of ?d 50 "Inr ''tok1''" "?s full_db (Some 0) (Counted 1 0) 0" "Some nora"]
    by simp
  moreover have "?step (?s ?d (Some 0) (Counted 1 0) 1) (?s ?d (Some 0) Admitted 1)"
    using seat_step.count_pending [of "?s ?d (Some 0) (Counted 1 0) 1" 0 1 0 2 3 seat_request] facts(4,5)
    by (simp add: proceed_def)
  moreover have "?step (?s ?d (Some 0) Admitted 1) (?s ?e None Closed 1)"
    using seat_step.insert [OF _ , of "?s ?d (Some 0) Admitted 1" 0 seat_request] ins
    by (simp add: finish_def release_def)
  ultimately have "?step\<^sup>*\<^sup>* (?s full_db None Ready 0) (?s ?e None Closed 1)"
    by (meson converse_rtranclp_into_rtranclp rtranclp.rtrancl_refl)
  moreover have "seat_start full_db (?s full_db None Ready 0)" by (simp add: seat_start_def fun_upd_idem)
  ultimately show ?thesis using facts(6) by fastforce
qed

text \<open>C18. The members are counted before the pending invitations, and acceptances do not take the billing
  lock: in a full organization an invitation is refused when it runs alone, but an acceptance that
  commits between the two counts is in neither of them, the invitation is admitted, and the
  organization has one seat more in use than its plan has.\<close>

theorem invite_race_exceeds_cap:
  "db_inv full_db \<and> invites_ok full_db \<and> seats_locked 2 3 full_db seat_request \<and> seat_count 2 full_db = 3 \<and>
   (\<exists>e. check_can_invite_member 2 full_db = Inl e \<and> status_code e = Some 402) \<and>
   (\<exists>s t. seat_start full_db s \<and> (seat_step 2 seat_request)\<^sup>*\<^sup>* s t \<and> ss_between t = 1 \<and>
      seat_count 2 (ss_db t) = 4)"
  using full_db_ok full_db_facts overshoot_run seat_cap.refused_at_cap [OF full_db_facts(2)] by simp

text \<open>The witness is that run: the bound is met exactly.\<close>

theorem invite_races_witness:
  "\<exists>s t. seat_start full_db s \<and> (seat_step 2 seat_request)\<^sup>*\<^sup>* s t \<and> pending_unique (ss_db t) \<and>
     seat_count 2 (ss_db t) = 4 \<and> seat_count 2 (ss_db t) \<le> 3 + ss_between t \<and> ss_between t = 1"
proof -
  from overshoot_run obtain s t where run: "seat_start full_db s" "(seat_step 2 seat_request)\<^sup>*\<^sup>* s t"
    "ss_between t = 1" "seat_count 2 (ss_db t) = 4" by blast
  from invite_races [OF full_db_ok(3,2) run(1,2)] full_db_facts(3) run show ?thesis
    by (intro exI [of _ s] exI [of _ t]) simp
qed

end
