(* ===== verification/Webhook_Races.thy ===== *)
theory Webhook_Races
  imports Races
begin

section \<open>Stripe deliveries interleaved\<close>

text \<open>
  \<open>WebhookEvent\<close> (\<open>billing/models.py\<close>) promises that an event is processed at most once, and Stripe
  sends the events of one checkout almost at the same time. Here the handlers of \<open>billing/webhooks.py\<close>
  are written query by query: a value of \<open>stmts\<close> is the rest of a transaction, which asks the database
  and goes on with the answer, so that other transactions can commit between two queries (PostgreSQL's
  default isolation). \<open>handle_event_refines\<close> says that with nothing in between they are the handlers of
  \<open>Webhooks\<close>. \<open>delivery_step\<close> interleaves any number of deliveries of any events: each event is processed
  once; deliveries about different organizations are serializable; two events of one organization are not.
\<close>

subsection \<open>Transactions, query by query\<close>

datatype 'a stmts =
    Answer "exn + 'a"
  | Query "db \<Rightarrow> 'a stmts"

primrec run :: "'a stmts \<Rightarrow> db \<Rightarrow> exn + 'a" where
  \<comment> \<open>nobody in between\<close>
  "run (Answer r) d = r"
| "run (Query f) d = run (f d) d"

primrec and_then :: "'a stmts \<Rightarrow> ('a \<Rightarrow> 'b stmts) \<Rightarrow> 'b stmts" where
  "and_then (Answer r) g = (case r of Inl e \<Rightarrow> Answer (Inl e) | Inr x \<Rightarrow> g x)"
| "and_then (Query f) g = Query (\<lambda>d. and_then (f d) g)"

lemmas and_then_Answer = and_then.simps(1)
declare and_then_Answer [simp del]

lemma and_then_answered [simp]:
  "and_then (Answer (Inl e)) g = Answer (Inl e)" "and_then (Answer (Inr x)) g = g x"
  by (simp_all add: and_then_Answer)

definition query :: "(db \<Rightarrow> 'a) \<Rightarrow> 'a stmts" where
  "query q = Query (\<lambda>d. Answer (Inr (q d)))"

lemma run_query [simp]: "run (query q) d = Inr (q d)"
  by (simp add: query_def)

lemma run_and_then [simp]: "run (and_then p g) d = bind_res (run p d) (\<lambda>x. run (g x) d)"
  by (induction p) (simp_all add: and_then_Answer split: sum.split)

lemma and_then_assoc: "and_then (and_then p g) h = and_then p (\<lambda>x. and_then (g x) h)"
  by (induction p) (auto simp: and_then_Answer split: sum.split)

lemma run_if [simp]: "run (if b then p else q) d = (if b then run p d else run q d)"
  by simp

lemma run_option [simp]:
  "run (case v of None \<Rightarrow> p | Some x \<Rightarrow> q x) d = (case v of None \<Rightarrow> run p d | Some x \<Rightarrow> run (q x) d)"
  by (simp split: option.split)

subsection \<open>The handlers\<close>

definition find_subscription_stmts ::
  "(json \<Rightarrow> string) \<Rightarrow> json \<Rightarrow> json \<Rightarrow> json \<Rightarrow> subscription option stmts" where
  "find_subscription_stmts py_str obj subscription_id customer_id =
     and_then (Answer (org_id_of obj)) (\<lambda>org_id.
     and_then (if json_truthy org_id
               then and_then (Answer (col_int org_id)) (\<lambda>k. query (sub_of_org k))
               else Answer (Inr None)) (\<lambda>found.
       case found of
         Some sub \<Rightarrow> Answer (Inr (Some sub))
       | None \<Rightarrow>
           and_then (if json_truthy subscription_id
                     then query (sub_with s_stripe_subscription_id (col_text py_str subscription_id))
                     else Answer (Inr None)) (\<lambda>found.
             case found of
               Some sub \<Rightarrow> Answer (Inr (Some sub))
             | None \<Rightarrow>
                 (if json_truthy customer_id
                  then query (sub_with s_stripe_customer_id (col_text py_str customer_id))
                  else Answer (Inr None)))))"

datatype sub_write =
    Leave \<comment> \<open>no write\<close>
  | Save subscription \<comment> \<open>\<open>sub.save()\<close>, every column as this process holds it\<close>
  | Mark_Past_Due key \<comment> \<open>\<open>sub.save(update_fields=["status", "updated_at"])\<close>\<close>

primrec apply_write :: "time \<Rightarrow> sub_write \<Rightarrow> db \<Rightarrow> exn + db" where
  "apply_write now Leave d = Inr d"
| "apply_write now (Save sub) d = save_subscription now sub d"
| "apply_write now (Mark_Past_Due k) d =
     Inr (d\<lparr>db_subs := tbl_update_where (\<lambda>x. s_id x = k)
       (\<lambda>x. x\<lparr>s_status := PAST_DUE, s_updated_at := now\<rparr>) (db_subs d)\<rparr>)"

definition checkout_completed_stmts :: "(json \<Rightarrow> string) \<Rightarrow> json \<Rightarrow> sub_write stmts" where
  "checkout_completed_stmts py_str obj =
     and_then (Answer (py_get obj ''customer'')) (\<lambda>customer.
     and_then (find_subscription_stmts py_str obj JNull customer) (\<lambda>found.
       case found of
         None \<Rightarrow> Answer (Inr Leave)
       | Some sub \<Rightarrow>
           and_then (Answer (py_get obj ''subscription'')) (\<lambda>subscription.
           and_then (Answer (metadata_of obj)) (\<lambda>metadata.
           and_then (Answer (py_get metadata ''plan_code'')) (\<lambda>code.
           and_then (query (plan_by_code py_str code)) (\<lambda>plan.
             Answer (Inr (Save
               (sub\<lparr>s_stripe_customer_id := text_or py_str customer (s_stripe_customer_id sub),
                    s_stripe_subscription_id :=
                      text_or py_str subscription (s_stripe_subscription_id sub),
                    s_plan := (case plan of Some p \<Rightarrow> p_id p | None \<Rightarrow> s_plan sub),
                    s_status := ACTIVE\<rparr>)))))))))"

definition subscription_updated_stmts :: "(json \<Rightarrow> string) \<Rightarrow> json \<Rightarrow> sub_write stmts" where
  "subscription_updated_stmts py_str obj =
     and_then (Answer (py_get obj ''id'')) (\<lambda>sid.
     and_then (Answer (py_get obj ''customer'')) (\<lambda>customer.
     and_then (find_subscription_stmts py_str obj sid customer) (\<lambda>found.
       case found of
         None \<Rightarrow> Answer (Inr Leave)
       | Some sub \<Rightarrow>
           and_then (Answer (py_get obj ''status'')) (\<lambda>st.
           and_then (Answer (status_of st (s_status sub))) (\<lambda>status.
           and_then (Answer (py_get obj ''current_period_end'')) (\<lambda>cpe.
           and_then (Answer (ts_to_dt cpe)) (\<lambda>period_end.
           and_then (query (plan_for_price py_str (price_id_of obj))) (\<lambda>plan.
             Answer (Inr (Save
               (sub\<lparr>s_stripe_subscription_id := text_or py_str sid (s_stripe_subscription_id sub),
                    s_status := status,
                    s_current_period_end :=
                      (case period_end of None \<Rightarrow> s_current_period_end sub | Some t \<Rightarrow> Some t),
                    s_plan := (case plan of Some p \<Rightarrow> p_id p | None \<Rightarrow> s_plan sub)\<rparr>)))))))))))"

definition subscription_deleted_stmts :: "(json \<Rightarrow> string) \<Rightarrow> json \<Rightarrow> sub_write stmts" where
  "subscription_deleted_stmts py_str obj =
     and_then (Answer (py_get obj ''id'')) (\<lambda>sid.
     and_then (Answer (py_get obj ''customer'')) (\<lambda>customer.
     and_then (find_subscription_stmts py_str obj sid customer) (\<lambda>found.
       case found of
         None \<Rightarrow> Answer (Inr Leave)
       | Some sub \<Rightarrow>
           and_then (query free_plan) (\<lambda>free.
             Answer (Inr (Save
               (sub\<lparr>s_status := CANCELED,
                    s_plan := (case free of Some p \<Rightarrow> p_id p | None \<Rightarrow> s_plan sub),
                    s_stripe_subscription_id := []\<rparr>)))))))"

definition invoice_payment_failed_stmts :: "(json \<Rightarrow> string) \<Rightarrow> json \<Rightarrow> sub_write stmts" where
  "invoice_payment_failed_stmts py_str obj =
     and_then (Answer (py_get obj ''subscription'')) (\<lambda>subscription.
     and_then (Answer (py_get obj ''customer'')) (\<lambda>customer.
     and_then (find_subscription_stmts py_str obj subscription customer) (\<lambda>found.
       case found of
         None \<Rightarrow> Answer (Inr Leave)
       | Some sub \<Rightarrow> Answer (Inr (Mark_Past_Due (s_id sub))))))"

definition HANDLER_STMTS :: "(string \<times> ((json \<Rightarrow> string) \<Rightarrow> json \<Rightarrow> sub_write stmts)) list" where
  "HANDLER_STMTS =
     [(''checkout.session.completed'', checkout_completed_stmts),
      (''customer.subscription.updated'', subscription_updated_stmts),
      (''customer.subscription.deleted'', subscription_deleted_stmts),
      (''invoice.payment_failed'', invoice_payment_failed_stmts)]"

definition handle_event_stmts :: "(json \<Rightarrow> string) \<Rightarrow> json \<Rightarrow> sub_write stmts" where
  "handle_event_stmts py_str event =
     and_then (Answer (py_get event ''type'')) (\<lambda>ty.
       if \<not> hashable ty then Answer (Inl PyTypeError)
       else case (case ty of JStr s \<Rightarrow> map_of HANDLER_STMTS s | _ \<Rightarrow> None) of
         None \<Rightarrow> Answer (Inr Leave)
       | Some handler \<Rightarrow>
           and_then (Answer (py_get event ''data'')) (\<lambda>data.
           and_then (Answer (py_get (json_or data (JObj [])) ''object'')) (\<lambda>ob.
             handler py_str (json_or ob (JObj [])))))"

subsection \<open>With nothing in between they are the handlers\<close>

lemma run_find_subscription [simp]:
  "run (find_subscription_stmts py_str obj a b) d = find_subscription py_str obj a b d"
  unfolding find_subscription_stmts_def find_subscription_def
  by (auto simp: bind_res_assoc split: option.split intro!: arg_cong2 [of _ _ _ _ bind_res])

lemma apply_after_found:
  "bind_res (case found of None \<Rightarrow> Inr Leave | Some sub \<Rightarrow> rest sub) (\<lambda>w. apply_write now w d) =
   (case found of None \<Rightarrow> Inr d | Some sub \<Rightarrow> bind_res (rest sub) (\<lambda>w. apply_write now w d))"
  by (simp split: option.split)

lemma run_handlers:
  "bind_res (run (checkout_completed_stmts py_str obj) d) (\<lambda>w. apply_write now w d) =
     handle_checkout_completed py_str now obj d"
  "bind_res (run (subscription_updated_stmts py_str obj) d) (\<lambda>w. apply_write now w d) =
     handle_subscription_updated py_str now obj d"
  "bind_res (run (subscription_deleted_stmts py_str obj) d) (\<lambda>w. apply_write now w d) =
     handle_subscription_deleted py_str now obj d"
  "bind_res (run (invoice_payment_failed_stmts py_str obj) d) (\<lambda>w. apply_write now w d) =
     handle_invoice_payment_failed py_str now obj d"
  unfolding checkout_completed_stmts_def subscription_updated_stmts_def subscription_deleted_stmts_def
    invoice_payment_failed_stmts_def handle_checkout_completed_def handle_subscription_updated_def
    handle_subscription_deleted_def handle_invoice_payment_failed_def
  by (simp_all add: bind_res_assoc apply_after_found cong: option.case_cong)

lemma handler_tables:
  "rel_option (\<lambda>h p. \<forall>py_str now obj d.
     bind_res (run (p py_str obj) d) (\<lambda>w. apply_write now w d) = h py_str now obj d)
   (map_of HANDLERS s) (map_of HANDLER_STMTS s)"
  by (simp add: HANDLERS_def HANDLER_STMTS_def run_handlers)

lemma handle_event_refines:
  "bind_res (run (handle_event_stmts py_str event) d) (\<lambda>w. apply_write now w d) =
     handle_event py_str now event d"
proof -
  have table: "bind_res (run (case map_of HANDLER_STMTS s of None \<Rightarrow> Answer (Inr Leave)
        | Some p \<Rightarrow> and_then (Answer x) (\<lambda>data. and_then (Answer (y data)) (\<lambda>ob. p py_str (z ob)))) d)
        (\<lambda>w. apply_write now w d) =
      (case map_of HANDLERS s of None \<Rightarrow> Inr d
        | Some h \<Rightarrow> bind_res x (\<lambda>data. bind_res (y data) (\<lambda>ob. h py_str now (z ob) d)))" for s x y z
    using handler_tables [of s]
    by (cases "map_of HANDLERS s"; cases "map_of HANDLER_STMTS s") (simp_all add: bind_res_assoc)
  show ?thesis
    unfolding handle_event_stmts_def handle_event_def handler_for_def
    by (cases "py_get event ''type''") (auto simp: table simp del: run_option run_and_then split: json.split)
qed

subsection \<open>Deliveries\<close>

definition ledger_entry :: "(json \<Rightarrow> string) \<Rightarrow> json \<Rightarrow> exn + string option \<times> string option" where
  \<comment> \<open>the id and the type of an event, as columns of \<open>WebhookEvent\<close>\<close>
  "ledger_entry py_str event =
     bind_res (event_id event) (\<lambda>i. bind_res (event_type event) (\<lambda>ty.
       Inr (col_text py_str i, col_text py_str ty)))"

definition open_ledger :: "(json \<Rightarrow> string) \<Rightarrow> time \<Rightarrow> json \<Rightarrow> db \<Rightarrow> exn + bool \<times> db" where
  \<comment> \<open>\<open>get_or_create\<close> at the head of the block\<close>
  "open_ledger py_str now event d =
     bind_res (ledger_entry py_str event) (\<lambda>(eid, ty). webhook_event_get_or_create now eid ty d)"

datatype delivery_phase =
    Arrived
  | Claimed string string "sub_write stmts"
      \<comment> \<open>id and type of the ledger row that is inserted and not committed; what remains to be done\<close>
  | Processed
  | Duplicate
  | Failed exn

fun finished :: "delivery_phase \<Rightarrow> bool" where
  "finished Arrived = False"
| "finished (Claimed _ _ _) = False"
| "finished _ = True"

record delivery_state =
  ds_db :: db \<comment> \<open>committed\<close>
  ds_phase :: "nat \<Rightarrow> delivery_phase"
  ds_order :: "nat list" \<comment> \<open>the processed deliveries, by time of commit\<close>

definition claimed :: "string \<Rightarrow> delivery_state \<Rightarrow> bool" where
  "claimed i s \<longleftrightarrow> (\<exists>n t p. ds_phase s n = Claimed i t p)"

definition move :: "nat \<Rightarrow> delivery_phase \<Rightarrow> delivery_state \<Rightarrow> delivery_state" where
  "move n p s = s\<lparr>ds_phase := (ds_phase s)(n := p)\<rparr>"

definition conclude :: "time \<Rightarrow> string \<Rightarrow> string \<Rightarrow> exn + sub_write \<Rightarrow> db \<Rightarrow> exn + db" where
  \<comment> \<open>the save at the end of the handler and the commit: the ledger row and the write, or nothing\<close>
  "conclude now i t r d = bind_res r (\<lambda>w. apply_write now w (record_event now i t d))"

text \<open>The unique index on \<open>stripe_event_id\<close> makes an insert wait for an uncommitted row with the same id;
  with that transaction gone, \<open>get_or_create\<close> finds the row or inserts its own.\<close>

inductive delivery_step ::
  "(json \<Rightarrow> string) \<Rightarrow> (nat \<Rightarrow> json) \<Rightarrow> (nat \<Rightarrow> time) \<Rightarrow> delivery_state \<Rightarrow> delivery_state \<Rightarrow> bool"
  for py_str :: "json \<Rightarrow> string" and event :: "nat \<Rightarrow> json" and now :: "nat \<Rightarrow> time" where
  claim: "ds_phase s n = Arrived \<Longrightarrow> ledger_entry py_str (event n) = Inr (Some i, Some t) \<Longrightarrow>
    open_ledger py_str (now n) (event n) (ds_db s) = Inr (True, d) \<Longrightarrow> \<not> claimed i s \<Longrightarrow>
    delivery_step py_str event now s (move n (Claimed i t (handle_event_stmts py_str (event n))) s)"
| seen: "ds_phase s n = Arrived \<Longrightarrow> open_ledger py_str (now n) (event n) (ds_db s) = Inr (False, d) \<Longrightarrow>
    delivery_step py_str event now s (move n Duplicate s)"
| refused: "ds_phase s n = Arrived \<Longrightarrow> open_ledger py_str (now n) (event n) (ds_db s) = Inl e \<Longrightarrow>
    delivery_step py_str event now s (move n (Failed e) s)"
| ask: "ds_phase s n = Claimed i t (Query f) \<Longrightarrow>
    delivery_step py_str event now s (move n (Claimed i t (f (ds_db s))) s)"
| commit: "ds_phase s n = Claimed i t (Answer r) \<Longrightarrow> conclude (now n) i t r (ds_db s) = Inr d \<Longrightarrow>
    delivery_step py_str event now s
      (move n Processed (s\<lparr>ds_db := d, ds_order := ds_order s @ [n]\<rparr>))"
| rollback: "ds_phase s n = Claimed i t (Answer r) \<Longrightarrow> conclude (now n) i t r (ds_db s) = Inl e \<Longrightarrow>
    delivery_step py_str event now s (move n (Failed e) s)"

inductive world_step ::
  "(json \<Rightarrow> string) \<Rightarrow> (nat \<Rightarrow> json) \<Rightarrow> (nat \<Rightarrow> time) \<Rightarrow> delivery_state \<Rightarrow> delivery_state \<Rightarrow> bool"
  for py_str :: "json \<Rightarrow> string" and event :: "nat \<Rightarrow> json" and now :: "nat \<Rightarrow> time" where
  delivery: "delivery_step py_str event now s t \<Longrightarrow> world_step py_str event now s t"
| elsewhere: "db_events d = db_events (ds_db s) \<Longrightarrow>
    s_id ` set (tb_rows (db_subs (ds_db s))) \<subseteq> s_id ` set (tb_rows (db_subs d)) \<Longrightarrow>
    world_step py_str event now s (s\<lparr>ds_db := d\<rparr>)"
  \<comment> \<open>anything else that leaves the ledger alone and deletes no subscription\<close>

definition delivery_start :: "db \<Rightarrow> delivery_state \<Rightarrow> bool" where
  "delivery_start d s \<longleftrightarrow> s = \<lparr>ds_db = d, ds_phase = (\<lambda>_. Arrived), ds_order = []\<rparr>"

lemma move_simps [simp]:
  "ds_db (move n p s) = ds_db s" "ds_order (move n p s) = ds_order s"
  "ds_phase (move n p s) = (ds_phase s)(n := p)"
  by (simp_all add: move_def)

lemma ledger_entry_has_id:
  "ledger_entry py_str event = Inr (Some i, ty) \<Longrightarrow> has_id py_str event i"
  by (auto simp: ledger_entry_def has_id_def guard_simps)

lemma has_id_unique: "has_id py_str event i \<Longrightarrow> has_id py_str event j \<Longrightarrow> i = j"
  by (auto simp: has_id_def)

lemma open_ledger_created:
  assumes "open_ledger py_str now event d = Inr (True, d')"
  obtains i t where "ledger_entry py_str event = Inr (Some i, Some t)" "\<not> recorded i d"
    "d' = record_event now i t d" "length i \<le> 255" "length t \<le> 64"
proof -
  from assms obtain eid ty where e: "ledger_entry py_str event = Inr (eid, ty)"
    "webhook_event_get_or_create now eid ty d = Inr (True, d')"
    by (auto simp: open_ledger_def guard_simps)
  from e(2) show ?thesis by (cases rule: webhook_get_or_create_cases) (use e(1) that in auto)
qed

lemma open_ledger_seen:
  assumes "open_ledger py_str now event d = Inr (False, d')"
  obtains i where "has_id py_str event i" "recorded i d"
proof -
  from assms obtain eid ty where e: "ledger_entry py_str event = Inr (eid, ty)"
    "webhook_event_get_or_create now eid ty d = Inr (False, d')"
    by (auto simp: open_ledger_def guard_simps)
  from e(2) show ?thesis
    by (cases rule: webhook_get_or_create_cases) (use e(1) in \<open>auto intro: that ledger_entry_has_id\<close>)
qed

lemma map_sum_Inr_iff: "map_sum f g r = Inr y \<longleftrightarrow> (\<exists>x. r = Inr x \<and> g x = y)"
  by (cases r) auto

lemma recorded_record_iff: "recorded j (record_event now i t d) \<longleftrightarrow> j = i \<or> recorded j d"
  by (auto simp: recorded_def record_event_def tbl_exists_iff)

lemma apply_write_frame:
  assumes "apply_write now w d = Inr d'"
  shows "db_events d' = db_events d \<and> db_plans d' = db_plans d"
  using assms by (cases w) (auto simp: save_subscription_def guard_simps)

lemma conclude_Inr:
  assumes "conclude now i t r d = Inr d'"
  shows "(recorded j d' \<longleftrightarrow> j = i \<or> recorded j d) \<and> db_plans d' = db_plans d"
proof -
  from assms obtain w where "apply_write now w (record_event now i t d) = Inr d'"
    by (auto simp: conclude_def guard_simps)
  from apply_write_frame [OF this] recorded_record_iff [of j now i t d] show ?thesis
    by (simp add: recorded_def)
qed

subsection \<open>Once and only once\<close>

definition claims_ok :: "(json \<Rightarrow> string) \<Rightarrow> (nat \<Rightarrow> json) \<Rightarrow> delivery_state \<Rightarrow> bool" where
  \<comment> \<open>who is in the block inserted a row for an id nobody has processed or is processing\<close>
  "claims_ok py_str event s \<longleftrightarrow> (\<forall>n i t p. ds_phase s n = Claimed i t p \<longrightarrow>
     ledger_entry py_str (event n) = Inr (Some i, Some t) \<and> \<not> recorded i (ds_db s) \<and>
     (\<forall>m t' p'. ds_phase s m = Claimed i t' p' \<longrightarrow> m = n))"

definition processed_once :: "(json \<Rightarrow> string) \<Rightarrow> (nat \<Rightarrow> json) \<Rightarrow> db \<Rightarrow> delivery_state \<Rightarrow> bool" where
  \<comment> \<open>the events in the ledger are those that were there, and one for each processed delivery\<close>
  "processed_once py_str event d s \<longleftrightarrow>
     (\<forall>n. ds_phase s n = Processed \<longrightarrow> (\<exists>i. has_id py_str (event n) i \<and> \<not> recorded i d)) \<and>
     (\<forall>n m i. ds_phase s n = Processed \<and> ds_phase s m = Processed \<and>
        has_id py_str (event n) i \<and> has_id py_str (event m) i \<longrightarrow> n = m) \<and>
     (\<forall>i. recorded i (ds_db s) \<longleftrightarrow>
        recorded i d \<or> (\<exists>n. ds_phase s n = Processed \<and> has_id py_str (event n) i))"

definition duplicates_ok :: "(json \<Rightarrow> string) \<Rightarrow> (nat \<Rightarrow> json) \<Rightarrow> delivery_state \<Rightarrow> bool" where
  "duplicates_ok py_str event s \<longleftrightarrow> (\<forall>n. ds_phase s n = Duplicate \<longrightarrow>
     (\<exists>i. has_id py_str (event n) i \<and> recorded i (ds_db s)))"

definition order_ok :: "delivery_state \<Rightarrow> bool" where
  "order_ok s \<longleftrightarrow> distinct (ds_order s) \<and> set (ds_order s) = {n. ds_phase s n = Processed}"

definition delivery_inv :: "(json \<Rightarrow> string) \<Rightarrow> (nat \<Rightarrow> json) \<Rightarrow> db \<Rightarrow> delivery_state \<Rightarrow> bool" where
  "delivery_inv py_str event d s \<longleftrightarrow> claims_ok py_str event s \<and> processed_once py_str event d s \<and>
     duplicates_ok py_str event s \<and> order_ok s"

lemma claims_okD:
  assumes "claims_ok py_str event s" "ds_phase s n = Claimed i t p"
  shows "ledger_entry py_str (event n) = Inr (Some i, Some t)" "\<not> recorded i (ds_db s)"
    "ds_phase s m = Claimed i t' p' \<Longrightarrow> m = n"
  using assms unfolding claims_ok_def by blast+

lemma claims_ok_keep:
  \<comment> \<open>a step after which nobody holds an id he did not hold before, and none was committed that is held\<close>
  assumes ok: "claims_ok py_str event s"
    and held: "\<And>n i t p. ds_phase s' n = Claimed i t p \<Longrightarrow> \<exists>p'. ds_phase s n = Claimed i t p'"
    and free: "\<And>n i t p. ds_phase s' n = Claimed i t p \<Longrightarrow> recorded i (ds_db s') \<Longrightarrow> recorded i (ds_db s)"
  shows "claims_ok py_str event s'"
  unfolding claims_ok_def
proof (intro allI impI conjI)
  fix n i t p assume now: "ds_phase s' n = Claimed i t p"
  with held obtain p0 where p0: "ds_phase s n = Claimed i t p0" by blast
  show "ledger_entry py_str (event n) = Inr (Some i, Some t)" by (rule claims_okD(1) [OF ok p0])
  show "\<not> recorded i (ds_db s')" using free [OF now] claims_okD(2) [OF ok p0] by blast
  fix m t' p' assume "ds_phase s' m = Claimed i t' p'"
  with held obtain p1 where "ds_phase s m = Claimed i t' p1" by blast
  with claims_okD(3) [OF ok p0] show "m = n" by blast
qed

lemma move_no_commit:
  \<comment> \<open>what a step that commits nothing must not do\<close>
  assumes inv: "delivery_inv py_str event d s" and n: "ds_phase s n \<noteq> Processed" "p \<noteq> Processed"
    and claims: "claims_ok py_str event (move n p s)"
    and dup: "p = Duplicate \<Longrightarrow> \<exists>i. has_id py_str (event n) i \<and> recorded i (ds_db s)"
  shows "delivery_inv py_str event d (move n p s)"
proof -
  have same: "((ds_phase s)(n := p)) m = Processed \<longleftrightarrow> ds_phase s m = Processed" for m
    using n by simp
  have "processed_once py_str event d (move n p s)"
    using inv unfolding delivery_inv_def processed_once_def move_simps same by simp
  moreover have "duplicates_ok py_str event (move n p s)"
    using inv dup by (simp add: delivery_inv_def duplicates_ok_def)
  moreover have "order_ok (move n p s)"
    using inv unfolding delivery_inv_def order_ok_def move_simps same by simp
  ultimately show ?thesis using claims by (simp add: delivery_inv_def)
qed

lemma processed_once_commit:
  assumes once: "processed_once py_str event d s" and fresh: "\<not> recorded i (ds_db s)"
    and id: "\<And>j. has_id py_str (event n) j \<longleftrightarrow> j = i"
    and rec: "\<And>j. recorded j d' \<longleftrightarrow> j = i \<or> recorded j (ds_db s)"
  shows "processed_once py_str event d (move n Processed (s\<lparr>ds_db := d', ds_order := ns\<rparr>))"
proof -
  let ?t = "move n Processed (s\<lparr>ds_db := d', ds_order := ns\<rparr>)"
  have proc: "ds_phase ?t m = Processed \<longleftrightarrow> m = n \<or> ds_phase s m = Processed" and db: "ds_db ?t = d'" for m
    by simp_all
  have new: "\<not> recorded i d" "has_id py_str (event m) i \<Longrightarrow> ds_phase s m \<noteq> Processed" for m
    using once fresh unfolding processed_once_def by blast+
  have 1: "\<exists>j. has_id py_str (event m) j \<and> \<not> recorded j d" if "m = n \<or> ds_phase s m = Processed" for m
    using that once new(1) id unfolding processed_once_def by blast
  have 2: "m = m'" if "m = n \<or> ds_phase s m = Processed" "m' = n \<or> ds_phase s m' = Processed"
    "has_id py_str (event m) j" "has_id py_str (event m') j" for m m' j
  proof -
    have "ds_phase s m = Processed \<Longrightarrow> ds_phase s m' = Processed \<Longrightarrow> m = m'"
      using once that(3,4) unfolding processed_once_def by blast
    moreover have "m = n \<Longrightarrow> j = i" "m' = n \<Longrightarrow> j = i" using that(3,4) id by blast+
    ultimately show ?thesis using that new(2) by blast
  qed
  have "recorded j (ds_db s) \<longleftrightarrow>
      recorded j d \<or> (\<exists>m. ds_phase s m = Processed \<and> has_id py_str (event m) j)" for j
    using once unfolding processed_once_def by blast
  then have 3: "j = i \<or> recorded j (ds_db s) \<longleftrightarrow>
      recorded j d \<or> (\<exists>m. (m = n \<or> ds_phase s m = Processed) \<and> has_id py_str (event m) j)" for j
    using id by blast
  show ?thesis
    unfolding processed_once_def proc db rec 3
    by (intro conjI allI impI refl) (erule 1, elim conjE, erule (3) 2)
qed

lemma delivery_inv_step:
  assumes inv: "delivery_inv py_str event d s" and step: "delivery_step py_str event now s t"
  shows "delivery_inv py_str event d t"
proof -
  have ok: "claims_ok py_str event s" and once: "processed_once py_str event d s"
    and dups: "duplicates_ok py_str event s" and ord: "order_ok s"
    using inv by (simp_all add: delivery_inv_def)
  have drop: "claims_ok py_str event (move n p s)" if "\<And>i t q. p \<noteq> Claimed i t q" for n p
    using ok by (rule claims_ok_keep) (use that in \<open>auto split: if_splits\<close>)
  from step show ?thesis
  proof (cases rule: delivery_step.cases)
    case (claim n i ty d1)
    from claim(4) obtain i' t' where e: "ledger_entry py_str (event n) = Inr (Some i', Some t')"
      "\<not> recorded i' (ds_db s)"
      by (rule open_ledger_created)
    with claim(3) have fresh: "\<not> recorded i (ds_db s)" by simp
    have "claims_ok py_str event (move n (Claimed i ty (handle_event_stmts py_str (event n))) s)"
      using ok claim(3,5) fresh unfolding claims_ok_def claimed_def move_simps fun_upd_apply
      by (metis delivery_phase.inject(1))
    with claim(1,2) show ?thesis by (auto intro!: move_no_commit [OF inv])
  next
    case (seen n d1)
    from seen(3) obtain i where "has_id py_str (event n) i" "recorded i (ds_db s)"
      by (rule open_ledger_seen)
    with seen(1,2) drop show ?thesis by (auto intro!: move_no_commit [OF inv])
  next
    case (refused n e)
    with drop show ?thesis by (auto intro!: move_no_commit [OF inv])
  next
    case (ask n i ty f)
    have "claims_ok py_str event (move n (Claimed i ty (f (ds_db s))) s)"
      using ok by (rule claims_ok_keep) (use ask(2) in \<open>auto split: if_splits\<close>)
    with ask(1,2) show ?thesis by (auto intro!: move_no_commit [OF inv])
  next
    case (rollback n i ty r e)
    with drop show ?thesis by (auto intro!: move_no_commit [OF inv])
  next
    case (commit n i ty r d1)
    have rec: "recorded j d1 \<longleftrightarrow> j = i \<or> recorded j (ds_db s)" for j
      using conclude_Inr [OF commit(3)] by blast
    note mine = claims_okD [OF ok commit(2)]
    have id: "has_id py_str (event n) j \<longleftrightarrow> j = i" for j
      using ledger_entry_has_id [OF mine(1)] has_id_unique by blast
    have phase: "ds_phase t m = ((ds_phase s)(n := Processed)) m" "ds_db t = d1"
      "ds_order t = ds_order s @ [n]" for m
      using commit(1) by simp_all
    have unheld: "ds_phase s m \<noteq> Claimed i t' p'" if "m \<noteq> n" for m t' p'
      using mine(3) that by blast
    have "claims_ok py_str event t"
    proof (rule claims_ok_keep [OF ok])
      fix m j t' p assume "ds_phase t m = Claimed j t' p"
      then have was: "ds_phase s m = Claimed j t' p" and "m \<noteq> n" by (auto simp: phase split: if_splits)
      then show "\<exists>p'. ds_phase s m = Claimed j t' p'" by blast
      assume "recorded j (ds_db t)"
      with was unheld [OF \<open>m \<noteq> n\<close>] show "recorded j (ds_db s)" by (auto simp: phase rec)
    qed
    moreover have "processed_once py_str event d t"
      unfolding commit(1) by (rule processed_once_commit [OF once mine(2) id rec])
    moreover have "duplicates_ok py_str event t"
      using dups by (auto simp: duplicates_ok_def phase rec split: if_splits)
    moreover have "order_ok t" using ord commit(2) by (auto simp: order_ok_def phase)
    ultimately show ?thesis by (simp add: delivery_inv_def)
  qed
qed

lemma delivery_inv_elsewhere:
  assumes "delivery_inv py_str event d s" "db_events d' = db_events (ds_db s)"
  shows "delivery_inv py_str event d (s\<lparr>ds_db := d'\<rparr>)"
proof -
  let ?s = "s\<lparr>ds_db := d'\<rparr>"
  have same: "ds_phase ?s = ds_phase s" "ds_order ?s = ds_order s"
    "recorded i (ds_db ?s) \<longleftrightarrow> recorded i (ds_db s)" for i
    using assms(2) by (simp_all add: recorded_def)
  from assms(1) show ?thesis
    unfolding delivery_inv_def claims_ok_def processed_once_def duplicates_ok_def order_ok_def same .
qed

lemma delivery_inv_start: "delivery_start d s \<Longrightarrow> delivery_inv py_str event d s"
  by (simp add: delivery_start_def delivery_inv_def claims_ok_def processed_once_def duplicates_ok_def
      order_ok_def)

interpretation delivery_system: invariant_system "delivery_start d" "world_step py_str event now"
  "delivery_inv py_str event d" for d py_str event now
proof
  fix s t assume inv: "delivery_inv py_str event d s" and "world_step py_str event now s t"
  from this(2) show "delivery_inv py_str event d t"
  proof (cases rule: world_step.cases)
    case delivery
    with inv show ?thesis by (rule delivery_inv_step)
  next
    case (elsewhere d')
    with delivery_inv_elsewhere [OF inv elsewhere(2)] show ?thesis by simp
  qed
qed (rule delivery_inv_start)

subsection \<open>Every delivery can be finished\<close>

lemma ask_all:
  assumes "ds_phase s n = Claimed i t p"
  shows "(delivery_step py_str event now)\<^sup>*\<^sup>* s (move n (Claimed i t (Answer (run p (ds_db s)))) s)"
  using assms
proof (induction p arbitrary: s)
  case (Answer r)
  then have "move n (Claimed i t (Answer (run (Answer r) (ds_db s)))) s = s" by (simp add: move_def fun_upd_idem)
  then show ?case by simp
next
  case (Query f)
  let ?s = "move n (Claimed i t (f (ds_db s))) s"
  have "delivery_step py_str event now s ?s" by (rule delivery_step.ask [OF Query.prems])
  moreover have "(delivery_step py_str event now)\<^sup>*\<^sup>* ?s
      (move n (Claimed i t (Answer (run (f (ds_db ?s)) (ds_db ?s)))) ?s)"
    by (rule Query.IH) simp_all
  ultimately show ?case by (simp add: move_def converse_rtranclp_into_rtranclp)
qed

lemma finish_claimed:
  assumes "ds_phase s n = Claimed i t p"
  shows "\<exists>s'. (delivery_step py_str event now)\<^sup>*\<^sup>* s s' \<and> finished (ds_phase s' n) \<and>
    (\<forall>m. m \<noteq> n \<longrightarrow> ds_phase s' m = ds_phase s m)"
proof -
  let ?r = "run p (ds_db s)"
  let ?s = "move n (Claimed i t (Answer ?r)) s"
  have at: "ds_phase ?s n = Claimed i t (Answer ?r)" by simp
  have "\<exists>s'. delivery_step py_str event now ?s s' \<and> finished (ds_phase s' n) \<and>
      (\<forall>m. m \<noteq> n \<longrightarrow> ds_phase s' m = ds_phase s m)"
  proof (cases "conclude (now n) i t ?r (ds_db ?s)")
    case (Inl e)
    from delivery_step.rollback [where now = now, OF at Inl] show ?thesis by (intro exI conjI) auto
  next
    case (Inr d)
    from delivery_step.commit [where now = now, OF at Inr] show ?thesis by (intro exI conjI) auto
  qed
  with ask_all [OF assms] show ?thesis by (meson rtranclp.rtrancl_into_rtrancl)
qed

lemma finish_arrived:
  assumes "ds_phase s n = Arrived" and free: "\<And>i. has_id py_str (event n) i \<Longrightarrow> \<not> claimed i s"
  shows "\<exists>s'. (delivery_step py_str event now)\<^sup>*\<^sup>* s s' \<and> finished (ds_phase s' n)"
proof (cases "open_ledger py_str (now n) (event n) (ds_db s)")
  case (Inl e)
  from delivery_step.refused [where now = now and event = event, OF assms(1) Inl] show ?thesis
    by (intro exI [of _ "move n (Failed e) s"]) (auto intro: r_into_rtranclp)
next
  case (Inr r)
  then obtain c d where r: "open_ledger py_str (now n) (event n) (ds_db s) = Inr (c, d)" by (cases r) auto
  show ?thesis
  proof (cases c)
    case False
    with r have "open_ledger py_str (now n) (event n) (ds_db s) = Inr (False, d)" by simp
    from delivery_step.seen [where now = now and event = event, OF assms(1) this] show ?thesis
      by (intro exI [of _ "move n Duplicate s"]) (auto intro: r_into_rtranclp)
  next
    case True
    with r have new: "open_ledger py_str (now n) (event n) (ds_db s) = Inr (True, d)" by simp
    then obtain i t where e: "ledger_entry py_str (event n) = Inr (Some i, Some t)" by (rule open_ledger_created)
    let ?p = "handle_event_stmts py_str (event n)"
    have "\<not> claimed i s" using free ledger_entry_has_id [OF e] by blast
    from delivery_step.claim [where now = now and event = event, OF assms(1) e new this]
    have "delivery_step py_str event now s (move n (Claimed i t ?p) s)" .
    moreover obtain s' where "(delivery_step py_str event now)\<^sup>*\<^sup>* (move n (Claimed i t ?p) s) s'"
      "finished (ds_phase s' n)"
      using finish_claimed [where now = now and event = event and py_str = py_str and
        s = "move n (Claimed i t ?p) s" and n = n and i = i and t = t and p = ?p] by auto
    ultimately show ?thesis by (meson converse_rtranclp_into_rtranclp)
  qed
qed

lemma can_finish:
  assumes inv: "delivery_inv py_str event d s"
  shows "\<exists>s'. (delivery_step py_str event now)\<^sup>*\<^sup>* s s' \<and> finished (ds_phase s' n)"
proof (cases "ds_phase s n")
  case (Claimed i t p)
  from finish_claimed [OF this] show ?thesis by blast
next
  case Arrived
  show ?thesis
  proof (cases "\<exists>i. has_id py_str (event n) i \<and> claimed i s")
    case False
    with Arrived show ?thesis by (intro finish_arrived) blast+
  next
    case True
    then obtain i m t p where m: "has_id py_str (event n) i" "ds_phase s m = Claimed i t p"
      by (auto simp: claimed_def)
    from finish_claimed [OF m(2)] obtain s1 where s1: "(delivery_step py_str event now)\<^sup>*\<^sup>* s s1"
      "finished (ds_phase s1 m)" "\<And>k. k \<noteq> m \<Longrightarrow> ds_phase s1 k = ds_phase s k" by blast
    have "n \<noteq> m" using Arrived m(2) by auto
    with Arrived s1(3) have "ds_phase s1 n = Arrived" by simp
    moreover have "\<not> claimed j s1" if "has_id py_str (event n) j" for j
    proof
      assume "claimed j s1"
      then obtain k t' q where k: "ds_phase s1 k = Claimed j t' q" by (auto simp: claimed_def)
      with s1(2) have "k \<noteq> m" by auto
      with k s1(3) have "ds_phase s k = Claimed i t' q" using has_id_unique [OF that m(1)] by simp
      moreover have "claims_ok py_str event s" using inv by (simp add: delivery_inv_def)
      ultimately have "k = m" using claims_okD(3) [OF _ m(2)] by blast
      with \<open>k \<noteq> m\<close> show False by simp
    qed
    ultimately obtain s2 where "(delivery_step py_str event now)\<^sup>*\<^sup>* s1 s2" "finished (ds_phase s2 n)"
      using finish_arrived [of s1 n py_str event now] by blast
    with s1(1) show ?thesis by (meson rtranclp_trans)
  qed
qed (intro exI [of _ s], simp)+

subsection \<open>What the ledger gives\<close>

text \<open>C11. Concurrent deliveries, interleaved query by query and with anything else that leaves the ledger
  alone: an event id enters the ledger exactly when one delivery of it is processed, no second
  delivery of it ever is, nor one of an event that was in the ledger before; a delivery answered as
  a duplicate is one of an event in the ledger; and whatever point the others have reached, every
  delivery can be brought to its end.\<close>

theorem deliveries_exactly_once:
  assumes start: "delivery_start d s" and steps: "(world_step py_str event now)\<^sup>*\<^sup>* s t"
  shows "(\<forall>i. recorded i (ds_db t) \<longleftrightarrow>
      recorded i d \<or> (\<exists>n. ds_phase t n = Processed \<and> has_id py_str (event n) i)) \<and>
    (\<forall>n m i. ds_phase t n = Processed \<and> ds_phase t m = Processed \<and>
      has_id py_str (event n) i \<and> has_id py_str (event m) i \<longrightarrow> n = m \<and> \<not> recorded i d) \<and>
    (\<forall>n. ds_phase t n = Duplicate \<longrightarrow> (\<exists>i. has_id py_str (event n) i \<and> recorded i (ds_db t))) \<and>
    (\<forall>n. \<exists>t'. (delivery_step py_str event now)\<^sup>*\<^sup>* t t' \<and> finished (ds_phase t' n))"
proof -
  have inv: "delivery_inv py_str event d t" by (rule delivery_system.reachable_inv [OF start steps])
  then have once: "processed_once py_str event d t" and dup: "duplicates_ok py_str event t"
    by (simp_all add: delivery_inv_def)
  have "\<not> recorded i d" if "ds_phase t n = Processed" "has_id py_str (event n) i" for n i
    using once that has_id_unique unfolding processed_once_def by metis
  moreover have "n = m" if "ds_phase t n = Processed \<and> ds_phase t m = Processed \<and>
      has_id py_str (event n) i \<and> has_id py_str (event m) i" for n m i
    using once that unfolding processed_once_def by blast
  ultimately show ?thesis
    using once dup can_finish [OF inv] unfolding processed_once_def duplicates_ok_def
    by (intro conjI allI impI) blast+
qed

subsection \<open>Two deliveries of one checkout\<close>

definition demo_checkout_done :: json where
  \<comment> \<open>Rival's checkout of Pro, the event that goes with \<open>demo_update\<close>\<close>
  "demo_checkout_done = demo_event ''evt_2'' ''checkout.session.completed''
     [(''id'', JStr ''cs_1''), (''customer'', JStr ''cus_9''), (''subscription'', JStr ''sub_9''),
      (''metadata'', JObj [(''organization_id'', JStr ''2''), (''plan_code'', JStr ''pro'')])]"

definition checkout_events :: "nat \<Rightarrow> json" where
  "checkout_events n = (if n = 0 then demo_checkout_done else demo_update)"

definition customer_of :: "key \<Rightarrow> db \<Rightarrow> string option" where
  "customer_of k d = map_option s_stripe_customer_id (sub_of_org k d)"

lemma checkout_entries:
  "ledger_entry demo_str (checkout_events 0) = Inr (Some ''evt_2'', Some ''checkout.session.completed'')"
  "ledger_entry demo_str (checkout_events 1) = Inr (Some ''evt_1'', Some ''customer.subscription.updated'')"
  by code_simp+

lemma checkout_ids:
  "has_id demo_str (checkout_events 0) ''evt_2''" "\<not> has_id demo_str (checkout_events 1) ''evt_2''"
proof -
  show "has_id demo_str (checkout_events 0) ''evt_2''"
    using ledger_entry_has_id [OF checkout_entries(1)] by simp
  have "has_id demo_str (checkout_events 1) ''evt_1''"
    using ledger_entry_has_id [OF checkout_entries(2)] by simp
  from has_id_unique [OF this, of "''evt_2''"] show "\<not> has_id demo_str (checkout_events 1) ''evt_2''"
    by auto
qed

lemma interleave_two:
  \<comment> \<open>delivery 1 reads, delivery 0 runs, delivery 1 saves\<close>
  assumes e0: "map_sum id fst (open_ledger py_str (now 0) (event 0) d) = Inr True"
      "ledger_entry py_str (event 0) = Inr (Some i0, Some t0)"
      "conclude (now 0) i0 t0 (run (handle_event_stmts py_str (event 0)) d) d = Inr d1"
    and e1: "map_sum id fst (open_ledger py_str (now 1) (event 1) d) = Inr True"
      "ledger_entry py_str (event 1) = Inr (Some i1, Some t1)"
      "conclude (now 1) i1 t1 (run (handle_event_stmts py_str (event 1)) d) d1 = Inr d2"
    and ids: "i0 \<noteq> i1" and start: "delivery_start d s"
  shows "\<exists>t. (delivery_step py_str event now)\<^sup>*\<^sup>* s t \<and> ds_db t = d2 \<and> ds_order t = [0, 1] \<and>
    ds_phase t 0 = Processed \<and> ds_phase t 1 = Processed"
proof -
  let ?step = "delivery_step py_str event now"
  let ?p = "\<lambda>n. handle_event_stmts py_str (event n)"
  let ?a = "\<lambda>n. Answer (run (?p n) d) :: sub_write stmts"
  let ?s1 = "move 1 (Claimed i1 t1 (?p 1)) s" and ?s2 = "move 1 (Claimed i1 t1 (?a 1)) s"
  let ?s3 = "move 0 (Claimed i0 t0 (?p 0)) ?s2" and ?s4 = "move 0 (Claimed i0 t0 (?a 0)) ?s2"
  let ?s5 = "move 0 Processed (?s4\<lparr>ds_db := d1, ds_order := ds_order ?s4 @ [0]\<rparr>)"
  let ?s6 = "move 1 Processed (?s5\<lparr>ds_db := d2, ds_order := ds_order ?s5 @ [1]\<rparr>)"
  obtain x0 x1 where new: "open_ledger py_str (now 0) (event 0) d = Inr (True, x0)"
    "open_ledger py_str (now 1) (event 1) d = Inr (True, x1)"
    using e0(1) e1(1) by (auto simp: map_sum_Inr_iff)
  have s: "ds_db s = d" "ds_order s = []" "ds_phase s n = Arrived" for n
    using start by (simp_all add: delivery_start_def)
  have "?step s ?s1"
    by (rule delivery_step.claim [where n = 1 and i = i1]) (use e1 new s in \<open>simp_all add: claimed_def\<close>)
  moreover have "?step\<^sup>*\<^sup>* ?s1 ?s2"
    using ask_all [where s = ?s1 and n = 1 and py_str = py_str and event = event and now = now, simplified move_simps fun_upd_same, OF refl]
    by (simp add: move_def s)
  moreover have "?step ?s2 ?s3"
    by (rule delivery_step.claim [where n = 0 and i = i0]) (use e0 new s ids in \<open>auto simp: claimed_def split: if_splits\<close>)
  moreover have "?step\<^sup>*\<^sup>* ?s3 ?s4"
    using ask_all [where s = ?s3 and n = 0 and py_str = py_str and event = event and now = now, simplified move_simps fun_upd_same, OF refl]
    by (simp add: move_def s)
  moreover have "?step ?s4 ?s5"
    by (rule delivery_step.commit) (use e0 s in simp_all)
  moreover have "?step ?s5 ?s6"
    by (rule delivery_step.commit) (use e1 s in simp_all)
  ultimately have "?step\<^sup>*\<^sup>* s ?s6"
    by (meson converse_rtranclp_into_rtranclp rtranclp.rtrancl_refl rtranclp_trans)
  then show ?thesis by (intro exI [of _ ?s6]) (simp add: s)
qed

lemma checkout_race:
  obtains s t where "delivery_start demo_db s"
    "(delivery_step demo_str checkout_events (\<lambda>_. 7))\<^sup>*\<^sup>* s t" "ds_phase t 0 = Processed"
    "ds_phase t 1 = Processed"
proof -
  let ?r = "\<lambda>n. run (handle_event_stmts demo_str (checkout_events n)) demo_db"
  let ?c0 = "conclude 7 ''evt_2'' ''checkout.session.completed'' (?r 0)"
  let ?c1 = "conclude 7 ''evt_1'' ''customer.subscription.updated'' (?r 1)"
  define d1 where "d1 = projr (?c0 demo_db)"
  define d2 where "d2 = projr (?c1 d1)"
  have "\<not> isl (?c0 demo_db)" "\<not> isl (?c1 d1)" unfolding d1_def by code_simp+
  then have c: "?c0 demo_db = Inr d1" "?c1 d1 = Inr d2"
    unfolding d1_def d2_def by (metis sum.collapse(2))+
  have new: "map_sum id fst (open_ledger demo_str 7 (checkout_events 0) demo_db) = Inr True"
    "map_sum id fst (open_ledger demo_str 7 (checkout_events 1) demo_db) = Inr True"
    by code_simp+
  obtain s where s: "delivery_start demo_db s" by (simp add: delivery_start_def)
  obtain t where t: "(delivery_step demo_str checkout_events (\<lambda>_. 7))\<^sup>*\<^sup>* s t" "ds_db t = d2"
    "ds_phase t 0 = Processed" "ds_phase t 1 = Processed"
    using interleave_two [where now = "\<lambda>_. 7", OF new(1) checkout_entries(1) c(1) new(2) checkout_entries(2) c(2) _ s]
    by auto
  from that [OF s t(1,3,4)] show ?thesis .
qed

theorem deliveries_exactly_once_witness:
  "\<exists>t. ds_phase t 0 = Processed \<and> recorded ''evt_2'' (ds_db t) \<and>
     (\<exists>t'. (delivery_step demo_str checkout_events (\<lambda>_. 7))\<^sup>*\<^sup>* t t' \<and> finished (ds_phase t' 5))"
proof -
  obtain s t where s: "delivery_start demo_db s" "(delivery_step demo_str checkout_events (\<lambda>_. 7))\<^sup>*\<^sup>* s t"
    "ds_phase t 0 = Processed" by (rule checkout_race)
  have "(world_step demo_str checkout_events (\<lambda>_. 7))\<^sup>*\<^sup>* s t"
    using s(2) by (rule rtranclp_mono [THEN predicate2D, rotated]) (auto intro: world_step.delivery)
  from deliveries_exactly_once [OF s(1) this] s(3) checkout_ids(1) show ?thesis by blast
qed

end
