(* ===== verification/Webhook_Serial.thy ===== *)
theory Webhook_Serial
  imports Webhook_Races
begin

section \<open>Serializability of deliveries\<close>

text \<open>
  What the interleavings of \<open>Webhook_Races\<close> leave committed. The handlers read a subscription, change it
  in memory and save every column, with no lock. \<open>local_to\<close> says which rows a transaction reads, so that
  the rest of it can be rerun after the commits of others: deliveries about different organizations
  are serializable in the order of their commits. Two events of one organization are not, and even
  one after the other their order matters.
\<close>

subsection \<open>Deliveries about different organizations\<close>

definition event_org :: "json \<Rightarrow> key option" where
  \<comment> \<open>the organization an event's metadata names\<close>
  "event_org event =
     (case bind_res (py_get event ''data'') (\<lambda>data.
           bind_res (py_get (json_or data (JObj [])) ''object'') (\<lambda>ob.
           bind_res (org_id_of (json_or ob (JObj []))) (\<lambda>v.
             if json_truthy v then col_int v else Inl PyKeyError))) of
        Inl _ \<Rightarrow> None
      | Inr k \<Rightarrow> Some k)"

definition same_view :: "key \<Rightarrow> db \<Rightarrow> db \<Rightarrow> bool" where
  "same_view k d d' \<longleftrightarrow> sub_of_org k d \<noteq> None \<and> sub_of_org k d' = sub_of_org k d \<and>
     db_plans d' = db_plans d"

primrec local_to :: "key \<Rightarrow> 'a stmts \<Rightarrow> bool" where
  \<comment> \<open>as long as the organization has a subscription, every query is about that row or the plans\<close>
  "local_to k (Answer r) = True"
| "local_to k (Query f) = ((\<forall>d. sub_of_org k d \<noteq> None \<longrightarrow> local_to k (f d)) \<and>
     (\<forall>d d'. same_view k d d' \<longrightarrow> f d = f d'))"

lemma local_queryD:
  assumes "local_to k (Query f)"
  shows "sub_of_org k d \<noteq> None \<Longrightarrow> local_to k (f d)" and "same_view k d d' \<Longrightarrow> f d = f d'"
  using assms unfolding local_to.simps by blast+

lemma same_viewD: "same_view k d d' \<Longrightarrow> sub_of_org k d \<noteq> None"
  by (simp add: same_view_def)

lemma local_run: "local_to k p \<Longrightarrow> same_view k d d' \<Longrightarrow> run p d = run p d'"
proof (induction p)
  case (Query f)
  have same: "f d = f d'" by (rule local_queryD(2) [OF Query.prems])
  have "local_to k (f d)" by (rule local_queryD(1) [OF Query.prems(1) same_viewD [OF Query.prems(2)]])
  then have "run (f d) d = run (f d) d'" by (rule Query.IH [OF rangeI _ Query.prems(2)])
  with arg_cong [OF same, of "\<lambda>p. run p d'"] show ?case by simp
qed simp

lemma local_and_then: "local_to k p \<Longrightarrow> (\<And>x. local_to k (g x)) \<Longrightarrow> local_to k (and_then p g)"
proof (induction p)
  case (Query f)
  have "and_then (f d) g = and_then (f d') g" if "same_view k d d'" for d d'
    by (rule arg_cong [OF local_queryD(2) [OF Query.prems(1) that]])
  moreover have "local_to k (and_then (f d) g)" if "sub_of_org k d \<noteq> None" for d
    using Query.IH [of "f d"] local_queryD(1) [OF Query.prems(1) that] Query.prems(2) by simp
  ultimately show ?case unfolding and_then.simps local_to.simps by blast
qed (auto simp: and_then_Answer split: sum.split)

lemma local_plans:
  assumes "\<And>d d'. db_plans d' = db_plans d \<Longrightarrow> q d' = q d"
  shows "local_to k (query q)"
  unfolding query_def local_to.simps same_view_def by (auto intro: assms)

lemma local_found:
  assumes "org_id_of obj = Inr v" "json_truthy v" "col_int v = Inr k"
    and g: "\<And>sub. local_to k (g (Some sub))"
  shows "local_to k (and_then (find_subscription_stmts py_str obj a b) g)"
proof -
  have "local_to k (and_then (query (sub_of_org k)) h)" if "\<And>sub. local_to k (h (Some sub))"
    for h :: "subscription option \<Rightarrow> 'a stmts"
    using that by (auto simp: query_def same_view_def)
  then have "local_to k (and_then (and_then (query (sub_of_org k)) h) g)"
    if "\<And>sub. h (Some sub) = Answer (Inr (Some sub))" for h
    using that g by (simp add: and_then_assoc)
  then show ?thesis using assms(1-3) by (simp add: find_subscription_stmts_def)
qed

lemma plans_only:
  "db_plans d' = db_plans d \<Longrightarrow> plan_by_code py_str code d' = plan_by_code py_str code d"
  "db_plans d' = db_plans d \<Longrightarrow> plan_for_price py_str price d' = plan_for_price py_str price d"
  "db_plans d' = db_plans d \<Longrightarrow> free_plan d' = free_plan d"
  by (simp_all add: plan_by_code_def plan_for_price_def free_plan_def split: option.split)

lemma event_org_object:
  assumes "event_org event = Some k"
  obtains data ob v where "py_get event ''data'' = Inr data"
    "py_get (json_or data (JObj [])) ''object'' = Inr ob"
    "org_id_of (json_or ob (JObj [])) = Inr v" "json_truthy v" "col_int v = Inr k"
  using assms unfolding event_org_def
  by (auto simp: guard_simps split: sum.splits if_splits)

lemma handlers_local:
  assumes "org_id_of obj = Inr v" "json_truthy v" "col_int v = Inr k"
    and "map_of HANDLER_STMTS ty = Some h"
  shows "local_to k (h py_str obj)"
proof -
  note found = local_found [OF assms(1-3)]
  have "local_to k (checkout_completed_stmts py_str obj)"
    unfolding checkout_completed_stmts_def
    by (auto intro!: local_and_then found local_plans plans_only)
  moreover have "local_to k (subscription_updated_stmts py_str obj)"
    unfolding subscription_updated_stmts_def
    by (auto intro!: local_and_then found local_plans plans_only)
  moreover have "local_to k (subscription_deleted_stmts py_str obj)"
    unfolding subscription_deleted_stmts_def
    by (auto intro!: local_and_then found local_plans plans_only)
  moreover have "local_to k (invoice_payment_failed_stmts py_str obj)"
    unfolding invoice_payment_failed_stmts_def
    by (auto intro!: local_and_then found)
  ultimately show ?thesis using assms(4) by (auto simp: HANDLER_STMTS_def split: if_splits)
qed

lemma event_local:
  assumes "event_org event = Some k"
  shows "local_to k (handle_event_stmts py_str event)"
  using assms
proof (rule event_org_object)
  fix data ob v assume o: "py_get event ''data'' = Inr data"
    "py_get (json_or data (JObj [])) ''object'' = Inr ob"
    "org_id_of (json_or ob (JObj [])) = Inr v" "json_truthy v" "col_int v = Inr k"
  show ?thesis
    unfolding handle_event_stmts_def
    by (rule local_and_then) (auto simp: o(1,2) split: option.split json.split
        intro: handlers_local [OF o(3-5)])
qed

text \<open>What a handler writes for such an event is that organization's row.\<close>

definition write_row :: "sub_write \<Rightarrow> key option" where
  "write_row w = (case w of Leave \<Rightarrow> None | Save sub \<Rightarrow> Some (s_id sub) | Mark_Past_Due k \<Rightarrow> Some k)"

lemma found_row:
  assumes "org_id_of obj = Inr v" "json_truthy v" "col_int v = Inr k" "sub_of_org k d = Some sub"
  shows "find_subscription py_str obj a b d = Inr (Some sub)"
  using assms by (simp add: find_subscription_def)

lemma handlers_row:
  assumes "org_id_of obj = Inr v" "json_truthy v" "col_int v = Inr k" "sub_of_org k d = Some sub"
    and "map_of HANDLER_STMTS ty = Some h" "run (h py_str obj) d = Inr w"
  shows "write_row w = Some (s_id sub)"
proof -
  note found = found_row [OF assms(1-4)]
  have "h = checkout_completed_stmts \<or> h = subscription_updated_stmts \<or> h = subscription_deleted_stmts \<or>
      h = invoice_payment_failed_stmts"
    using assms(5) by (auto simp: HANDLER_STMTS_def split: if_splits)
  with assms(6) show ?thesis
    by (elim disjE) (auto simp: checkout_completed_stmts_def subscription_updated_stmts_def
        subscription_deleted_stmts_def invoice_payment_failed_stmts_def found guard_simps write_row_def)
qed

lemma event_row:
  assumes "event_org event = Some k" "sub_of_org k d = Some sub"
    and run: "run (handle_event_stmts py_str event) d = Inr w"
  shows "write_row w = None \<or> write_row w = Some (s_id sub)"
  using assms(1)
proof (rule event_org_object)
  fix data ob v assume o: "py_get event ''data'' = Inr data"
    "py_get (json_or data (JObj [])) ''object'' = Inr ob"
    "org_id_of (json_or ob (JObj [])) = Inr v" "json_truthy v" "col_int v = Inr k"
  from run consider "w = Leave" | ty h where "map_of HANDLER_STMTS ty = Some h"
      "run (h py_str (json_or ob (JObj []))) d = Inr w"
    unfolding handle_event_stmts_def
    by (auto simp: o(1,2) guard_simps split: if_splits option.splits json.splits)
  then show ?thesis
    by cases (simp add: write_row_def, use handlers_row [OF o(3-5) assms(2)] in blast)
qed

lemma sub_of_org_rows:
  "sub_of_org k d = (case for_org s_org k (db_subs d) of [] \<Rightarrow> None | s # _ \<Rightarrow> Some s)"
proof -
  have "find P xs = (case filter P xs of [] \<Rightarrow> None | s # _ \<Rightarrow> Some s)" for P and xs :: "subscription list"
    by (induction xs) simp_all
  then show ?thesis by (simp add: sub_of_org_def for_org_def tbl_first_def tbl_filter_def)
qed

lemma write_other_org:
  assumes wf: "tbl_wf s_id (db_subs d)" and row: "write_row w = None \<or> write_row w = Some (s_id sub)"
    and sub: "sub_of_org k d = Some sub" and run: "apply_write now w d = Inr d'"
  shows "tbl_wf s_id (db_subs d') \<and> (j \<noteq> k \<longrightarrow> sub_of_org j d' = sub_of_org j d) \<and>
    (sub_of_org j d \<noteq> None \<longrightarrow> sub_of_org j d' \<noteq> None)"
proof -
  consider "d' = d" | f where "\<And>x. s_id (f x) = s_id x \<and> s_org (f x) = s_org x"
      "d' = d\<lparr>db_subs := tbl_update_where (\<lambda>x. s_id x = s_id sub) f (db_subs d)\<rparr>"
  proof (cases w)
    case Leave
    with run show ?thesis by (intro that(1)) simp
  next
    case (Save new)
    with run row show ?thesis
      by (intro that(2) [of "\<lambda>x. x\<lparr>s_plan := s_plan new, s_stripe_customer_id := s_stripe_customer_id new,
          s_stripe_subscription_id := s_stripe_subscription_id new, s_status := s_status new,
          s_current_period_end := s_current_period_end new, s_updated_at := now\<rparr>"])
        (auto simp: save_subscription_def guard_simps write_row_def)
  next
    case (Mark_Past_Due k)
    with run row show ?thesis
      by (intro that(2) [of "\<lambda>x. x\<lparr>s_status := PAST_DUE, s_updated_at := now\<rparr>"])
        (auto simp: write_row_def)
  qed
  then show ?thesis
  proof cases
    case (2 f)
    note sub' = sub_of_org_Some [OF sub]
    have "for_org s_org j (db_subs d') = for_org s_org j (db_subs d)" if "j \<noteq> k"
      using sub_tenant.update_other_tenant [of "db_subs d" sub j f] wf sub' 2(1) that by (simp add: 2(2))
    moreover have "tbl_wf s_id (db_subs d')" using sub_t.wf_update [OF wf, of f] 2 by simp
    moreover have "map s_org (tb_rows (db_subs d')) = map s_org (tb_rows (db_subs d))"
      using 2 by auto
    then have "s_org ` set (tb_rows (db_subs d')) = s_org ` set (tb_rows (db_subs d))"
      by (metis list.set_map)
    then have "sub_of_org j d' = None \<longleftrightarrow> sub_of_org j d = None"
      by (auto simp: sub_of_org_None image_iff set_eq_iff) (metis+)
    ultimately show ?thesis by (simp add: sub_of_org_rows)
  qed (use wf in simp)
qed

subsection \<open>They are serializable\<close>

primrec in_turn ::
  "(json \<Rightarrow> string) \<Rightarrow> (nat \<Rightarrow> json) \<Rightarrow> (nat \<Rightarrow> time) \<Rightarrow> nat list \<Rightarrow> db \<Rightarrow> db option" where
  \<comment> \<open>one after the other, each whole and each answered with \<open>ok\<close>\<close>
  "in_turn py_str event now [] d = Some d"
| "in_turn py_str event now (n # ns) d =
     (case webhook_block py_str (now n) (event n) d of
        (Inr detail, d') \<Rightarrow> (if detail = ''ok'' then in_turn py_str event now ns d' else None)
      | (Inl e, d') \<Rightarrow> None)"

lemma in_turn_snoc:
  assumes "in_turn py_str event now ns d = Some d'"
    and "webhook_block py_str (now n) (event n) d' = (Inr ''ok'', d'')"
  shows "in_turn py_str event now (ns @ [n]) d = Some d''"
  using assms by (induction ns arbitrary: d) (auto split: prod.splits sum.splits if_splits)

definition one_event_per_org :: "(json \<Rightarrow> string) \<Rightarrow> (nat \<Rightarrow> json) \<Rightarrow> db \<Rightarrow> bool" where
  \<comment> \<open>every event names an organization with a subscription, and two deliveries that name the same one
    are deliveries of one event\<close>
  "one_event_per_org py_str event d \<longleftrightarrow>
     (\<forall>n. \<exists>k. event_org (event n) = Some k \<and> sub_of_org k d \<noteq> None) \<and>
     (\<forall>n m i. event_org (event n) = event_org (event m) \<and> has_id py_str (event n) i \<longrightarrow>
        has_id py_str (event m) i)"

definition serial_inv ::
  "(json \<Rightarrow> string) \<Rightarrow> (nat \<Rightarrow> json) \<Rightarrow> (nat \<Rightarrow> time) \<Rightarrow> db \<Rightarrow> delivery_state \<Rightarrow> bool" where
  "serial_inv py_str event now d s \<longleftrightarrow>
     in_turn py_str event now (ds_order s) d = Some (ds_db s) \<and> tbl_wf s_id (db_subs (ds_db s)) \<and>
     (\<forall>k. sub_of_org k d \<noteq> None \<longrightarrow> sub_of_org k (ds_db s) \<noteq> None) \<and>
     (\<forall>n i t p k. ds_phase s n = Claimed i t p \<and> event_org (event n) = Some k \<longrightarrow>
        length i \<le> 255 \<and> length t \<le> 64 \<and> local_to k p \<and>
        run p (ds_db s) = run (handle_event_stmts py_str (event n)) (ds_db s))"

lemma serial_claimed:
  assumes "serial_inv py_str event now d s" "ds_phase s n = Claimed i t p" "event_org (event n) = Some k"
  shows "length i \<le> 255" "length t \<le> 64" "local_to k p"
    "run p (ds_db s) = run (handle_event_stmts py_str (event n)) (ds_db s)"
  using assms unfolding serial_inv_def by blast+

lemma serial_move:
  assumes inv: "serial_inv py_str event now d s"
    and new: "\<And>i t q k. p = Claimed i t q \<Longrightarrow> event_org (event n) = Some k \<Longrightarrow>
      length i \<le> 255 \<and> length t \<le> 64 \<and> local_to k q \<and>
      run q (ds_db s) = run (handle_event_stmts py_str (event n)) (ds_db s)"
  shows "serial_inv py_str event now d (move n p s)"
proof -
  have "length i \<le> 255 \<and> length t \<le> 64 \<and> local_to k q \<and>
      run q (ds_db s) = run (handle_event_stmts py_str (event m)) (ds_db s)"
    if "((ds_phase s)(n := p)) m = Claimed i t q" "event_org (event m) = Some k" for m i t q k
  proof (cases "m = n")
    case True
    with that new show ?thesis by simp
  next
    case False
    with that(1) have "ds_phase s m = Claimed i t q" by simp
    from serial_claimed [OF inv this that(2)] show ?thesis by simp
  qed
  with inv show ?thesis unfolding serial_inv_def move_simps by blast
qed

lemma block_ok:
  assumes "ledger_entry py_str event = Inr (Some i, Some t)" "\<not> recorded i d" "length i \<le> 255"
    "length t \<le> 64" "handle_event py_str now event (record_event now i t d) = Inr d'"
  shows "webhook_block py_str now event d = (Inr ''ok'', d')"
proof -
  have "webhook_event_get_or_create now (Some i) (Some t) d = Inr (True, record_event now i t d)"
    using assms(2-4) by (simp add: webhook_event_get_or_create_def recorded_def char_field_def record_event_def)
  with assms(1,5) show ?thesis by (auto simp: webhook_block_def ledger_entry_def guard_simps)
qed

lemma serial_commit:
  assumes apart: "one_event_per_org py_str event d" and ok: "claims_ok py_str event s"
    and inv: "serial_inv py_str event now d s" and n: "ds_phase s n = Claimed i t (Answer r)"
    and commit: "conclude (now n) i t r (ds_db s) = Inr d'"
  shows "serial_inv py_str event now d (move n Processed (s\<lparr>ds_db := d', ds_order := ds_order s @ [n]\<rparr>))"
proof -
  let ?d = "ds_db s" and ?d1 = "record_event (now n) i t (ds_db s)"
  from apart obtain k where k: "event_org (event n) = Some k" "sub_of_org k d \<noteq> None"
    unfolding one_event_per_org_def by blast
  then obtain sub where sub: "sub_of_org k ?d = Some sub" using inv by (auto simp: serial_inv_def)
  note mine = serial_claimed [OF inv n k(1)]
  from commit obtain w where w: "r = Inr w" "apply_write (now n) w ?d1 = Inr d'"
    by (auto simp: conclude_def guard_simps)
  have run: "run (handle_event_stmts py_str (event n)) ?d = Inr w" using mine(4) w(1) by simp
  have sub1: "sub_of_org j ?d1 = sub_of_org j ?d" for j by (simp add: sub_of_org_def)
  then have "same_view k ?d ?d1" using sub by (simp add: same_view_def)
  from local_run [OF event_local [OF k(1)] this] run
  have "handle_event py_str (now n) (event n) ?d1 = Inr d'"
    using handle_event_refines [of py_str "event n" ?d1 "now n"] w(2) by simp
  with block_ok [OF claims_okD(1,2) [OF ok n] mine(1,2)]
  have turn: "in_turn py_str event now (ds_order s @ [n]) d = Some d'"
    using inv in_turn_snoc unfolding serial_inv_def by blast
  have wf: "tbl_wf s_id (db_subs ?d1)" using inv by (simp add: serial_inv_def)
  have row: "write_row w = None \<or> write_row w = Some (s_id sub)" by (rule event_row [OF k(1) sub run])
  note kept = write_other_org [OF wf row _ w(2), of k, unfolded sub1, OF sub]
  have plans: "db_plans d' = db_plans ?d" using apply_write_frame [OF w(2)] by simp
  have "length j \<le> 255 \<and> length t' \<le> 64 \<and> local_to l p \<and>
      run p d' = run (handle_event_stmts py_str (event m)) d'"
    if m: "m \<noteq> n" "ds_phase s m = Claimed j t' p" and l: "event_org (event m) = Some l" for m j t' p l
  proof -
    have "l \<noteq> k"
    proof
      assume "l = k"
      with k(1) l have "has_id py_str (event m) i"
        using apart ledger_entry_has_id [OF claims_okD(1) [OF ok n]] unfolding one_event_per_org_def by metis
      then have "j = i" using has_id_unique ledger_entry_has_id [OF claims_okD(1) [OF ok m(2)]] by blast
      with claims_okD(3) [OF ok n] m show False by blast
    qed
    moreover have "sub_of_org l ?d \<noteq> None" using apart l inv unfolding one_event_per_org_def serial_inv_def by (metis option.inject)
    ultimately have view: "same_view l ?d d'" using kept [of l] plans by (simp add: same_view_def)
    note theirs = serial_claimed [OF inv m(2) l]
    from local_run [OF theirs(3) view] local_run [OF event_local [OF l] view] theirs show ?thesis by simp
  qed
  with turn kept inv show ?thesis by (auto simp: serial_inv_def split: if_splits)
qed

lemma serial_step:
  assumes apart: "one_event_per_org py_str event d" and ok: "claims_ok py_str event s"
    and inv: "serial_inv py_str event now d s" and step: "delivery_step py_str event now s t"
  shows "serial_inv py_str event now d t"
  using step
proof (cases rule: delivery_step.cases)
  case (claim n i ty d1)
  from claim(4) have "length i \<le> 255 \<and> length ty \<le> 64"
    by (rule open_ledger_created) (use claim(3) in simp)
  with claim(1) event_local show ?thesis by (auto intro!: serial_move [OF inv])
next
  case (ask n i ty f)
  have "length i \<le> 255 \<and> length ty \<le> 64 \<and> local_to k (f (ds_db s)) \<and>
      run (f (ds_db s)) (ds_db s) = run (handle_event_stmts py_str (event n)) (ds_db s)"
    if k: "event_org (event n) = Some k" for k
  proof -
    note mine = serial_claimed [OF inv ask(2) k]
    have "sub_of_org k (ds_db s) \<noteq> None"
      using apart inv k unfolding one_event_per_org_def serial_inv_def by (metis option.inject)
    with mine local_queryD(1) [OF mine(3)] show ?thesis by simp
  qed
  with ask(1) show ?thesis by (auto intro!: serial_move [OF inv])
next
  case (commit n i ty r d1)
  with serial_commit [OF apart ok inv] show ?thesis by simp
qed (auto intro!: serial_move [OF inv])

interpretation serial_system: invariant_system
  "\<lambda>s. one_event_per_org py_str event d \<and> tbl_wf s_id (db_subs d) \<and> delivery_start d s"
  "\<lambda>s t. one_event_per_org py_str event d \<and> delivery_step py_str event now s t"
  "\<lambda>s. delivery_inv py_str event d s \<and> serial_inv py_str event now d s" for py_str event now d
proof
  fix s assume s: "one_event_per_org py_str event d \<and> tbl_wf s_id (db_subs d) \<and> delivery_start d s"
  then have "serial_inv py_str event now d s" by (auto simp: delivery_start_def serial_inv_def)
  with s show "delivery_inv py_str event d s \<and> serial_inv py_str event now d s"
    using delivery_inv_start by blast
next
  fix s t assume "delivery_inv py_str event d s \<and> serial_inv py_str event now d s"
    and "one_event_per_org py_str event d \<and> delivery_step py_str event now s t"
  then show "delivery_inv py_str event d t \<and> serial_inv py_str event now d t"
    using delivery_inv_step serial_step unfolding delivery_inv_def by metis
qed

text \<open>C12. Without any lock, deliveries about different organizations do not disturb each other: however
  their queries interleave, what is committed is what the processed ones give when each runs
  alone, in the order of their commits, and there is one of them for each processed delivery.\<close>

theorem deliveries_serializable:
  assumes apart: "one_event_per_org py_str event d" and wf: "tbl_wf s_id (db_subs d)"
    and start: "delivery_start d s" and steps: "(delivery_step py_str event now)\<^sup>*\<^sup>* s t"
  shows "in_turn py_str event now (ds_order t) d = Some (ds_db t) \<and> distinct (ds_order t) \<and>
    set (ds_order t) = {n. ds_phase t n = Processed}"
proof -
  have "(\<lambda>s t. one_event_per_org py_str event d \<and> delivery_step py_str event now s t)\<^sup>*\<^sup>* s t"
    using steps apart by (simp add: rtranclp_mono [THEN predicate2D])
  from serial_system.reachable_inv [OF conjI [OF apart conjI [OF wf start]] this] show ?thesis
    by (simp add: serial_inv_def delivery_inv_def order_ok_def)
qed

subsection \<open>Two events of one organization are not\<close>

definition names_org :: "(string \<times> json) list \<Rightarrow> key \<Rightarrow> bool" where
  \<comment> \<open>the metadata of the object names the organization\<close>
  "names_org kvs k \<longleftrightarrow> (\<exists>md v. map_of kvs ''metadata'' = Some (JObj md) \<and>
     map_of md ''organization_id'' = Some (JStr v) \<and> py_int v = Some k)"

definition completes :: "(string \<times> json) list \<Rightarrow> string \<Rightarrow> string \<Rightarrow> bool" where
  \<comment> \<open>the customer and the subscription a completed checkout carries\<close>
  "completes kvs customer sid \<longleftrightarrow> map_of kvs ''customer'' = Some (JStr customer) \<and> length customer \<le> 255 \<and>
     map_of kvs ''subscription'' = Some (JStr sid) \<and> length sid \<le> 255"

definition paid_until :: "(string \<times> json) list \<Rightarrow> string \<Rightarrow> string \<Rightarrow> int \<Rightarrow> bool" where
  \<comment> \<open>the subscription id, the status and the end of the paid period of an update\<close>
  "paid_until kvs sid st ts \<longleftrightarrow> map_of kvs ''id'' = Some (JStr sid) \<and> length sid \<le> 255 \<and>
     map_of kvs ''status'' = Some (JStr st) \<and>
     map_of kvs ''current_period_end'' = Some (JInt ts) \<and> 0 < ts \<and> ts \<le> 253402300799"

definition period_end :: "key \<Rightarrow> db \<Rightarrow> time option" where
  "period_end k d = Option.bind (sub_of_org k d) s_current_period_end"

definition full_save :: "subscription \<Rightarrow> subscription \<Rightarrow> bool" where
  \<comment> \<open>what a handler saves: the row it read, with other ids, plan, status and period\<close>
  "full_save old new \<longleftrightarrow> s_id new = s_id old \<and> s_org new = s_org old \<and>
     length (s_stripe_customer_id new) \<le> 255 \<and> length (s_stripe_subscription_id new) \<le> 255"

lemma text_or_width: "length s \<le> 255 \<Longrightarrow> length old \<le> 255 \<Longrightarrow> length (text_or py_str (JStr s) old) \<le> 255"
  by (simp add: text_or_def col_text_def)

lemma completed_save:
  assumes "names_org kvs k" "completes kvs c sid" "sub_of_org k d = Some sub"
    "length (s_stripe_customer_id sub) \<le> 255" "length (s_stripe_subscription_id sub) \<le> 255"
  obtains new where
    "run (handle_event_stmts py_str (demo_event i ''checkout.session.completed'' kvs)) d = Inr (Save new)"
    "full_save sub new" "s_current_period_end new = s_current_period_end sub"
proof -
  from assms(1) obtain md v where md: "map_of kvs ''metadata'' = Some (JObj md)"
    "map_of md ''organization_id'' = Some (JStr v)" "py_int v = Some k" by (auto simp: names_org_def)
  have find: "find_subscription py_str (JObj kvs) a b d = Inr (Some sub)" for a b
    by (rule find_by_metadata [OF md assms(3)])
  have "kvs \<noteq> []" "md \<noteq> []" using md by auto
  obtain code where code: "py_get (JObj md) ''plan_code'' = Inr code" by (simp add: py_get_def)
  have vals: "py_get (JObj kvs) ''customer'' = Inr (JStr c)" "py_get (JObj kvs) ''subscription'' = Inr (JStr sid)"
    "metadata_of (JObj kvs) = Inr (JObj md)"
    using assms(2) md(1) \<open>md \<noteq> []\<close> by (simp_all add: completes_def metadata_of_def py_get_def obj_get_def json_or_def)
  let ?new = "sub\<lparr>s_stripe_customer_id := text_or py_str (JStr c) (s_stripe_customer_id sub),
      s_stripe_subscription_id := text_or py_str (JStr sid) (s_stripe_subscription_id sub),
      s_plan := (case plan_by_code py_str code d of Some p \<Rightarrow> p_id p | None \<Rightarrow> s_plan sub), s_status := ACTIVE\<rparr>"
  have "run (checkout_completed_stmts py_str (JObj kvs)) d = Inr (Save ?new)"
    by (simp add: checkout_completed_stmts_def vals find code)
  then have "run (handle_event_stmts py_str (demo_event i ''checkout.session.completed'' kvs)) d = Inr (Save ?new)"
    using \<open>kvs \<noteq> []\<close>
    by (simp add: handle_event_stmts_def demo_event_def HANDLER_STMTS_def py_get_def obj_get_def hashable_def json_or_def)
  moreover have "full_save sub ?new"
    using assms(2,4,5) text_or_width by (simp add: full_save_def completes_def)
  ultimately show ?thesis by (rule that) simp
qed

lemma updated_save:
  assumes "names_org kvs k" "paid_until kvs sid st ts" "sub_of_org k d = Some sub"
    "length (s_stripe_customer_id sub) \<le> 255" "length (s_stripe_subscription_id sub) \<le> 255"
  obtains new where
    "run (handle_event_stmts py_str (demo_event i ''customer.subscription.updated'' kvs)) d = Inr (Save new)"
    "full_save sub new" "s_current_period_end new = Some (ts * 1000000)"
proof -
  from assms(1) obtain md v where md: "map_of kvs ''metadata'' = Some (JObj md)"
    "map_of md ''organization_id'' = Some (JStr v)" "py_int v = Some k" by (auto simp: names_org_def)
  have find: "find_subscription py_str (JObj kvs) a b d = Inr (Some sub)" for a b
    by (rule find_by_metadata [OF md assms(3)])
  have "kvs \<noteq> []" using md by auto
  obtain customer where customer: "py_get (JObj kvs) ''customer'' = Inr customer" by (simp add: py_get_def)
  obtain status where status: "status_of (JStr st) (s_status sub) = Inr status"
    by (simp add: status_of_def hashable_def)
  have vals: "py_get (JObj kvs) ''id'' = Inr (JStr sid)" "py_get (JObj kvs) ''status'' = Inr (JStr st)"
    "py_get (JObj kvs) ''current_period_end'' = Inr (JInt ts)" "ts_to_dt (JInt ts) = Inr (Some (ts * 1000000))"
    using assms(2) by (simp_all add: paid_until_def py_get_def obj_get_def ts_to_dt_def col_int_def)
  let ?new = "sub\<lparr>s_stripe_subscription_id := text_or py_str (JStr sid) (s_stripe_subscription_id sub),
      s_status := status, s_current_period_end := Some (ts * 1000000),
      s_plan := (case plan_for_price py_str (price_id_of (JObj kvs)) d of Some p \<Rightarrow> p_id p | None \<Rightarrow> s_plan sub)\<rparr>"
  have "run (subscription_updated_stmts py_str (JObj kvs)) d = Inr (Save ?new)"
    by (simp add: subscription_updated_stmts_def vals find customer status)
  then have "run (handle_event_stmts py_str (demo_event i ''customer.subscription.updated'' kvs)) d = Inr (Save ?new)"
    using \<open>kvs \<noteq> []\<close>
    by (simp add: handle_event_stmts_def demo_event_def HANDLER_STMTS_def py_get_def obj_get_def hashable_def json_or_def)
  moreover have "full_save sub ?new"
    using assms(2,4,5) text_or_width by (simp add: full_save_def paid_until_def)
  ultimately show ?thesis by (rule that) simp
qed

lemma save_concluded:
  assumes inv: "db_inv d" and new: "\<not> recorded i d" and sub: "sub_of_org k d = Some sub"
    and save: "full_save sub row"
  obtains d' s where "conclude now i t (Inr (Save row)) d = Inr d'" "db_inv d'" "sub_of_org k d' = Some s"
    "s_current_period_end s = s_current_period_end row" "s_id s = s_id sub" "s_org s = s_org sub"
    "length (s_stripe_customer_id s) \<le> 255" "length (s_stripe_subscription_id s) \<le> 255"
    "\<And>j. recorded j d' \<longleftrightarrow> j = i \<or> recorded j d"
proof -
  let ?d = "record_event now i t d"
  have inv1: "db_inv ?d" by (rule inv_record_event [OF inv new])
  have sub1: "sub \<in> set (tb_rows (db_subs ?d))" "s_org sub = k" using sub by (auto dest: sub_of_org_Some)
  obtain d' where d': "save_subscription now row ?d = Inr d'"
    using save by (auto simp: save_subscription_def char_field_def full_save_def)
  then have c: "conclude now i t (Inr (Save row)) d = Inr d'" by (simp add: conclude_def)
  from saved_row [OF inv1 sub1(1) d'] save sub1(2) obtain s where s: "sub_of_org k d' = Some s"
    "s_current_period_end s = s_current_period_end row" "s_stripe_customer_id s = s_stripe_customer_id row"
    "s_stripe_subscription_id s = s_stripe_subscription_id row" "s_id s = s_id sub" "s_org s = s_org sub"
    "db_inv d'" "db_events d' = db_events ?d" by (auto simp: full_save_def)
  have "recorded j d' \<longleftrightarrow> j = i \<or> recorded j d" for j
    using s(8) recorded_record_iff [of j now i t d] by (simp add: recorded_def)
  with that [OF c s(7,1,2,5,6)] s(3,4) save show ?thesis by (simp add: full_save_def)
qed

lemma entry_of_demo:
  "ledger_entry py_str (demo_event i t kvs) = Inr (Some i, Some t)"
  by (simp add: ledger_entry_def demo_event_def event_id_def event_type_def col_text_def)

lemma saved_block:
  assumes inv: "db_inv d" and new: "\<not> recorded i d" "length i \<le> 255" "length t \<le> 64"
    and sub: "sub_of_org k d = Some sub"
    and run: "run (handle_event_stmts py_str (demo_event i t kvs)) (record_event now i t d) = Inr (Save row)"
      "full_save sub row"
  obtains d' s where "webhook_block py_str now (demo_event i t kvs) d = (Inr ''ok'', d')" "db_inv d'"
    "sub_of_org k d' = Some s" "s_current_period_end s = s_current_period_end row"
    "length (s_stripe_customer_id s) \<le> 255" "length (s_stripe_subscription_id s) \<le> 255"
    "\<And>j. recorded j d' \<longleftrightarrow> j = i \<or> recorded j d"
proof -
  obtain d' s where d': "conclude now i t (Inr (Save row)) d = Inr d'" "db_inv d'" "sub_of_org k d' = Some s"
    "s_current_period_end s = s_current_period_end row" "length (s_stripe_customer_id s) \<le> 255"
    "length (s_stripe_subscription_id s) \<le> 255" "\<And>j. recorded j d' \<longleftrightarrow> j = i \<or> recorded j d"
    by (rule save_concluded [OF inv new(1) sub run(2), of now t]) blast
  have "handle_event py_str now (demo_event i t kvs) (record_event now i t d) = Inr d'"
    using handle_event_refines [of py_str "demo_event i t kvs" "record_event now i t d" now] run(1) d'(1)
    by (simp add: conclude_def)
  from block_ok [OF entry_of_demo new this] that [OF _ d'(2-7)] show ?thesis by blast
qed

lemma sub_of_recorded [simp]: "sub_of_org k (record_event now i t d) = sub_of_org k d"
  by (simp add: sub_of_org_def)

lemma updated_block:
  assumes inv: "db_inv d" and new: "\<not> recorded i d" "length i \<le> 255" and org: "names_org kvs k"
    and event: "paid_until kvs sid st ts"
    and sub: "sub_of_org k d = Some sub" "length (s_stripe_customer_id sub) \<le> 255"
      "length (s_stripe_subscription_id sub) \<le> 255"
  obtains d' s where "webhook_block py_str now (demo_event i ''customer.subscription.updated'' kvs) d = (Inr ''ok'', d')"
    "db_inv d'" "sub_of_org k d' = Some s" "s_current_period_end s = Some (ts * 1000000)"
    "length (s_stripe_customer_id s) \<le> 255" "length (s_stripe_subscription_id s) \<le> 255"
    "\<And>j. recorded j d' \<longleftrightarrow> j = i \<or> recorded j d"
proof -
  have sub1: "sub_of_org k (record_event now i ''customer.subscription.updated'' d) = Some sub" using sub(1) by simp
  obtain row where row: "run (handle_event_stmts py_str (demo_event i ''customer.subscription.updated'' kvs))
      (record_event now i ''customer.subscription.updated'' d) = Inr (Save row)"
    "full_save sub row" "s_current_period_end row = Some (ts * 1000000)"
    by (rule updated_save [OF org event sub1 sub(2,3)])
  show ?thesis by (rule saved_block [OF inv new _ sub(1) row(1,2)]) (use row(3) that in simp_all)
qed

lemma completed_block:
  assumes inv: "db_inv d" and new: "\<not> recorded i d" "length i \<le> 255" and org: "names_org kvs k"
    and event: "completes kvs c sid"
    and sub: "sub_of_org k d = Some sub" "length (s_stripe_customer_id sub) \<le> 255"
      "length (s_stripe_subscription_id sub) \<le> 255"
  obtains d' s where "webhook_block py_str now (demo_event i ''checkout.session.completed'' kvs) d = (Inr ''ok'', d')"
    "db_inv d'" "sub_of_org k d' = Some s" "s_current_period_end s = s_current_period_end sub"
    "length (s_stripe_customer_id s) \<le> 255" "length (s_stripe_subscription_id s) \<le> 255"
    "\<And>j. recorded j d' \<longleftrightarrow> j = i \<or> recorded j d"
proof -
  have sub1: "sub_of_org k (record_event now i ''checkout.session.completed'' d) = Some sub" using sub(1) by simp
  obtain row where row: "run (handle_event_stmts py_str (demo_event i ''checkout.session.completed'' kvs))
      (record_event now i ''checkout.session.completed'' d) = Inr (Save row)"
    "full_save sub row" "s_current_period_end row = s_current_period_end sub"
    by (rule completed_save [OF org event sub1 sub(2,3)])
  show ?thesis by (rule saved_block [OF inv new _ sub(1) row(1,2)]) (use row(3) that in simp_all)
qed

lemma in_turn_two:
  assumes "webhook_block py_str (now n) (event n) d = (Inr ''ok'', e)"
    and "webhook_block py_str (now m) (event m) e = (Inr ''ok'', f)"
  shows "in_turn py_str event now [n, m] d = Some f"
  using assms by simp

definition crossing :: "string \<Rightarrow> (string \<times> json) list \<Rightarrow> string \<Rightarrow> (string \<times> json) list \<Rightarrow> nat \<Rightarrow> json" where
  \<comment> \<open>the update of a subscription and the completion of its checkout\<close>
  "crossing i0 upd i1 checkout n =
     (if n = 0 then demo_event i0 ''customer.subscription.updated'' upd
      else demo_event i1 ''checkout.session.completed'' checkout)"

lemma crossing_simps [simp]:
  "crossing i0 upd i1 checkout 0 = demo_event i0 ''customer.subscription.updated'' upd"
  "crossing i0 upd i1 checkout (Suc 0) = demo_event i1 ''checkout.session.completed'' checkout"
  by (simp_all add: crossing_def)

lemma crossing_in_turn:
  assumes inv: "db_inv d" and sub: "sub_of_org k d = Some sub" "length (s_stripe_customer_id sub) \<le> 255"
      "length (s_stripe_subscription_id sub) \<le> 255"
    and new: "i0 \<noteq> i1" "\<not> recorded i0 d" "\<not> recorded i1 d" "length i0 \<le> 255" "length i1 \<le> 255"
    and orgs: "names_org upd k" "names_org checkout k"
    and upd: "paid_until upd sid st ts" and checkout: "completes checkout c sid"
  shows "(\<exists>e. in_turn py_str (crossing i0 upd i1 checkout) now [0, 1] d = Some e \<and> period_end k e = Some (ts * 1000000)) \<and>
    (\<exists>e. in_turn py_str (crossing i0 upd i1 checkout) now [1, 0] d = Some e \<and> period_end k e = Some (ts * 1000000))"
proof -
  let ?upd = "demo_event i0 ''customer.subscription.updated'' upd"
    and ?done = "demo_event i1 ''checkout.session.completed'' checkout"
  \<comment> \<open>the update first, whole\<close>
  obtain e1 r1 where e1: "webhook_block py_str (now 0) ?upd d = (Inr ''ok'', e1)" "db_inv e1"
    "sub_of_org k e1 = Some r1" "s_current_period_end r1 = Some (ts * 1000000)"
    "length (s_stripe_customer_id r1) \<le> 255" "length (s_stripe_subscription_id r1) \<le> 255"
    "\<And>j. recorded j e1 \<longleftrightarrow> j = i0 \<or> recorded j d"
    by (rule updated_block [OF inv new(2,4) orgs(1) upd sub]) blast
  have "\<not> recorded i1 e1" using e1(7) new by simp
  then obtain e2 r2 where e2: "webhook_block py_str (now (Suc 0)) ?done e1 = (Inr ''ok'', e2)"
    "sub_of_org k e2 = Some r2" "s_current_period_end r2 = Some (ts * 1000000)"
    unfolding e1(4) [symmetric] by (rule completed_block [OF e1(2) _ new(5) orgs(2) checkout e1(3,5,6)]) blast
  \<comment> \<open>the checkout first, whole\<close>
  obtain f1 q1 where f1: "webhook_block py_str (now (Suc 0)) ?done d = (Inr ''ok'', f1)" "db_inv f1"
    "sub_of_org k f1 = Some q1" "length (s_stripe_customer_id q1) \<le> 255"
    "length (s_stripe_subscription_id q1) \<le> 255" "\<And>j. recorded j f1 \<longleftrightarrow> j = i1 \<or> recorded j d"
    by (rule completed_block [OF inv new(3,5) orgs(2) checkout sub]) blast
  have "\<not> recorded i0 f1" using f1(6) new by simp
  then obtain f2 q2 where f2: "webhook_block py_str (now 0) ?upd f1 = (Inr ''ok'', f2)"
    "sub_of_org k f2 = Some q2" "s_current_period_end q2 = Some (ts * 1000000)"
    by (rule updated_block [OF f1(2) _ new(4) orgs(1) upd f1(3-5)]) blast
  show ?thesis using e1(1) e2 f1(1) f2 by (simp add: period_end_def)
qed

text \<open>C13. The end of the paid period is lost: \<open>checkout.session.completed\<close> has read the subscription when
  \<open>customer.subscription.updated\<close> of the same checkout stores until when it is paid and commits; the
  first then saves every column it read, the old period end among them. Both are answered with 200
  and in the ledger, so neither comes again. Processed one after the other, in either order, the two
  leave the period end Stripe sent.\<close>

theorem concurrent_deliveries_lose_update:
  assumes inv: "db_inv d" and sub: "sub_of_org k d = Some sub" "length (s_stripe_customer_id sub) \<le> 255"
      "length (s_stripe_subscription_id sub) \<le> 255"
    and new: "i0 \<noteq> i1" "\<not> recorded i0 d" "\<not> recorded i1 d" "length i0 \<le> 255" "length i1 \<le> 255"
    and orgs: "names_org upd k" "names_org checkout k"
    and upd: "paid_until upd sid st ts" and checkout: "completes checkout c sid"
  defines "event \<equiv> crossing i0 upd i1 checkout"
  shows "(\<exists>s t. delivery_start d s \<and> (delivery_step py_str event now)\<^sup>*\<^sup>* s t \<and>
      ds_phase t 0 = Processed \<and> ds_phase t 1 = Processed \<and>
      period_end k (ds_db t) = s_current_period_end sub) \<and>
    (\<exists>e. in_turn py_str event now [0, 1] d = Some e \<and> period_end k e = Some (ts * 1000000)) \<and>
    (\<exists>e. in_turn py_str event now [1, 0] d = Some e \<and> period_end k e = Some (ts * 1000000))"
proof -
  let ?u = "''customer.subscription.updated''" and ?c = "''checkout.session.completed''"
  have ev: "event 0 = demo_event i0 ?u upd" "event 1 = demo_event i1 ?c checkout" by (simp_all add: event_def crossing_def)
  have entry: "ledger_entry py_str (event 0) = Inr (Some i0, Some ?u)"
    "ledger_entry py_str (event 1) = Inr (Some i1, Some ?c)" by (simp_all only: ev entry_of_demo)
  have ledger: "map_sum id fst (open_ledger py_str (now n) (event n) d) = Inr True" if "n = 0 \<or> n = 1" for n
    using that new(2-5) entry
    by (auto simp: open_ledger_def webhook_event_get_or_create_def recorded_def char_field_def)
  \<comment> \<open>both read the row of \<open>d\<close>\<close>
  obtain u0 where u0: "run (handle_event_stmts py_str (event 0)) d = Inr (Save u0)" "full_save sub u0"
    "s_current_period_end u0 = Some (ts * 1000000)"
    unfolding ev by (rule updated_save [OF orgs(1) upd sub])
  obtain c0 where c0: "run (handle_event_stmts py_str (event 1)) d = Inr (Save c0)" "full_save sub c0"
    "s_current_period_end c0 = s_current_period_end sub"
    unfolding ev by (rule completed_save [OF orgs(2) checkout sub])
  obtain d1 s1 where d1: "conclude (now 0) i0 ?u (Inr (Save u0)) d = Inr d1" "db_inv d1" "sub_of_org k d1 = Some s1"
    "s_current_period_end s1 = s_current_period_end u0" "s_id s1 = s_id sub" "s_org s1 = s_org sub"
    "length (s_stripe_customer_id s1) \<le> 255" "length (s_stripe_subscription_id s1) \<le> 255"
    "\<And>j. recorded j d1 \<longleftrightarrow> j = i0 \<or> recorded j d"
    by (rule save_concluded [OF inv new(2) sub(1) u0(2)]) blast
  have stale: "full_save s1 c0" using c0(2) d1(5,6) by (simp add: full_save_def)
  have fresh: "\<not> recorded i1 d1" using d1(9) new by simp
  obtain d2 s2 where d2: "conclude (now 1) i1 ?c (Inr (Save c0)) d1 = Inr d2" "sub_of_org k d2 = Some s2"
    "s_current_period_end s2 = s_current_period_end c0"
    by (rule save_concluded [OF d1(2) fresh d1(3) stale]) blast
  obtain s where s: "delivery_start d s" by (simp add: delivery_start_def)
  obtain t where t: "(delivery_step py_str event now)\<^sup>*\<^sup>* s t" "ds_db t = d2"
      "ds_phase t 0 = Processed" "ds_phase t 1 = Processed"
    using interleave_two [where event = event and now = now, OF ledger entry(1) _ ledger entry(2) _ new(1) s]
      u0(1) c0(1) d1(1) d2(1) by auto
  have lost: "period_end k (ds_db t) = s_current_period_end sub"
    using t(2) d2(2,3) c0(3) by (simp add: period_end_def)
  with s t crossing_in_turn [OF assms(1-13), of py_str now] show ?thesis unfolding event_def by blast
qed

definition opened_db :: db where
  \<comment> \<open>Rival's Owner opened the checkout: the Stripe customer is stored\<close>
  "opened_db = snd (checkout_view demo_api (Inr ''pro'') demo_db (fresh_request POST (Some rita) (Some ''2'')))"

definition upd_of_rival :: "(string \<times> json) list" where
  "upd_of_rival = [(''id'', JStr ''sub_9''), (''customer'', JStr ''cus_9''), (''status'', JStr ''trialing''),
      (''current_period_end'', JInt 1700000000),
      (''metadata'', JObj [(''organization_id'', JStr ''2'')]),
      (''items'', JObj [(''data'', JList [JObj [(''price'', JObj [(''id'', JStr ''price_pro'')])]])])]"

definition checkout_of_rival :: "(string \<times> json) list" where
  "checkout_of_rival = [(''id'', JStr ''cs_1''), (''customer'', JStr ''cus_9''), (''subscription'', JStr ''sub_9''),
      (''metadata'', JObj [(''organization_id'', JStr ''2''), (''plan_code'', JStr ''pro'')])]"

text \<open>The witness starts from the database the checkout endpoint leaves.\<close>

theorem concurrent_deliveries_lose_update_witness:
  "let event = crossing ''evt_1'' upd_of_rival ''evt_2'' checkout_of_rival
   in customer_of 2 opened_db = Some ''cus_9'' \<and>
     (\<exists>s t. delivery_start opened_db s \<and> (delivery_step demo_str event (\<lambda>_. 7))\<^sup>*\<^sup>* s t \<and>
        ds_phase t 0 = Processed \<and> ds_phase t 1 = Processed \<and> period_end 2 (ds_db t) = None) \<and>
     (\<exists>e. in_turn demo_str event (\<lambda>_. 7) [1, 0] opened_db = Some e \<and>
        period_end 2 e = Some 1700000000000000)"
proof -
  let ?sub = "demo_sub 2 2 1 ''cus_9'' []"
  have inv: "db_inv opened_db" using checkout_api_ok [OF demo_api_ok] by (simp add: opened_db_def api_ok_def)
  have sub: "sub_of_org 2 opened_db = Some ?sub" unfolding opened_db_def by code_simp
  have new: "\<not> recorded ''evt_1'' opened_db" "\<not> recorded ''evt_2'' opened_db"
    unfolding opened_db_def by code_simp+
  have orgs: "names_org upd_of_rival 2" "names_org checkout_of_rival 2"
    by (simp_all add: names_org_def py_int_eval upd_of_rival_def checkout_of_rival_def)
  have events: "paid_until upd_of_rival ''sub_9'' ''trialing'' 1700000000" "completes checkout_of_rival ''cus_9'' ''sub_9''"
    by (simp_all add: paid_until_def completes_def upd_of_rival_def checkout_of_rival_def)
  have row: "length (s_stripe_customer_id ?sub) \<le> 255" "length (s_stripe_subscription_id ?sub) \<le> 255"
    "s_current_period_end ?sub = None" "s_stripe_customer_id ?sub = ''cus_9''" by (simp_all add: demo_sub_def)
  show ?thesis
    using concurrent_deliveries_lose_update [OF inv sub row(1,2) _ new _ _ orgs events, of demo_str "\<lambda>_. 7"]
    by (simp add: customer_of_def sub row(3,4) Let_def del: in_turn.simps)
qed

definition separate_events :: "nat \<Rightarrow> json" where
  \<comment> \<open>Rival's checkout and the end of Acme's subscription\<close>
  "separate_events n = (if n = 0 then demo_checkout_done
     else demo_event ''evt_3'' ''customer.subscription.deleted''
       [(''id'', JStr ''sub_1''), (''metadata'', JObj [(''organization_id'', JStr ''1'')])])"

lemma separate_apart: "one_event_per_org demo_str separate_events demo_db"
proof -
  have "event_org (separate_events 0) = Some 2" "event_org (separate_events 1) = Some 1"
    "sub_of_org 1 demo_db \<noteq> None" "sub_of_org 2 demo_db \<noteq> None"
    by code_simp+
  note facts = this
  have org: "event_org (separate_events n) = Some (if n = 0 then 2 else 1)" for n
  proof (cases "n = 0")
    case False
    then have "separate_events n = separate_events 1" by (simp add: separate_events_def)
    with facts(2) False show ?thesis by metis
  qed (use facts(1) in simp)
  have "separate_events n = separate_events m"
    if "event_org (separate_events n) = event_org (separate_events m)" for n m
    using that unfolding org by (cases "n = 0"; cases "m = 0") (simp_all add: separate_events_def)
  with org facts(3,4) show ?thesis unfolding one_event_per_org_def by metis
qed

theorem deliveries_serializable_witness:
  "\<exists>s t. (delivery_step demo_str separate_events (\<lambda>_. 7))\<^sup>*\<^sup>* s t \<and> ds_order t = [0, 1] \<and>
     in_turn demo_str separate_events (\<lambda>_. 7) [0, 1] demo_db = Some (ds_db t)"
proof -
  let ?e = separate_events and ?r = "\<lambda>n. run (handle_event_stmts demo_str (separate_events n)) demo_db"
  let ?c0 = "conclude 7 ''evt_2'' ''checkout.session.completed'' (?r 0)"
  let ?c1 = "conclude 7 ''evt_3'' ''customer.subscription.deleted'' (?r 1)"
  define d1 where "d1 = projr (?c0 demo_db)"
  define d2 where "d2 = projr (?c1 d1)"
  have "\<not> isl (?c0 demo_db)" "\<not> isl (?c1 d1)" unfolding d1_def by code_simp+
  then have c: "?c0 demo_db = Inr d1" "?c1 d1 = Inr d2"
    unfolding d1_def d2_def by (metis sum.collapse(2))+
  have new: "map_sum id fst (open_ledger demo_str 7 (?e 0) demo_db) = Inr True"
    "map_sum id fst (open_ledger demo_str 7 (?e 1) demo_db) = Inr True"
    and entry: "ledger_entry demo_str (?e 0) = Inr (Some ''evt_2'', Some ''checkout.session.completed'')"
    "ledger_entry demo_str (?e 1) = Inr (Some ''evt_3'', Some ''customer.subscription.deleted'')"
    by code_simp+
  obtain s where s: "delivery_start demo_db s" by (simp add: delivery_start_def)
  obtain t where t: "(delivery_step demo_str ?e (\<lambda>_. 7))\<^sup>*\<^sup>* s t" "ds_order t = [0, 1]"
    using interleave_two [where now = "\<lambda>_. 7", OF new(1) entry(1) c(1) new(2) entry(2) c(2) _ s] by auto
  have "tbl_wf s_id (db_subs demo_db)" using demo_keys_ok by (simp add: keys_ok_def)
  from deliveries_serializable [OF separate_apart this s t(1)] t show ?thesis by metis
qed

subsection \<open>The order of two events\<close>

definition reports :: "(string \<times> json) list \<Rightarrow> string \<Rightarrow> string \<Rightarrow> string \<Rightarrow> bool" where
  \<comment> \<open>the subscription id, the status and the price of an update\<close>
  "reports kvs sid st price \<longleftrightarrow> map_of kvs ''id'' = Some (JStr sid) \<and> sid \<noteq> [] \<and> length sid \<le> 255 \<and>
     map_of kvs ''status'' = Some (JStr st) \<and> map_of kvs ''current_period_end'' = None \<and>
     price_id_of (JObj kvs) = JStr price \<and> price \<noteq> []"

lemma deleted_outcome:
  assumes inv: "db_inv d" and org: "names_org kvs k" and sub: "sub_of_org k d = Some sub"
    and free: "free_plan d = Some free" and width: "length (s_stripe_customer_id sub) \<le> 255"
  obtains d' s where "handle_subscription_deleted py_str now (JObj kvs) d = Inr d'" "db_inv d'"
    "limit_of k key d' = plan_limit free key" "sub_of_org k d' = Some s" "s_status s = CANCELED"
    "length (s_stripe_customer_id s) \<le> 255" "db_plans d' = db_plans d"
proof -
  from org obtain md v where md: "map_of kvs ''metadata'' = Some (JObj md)"
    "map_of md ''organization_id'' = Some (JStr v)" "py_int v = Some k" by (auto simp: names_org_def)
  from subscription_deleted_effect [OF inv md sub free width, of py_str now key] obtain d' s where
    d': "handle_subscription_deleted py_str now (JObj kvs) d = Inr d'" "limit_of k key d' = plan_limit free key"
    "sub_of_org k d' = Some s" "s_status s = CANCELED" "s_stripe_customer_id s = s_stripe_customer_id sub"
    by blast
  show ?thesis
    using that [OF d'(1) _ d'(2,3,4)] d'(5) width subscription_deleted.handle_inv [OF inv d'(1)]
      subscription_deleted.handle_frame [OF d'(1)] by simp
qed

lemma updated_outcome:
  assumes inv: "db_inv d" and org: "names_org kvs k" and sub: "sub_of_org k d = Some sub"
    and event: "reports kvs sid st price" "map_of STATUS_MAP st = Some status"
    and plan: "tbl_first (\<lambda>p. p_stripe_price_id p = price \<and> p_is_active p) (db_plans d) = Some p"
    and width: "length (s_stripe_customer_id sub) \<le> 255"
  obtains d' s where "handle_subscription_updated py_str now (JObj kvs) d = Inr d'" "db_inv d'"
    "limit_of k key d' = plan_limit p key" "sub_of_org k d' = Some s" "s_status s = status"
    "length (s_stripe_customer_id s) \<le> 255" "db_plans d' = db_plans d"
proof -
  from org obtain md v where md: "map_of kvs ''metadata'' = Some (JObj md)"
    "map_of md ''organization_id'' = Some (JStr v)" "py_int v = Some k" by (auto simp: names_org_def)
  from event(1) have r: "map_of kvs ''id'' = Some (JStr sid)" "sid \<noteq> []" "length sid \<le> 255"
    "map_of kvs ''status'' = Some (JStr st)" "map_of kvs ''current_period_end'' = None"
    "price_id_of (JObj kvs) = JStr price" "price \<noteq> []" by (simp_all add: reports_def)
  from subscription_updated_effect [OF inv md sub r plan width, of py_str now key] event(2) obtain d' s where
    d': "handle_subscription_updated py_str now (JObj kvs) d = Inr d'" "limit_of k key d' = plan_limit p key"
    "sub_of_org k d' = Some s" "s_status s = status" "s_stripe_customer_id s = s_stripe_customer_id sub"
    by auto
  show ?thesis
    using that [OF d'(1) _ d'(2,3,4)] d'(5) width subscription_updated.handle_inv [OF inv d'(1)]
      subscription_updated.handle_frame [OF d'(1)] by simp
qed

text \<open>C14. Stripe does not deliver events in order, and no handler looks at when an event was created: an
  update that was sent while a subscription ran, and arrives after the event that ended it, puts
  the organization back on the paid plan with its limits and status, where the other order leaves
  it canceled on the Free plan. Both events are in the ledger by then and no further one corrects it.\<close>

theorem late_update_restores_plan:
  assumes inv: "db_inv d" and orgs: "names_org ended k" "names_org sent_before k"
    and sub: "sub_of_org k d = Some sub" "length (s_stripe_customer_id sub) \<le> 255"
    and event: "reports sent_before sid st price" "map_of STATUS_MAP st = Some status"
    and plan: "tbl_first (\<lambda>p. p_stripe_price_id p = price \<and> p_is_active p) (db_plans d) = Some paid"
    and free: "free_plan d = Some free"
  shows "\<exists>d1 d2 e1 e2 s s'.
    handle_subscription_deleted py_str t1 (JObj ended) d = Inr d1 \<and>
    handle_subscription_updated py_str t2 (JObj sent_before) d1 = Inr d2 \<and>
    limit_of k key d2 = plan_limit paid key \<and> sub_of_org k d2 = Some s \<and> s_status s = status \<and>
    handle_subscription_updated py_str t1 (JObj sent_before) d = Inr e1 \<and>
    handle_subscription_deleted py_str t2 (JObj ended) e1 = Inr e2 \<and>
    limit_of k key e2 = plan_limit free key \<and> sub_of_org k e2 = Some s' \<and> s_status s' = CANCELED"
proof -
  obtain d1 s1 where d1: "handle_subscription_deleted py_str t1 (JObj ended) d = Inr d1" "db_inv d1"
    "sub_of_org k d1 = Some s1" "length (s_stripe_customer_id s1) \<le> 255" "db_plans d1 = db_plans d"
    by (rule deleted_outcome [OF inv orgs(1) sub(1) free sub(2), of py_str t1 key])
  from plan d1(5) have "tbl_first (\<lambda>p. p_stripe_price_id p = price \<and> p_is_active p) (db_plans d1) = Some paid"
    by simp
  then obtain d2 s where d2: "handle_subscription_updated py_str t2 (JObj sent_before) d1 = Inr d2"
    "limit_of k key d2 = plan_limit paid key" "sub_of_org k d2 = Some s" "s_status s = status"
    by (rule updated_outcome [OF d1(2) orgs(2) d1(3) event _ d1(4), of paid py_str t2 key])
  obtain e1 r1 where e1: "handle_subscription_updated py_str t1 (JObj sent_before) d = Inr e1" "db_inv e1"
    "sub_of_org k e1 = Some r1" "length (s_stripe_customer_id r1) \<le> 255" "db_plans e1 = db_plans d"
    by (rule updated_outcome [OF inv orgs(2) sub(1) event plan sub(2), of py_str t1 key])
  from free e1(5) have "free_plan e1 = Some free" by (simp add: free_plan_def)
  then obtain e2 s' where e2: "handle_subscription_deleted py_str t2 (JObj ended) e1 = Inr e2"
    "limit_of k key e2 = plan_limit free key" "sub_of_org k e2 = Some s'" "s_status s' = CANCELED"
    by (rule deleted_outcome [OF e1(2) orgs(1) e1(3) _ e1(4), of free py_str t2 key])
  show ?thesis using d1(1) d2 e1(1) e2 by blast
qed

theorem late_update_restores_plan_witness:
  "\<exists>d1 d2. handle_subscription_deleted demo_str 7
      (JObj [(''id'', JStr ''sub_1''), (''metadata'', JObj [(''organization_id'', JStr ''1'')])]) demo_db = Inr d1 \<and>
    handle_subscription_updated demo_str 8
      (JObj [(''id'', JStr ''sub_1''), (''status'', JStr ''active''),
        (''metadata'', JObj [(''organization_id'', JStr ''1'')]),
        (''items'', JObj [(''data'', JList [JObj [(''price'', JObj [(''id'', JStr ''price_pro'')])]])])]) d1 = Inr d2 \<and>
    limit_of 1 ''max_projects'' d2 = Some 25"
proof -
  let ?md = "(''metadata'', JObj [(''organization_id'', JStr ''1'')])"
  let ?ended = "[(''id'', JStr ''sub_1''), ?md]"
  let ?upd = "[(''id'', JStr ''sub_1''), (''status'', JStr ''active''), ?md,
     (''items'', JObj [(''data'', JList [JObj [(''price'', JObj [(''id'', JStr ''price_pro'')])]])])]"
  have org: "names_org ?ended 1" "names_org ?upd 1" by (simp_all add: names_org_def py_int_eval)
  have sub: "sub_of_org 1 demo_db = Some (demo_sub 1 1 2 ''cus_1'' ''sub_1'')"
    "length (s_stripe_customer_id (demo_sub 1 1 2 ''cus_1'' ''sub_1'')) \<le> 255"
    "free_plan demo_db = Some (demo_plan 1 ''free'' ''Free'' (Some 3) (Some 3) [])"
    "tbl_first (\<lambda>p. p_stripe_price_id p = ''price_pro'' \<and> p_is_active p) (db_plans demo_db) =
       Some (demo_plan 2 ''pro'' ''Pro'' (Some 25) (Some 10) ''price_pro'')"
    "plan_limit (demo_plan 2 ''pro'' ''Pro'' (Some 25) (Some 10) ''price_pro'') ''max_projects'' = Some 25"
    by code_simp+
  have event: "reports ?upd ''sub_1'' ''active'' ''price_pro''"
    by (simp add: reports_def price_id_of_def item_get_def item_first_def)
  have status: "map_of STATUS_MAP ''active'' = Some ACTIVE" by (simp add: STATUS_MAP_def)
  from late_update_restores_plan [OF demo_inv org sub(1,2) event status sub(4,3), of demo_str 7 8 "''max_projects''"]
    sub(5) show ?thesis by metis
qed

end
