(* ===== verification/Account_Races.thy ===== *)
theory Account_Races
  imports Lifecycle
begin

section \<open>Account requests interleaved\<close>

text \<open>
  The account endpoints run without a transaction: \<open>is_valid\<close> reads, \<open>save\<close> writes, and each statement
  commits by itself. \<open>accounts/tokens.py\<close> promises that a reset token works once; \<open>reset_step\<close> interleaves
  the statements of requests that present one token. A registration checks that its address is free
  and inserts later; \<open>register_step\<close> interleaves registrations.
\<close>

subsection \<open>One reset token, several requests\<close>

datatype reset_phase =
    Asked
  | Checked user \<comment> \<open>\<open>is_valid\<close> returned, with the account it read\<close>
  | Stored user \<comment> \<open>the new password is saved\<close>
  | Replied "exn + string"

record reset_state =
  rs_db :: db
  rs_phase :: "nat \<Rightarrow> reset_phase"

record reset_setup =
  rt_crypto :: crypto
  rt_passwords :: passwords
  rt_timeout :: int
  rt_token :: string
  rt_now :: "nat \<Rightarrow> time"
  rt_new :: "nat \<Rightarrow> string" \<comment> \<open>the password a request asks for\<close>

definition reset_hash :: "reset_setup \<Rightarrow> nat \<Rightarrow> string" where
  "reset_hash r i = pw_make (rt_passwords r) (Some (rt_new r i))"

definition reset_check :: "reset_setup \<Rightarrow> nat \<Rightarrow> db \<Rightarrow> exn + user \<times> string" where
  "reset_check r i d = PasswordResetConfirmSerializer_validate (rt_crypto r) (rt_passwords r) (rt_timeout r)
     (rt_now r i) d (rt_token r, rt_new r i)"

definition goes :: "nat \<Rightarrow> reset_phase \<Rightarrow> db \<Rightarrow> reset_state \<Rightarrow> reset_state" where
  "goes i p d s = \<lparr>rs_db = d, rs_phase = (rs_phase s)(i := p)\<rparr>"

inductive reset_step :: "reset_setup \<Rightarrow> reset_state \<Rightarrow> reset_state \<Rightarrow> bool" for r :: reset_setup where
  check: "rs_phase s i = Asked \<Longrightarrow> reset_check r i (rs_db s) = Inr (u, p) \<Longrightarrow>
    reset_step r s (goes i (Checked u) (rs_db s) s)"
| refuse: "rs_phase s i = Asked \<Longrightarrow> reset_check r i (rs_db s) = Inl e \<Longrightarrow>
    reset_step r s (goes i (Replied (Inl e)) (rs_db s) s)"
| store: "rs_phase s i = Checked u \<Longrightarrow> set_user_password u (reset_hash r i) (rs_db s) = Inr d \<Longrightarrow>
    reset_step r s (goes i (Stored u) d s)"
| store_fails: "rs_phase s i = Checked u \<Longrightarrow> set_user_password u (reset_hash r i) (rs_db s) = Inl e \<Longrightarrow>
    reset_step r s (goes i (Replied (Inl e)) (rs_db s) s)"
| revoke: "rs_phase s i = Stored u \<Longrightarrow> revoke_all_refresh_tokens (u_id u) (rs_db s) = (n, d) \<Longrightarrow>
    reset_step r s (goes i (Replied (Inr ''Password has been reset.'')) d s)"

definition reset_start :: "db \<Rightarrow> reset_state" where
  "reset_start d = \<lparr>rs_db = d, rs_phase = (\<lambda>_. Asked)\<rparr>"

lemma goes_simps [simp]: "rs_db (goes i p d s) = d" "rs_phase (goes i p d s) = (rs_phase s)(i := p)"
  by (simp_all add: goes_def)

text \<open>With nothing in between, the statements are the view.\<close>

lemma reset_alone:
  assumes "rs_phase s i = Asked"
    and "password_reset_confirm_view (rt_crypto r) (rt_passwords r) (rt_timeout r) (rt_now r i)
      (Inr (rt_token r, rt_new r i)) (rs_db s) = (res, d)"
  shows "(reset_step r)\<^sup>*\<^sup>* s (goes i (Replied res) d s)"
proof (cases "reset_check r i (rs_db s)")
  case (Inl e)
  with assms(2) have "res = Inl e" "d = rs_db s"
    by (simp_all add: password_reset_confirm_view_def reset_check_def)
  with reset_step.refuse [OF assms(1) Inl] show ?thesis by simp
next
  case (Inr x)
  obtain u p where x: "x = (u, p)" by (cases x)
  from Inr have p: "p = rt_new r i"
    by (auto simp: x reset_check_def PasswordResetConfirmSerializer_validate_def guard_simps split: option.splits)
  let ?s1 = "goes i (Checked u) (rs_db s) s"
  have s1: "reset_step r s ?s1" by (rule reset_step.check [OF assms(1) Inr [unfolded x]])
  have at: "rs_phase ?s1 i = Checked u" "rs_db ?s1 = rs_db s" by simp_all
  have save: "PasswordResetConfirmSerializer_save (rt_passwords r) u (rt_new r i) (rs_db s) =
      (case set_user_password u (reset_hash r i) (rs_db s) of Inl e \<Rightarrow> Inl e
       | Inr d1 \<Rightarrow> Inr (snd (revoke_all_refresh_tokens (u_id u) d1)))"
    by (simp add: PasswordResetConfirmSerializer_save_def reset_hash_def split: sum.split prod.split)
  show ?thesis
  proof (cases "set_user_password u (reset_hash r i) (rs_db s)")
    case (Inl e)
    then have "res = Inl e" "d = rs_db s"
      using assms(2) \<open>reset_check r i (rs_db s) = Inr x\<close> x p save
      by (simp_all add: password_reset_confirm_view_def reset_check_def)
    moreover have "reset_step r ?s1 (goes i (Replied (Inl e)) (rs_db s) s)"
      using reset_step.store_fails [OF at(1), of r e] Inl by (simp add: goes_def)
    ultimately show ?thesis using s1 by simp
  next
    case (Inr d1)
    let ?s2 = "goes i (Stored u) d1 s"
    obtain n d2 where rv: "revoke_all_refresh_tokens (u_id u) d1 = (n, d2)" by fastforce
    have "res = Inr ''Password has been reset.''" "d = d2"
      using assms(2) \<open>reset_check r i (rs_db s) = Inr x\<close> x p save Inr rv
      by (simp_all add: password_reset_confirm_view_def reset_check_def)
    moreover have "reset_step r ?s1 ?s2"
      using reset_step.store [OF at(1), of r d1] Inr by (simp add: goes_def)
    moreover have "reset_step r ?s2 (goes i (Replied (Inr ''Password has been reset.'')) d2 s)"
      using reset_step.revoke [of ?s2 i u n d2 r] rv by (simp add: goes_def)
    ultimately show ?thesis using s1 by simp
  qed
qed

subsection \<open>After a password is stored the token is dead\<close>

definition reset_setting :: "reset_setup \<Rightarrow> time \<Rightarrow> user \<Rightarrow> db \<Rightarrow> bool" where
  \<comment> \<open>a token made for an account of the database at a time it has not outlived, salted hashes that fit
    the column, and a SHA-256 that does not collide with the payload the token was made from\<close>
  "reset_setting r t u d \<longleftrightarrow> signing_ok (rt_crypto r) \<and> ascii_hex (rt_crypto r) \<and>
     rt_token r = generate_password_reset_token (rt_crypto r) t u \<and>
     tbl_get u_id (u_id u) (db_users d) = Some u \<and>
     (\<forall>i. rt_now r i - t \<le> rt_timeout r * second) \<and> (\<forall>i. length (reset_hash r i) \<le> 128) \<and>
     (\<forall>i. reset_hash r i \<noteq> u_password u) \<and>
     no_second_preimage (rt_crypto r) (fingerprint_payload (rt_crypto r) u)
       (range (\<lambda>i. fingerprint_payload (rt_crypto r) (u\<lparr>u_password := reset_hash r i\<rparr>)))"

fun stored :: "reset_phase \<Rightarrow> bool" where
  "stored (Stored u) = True"
| "stored (Replied (Inr m)) = True"
| "stored _ = False"

definition reset_inv :: "reset_setup \<Rightarrow> user \<Rightarrow> reset_state \<Rightarrow> bool" where
  \<comment> \<open>the account is as it was, up to the password some request stored\<close>
  "reset_inv r u s \<longleftrightarrow>
     (\<exists>h. tbl_get u_id (u_id u) (db_users (rs_db s)) = Some (u\<lparr>u_password := h\<rparr>) \<and>
        (if \<exists>i. stored (rs_phase s i) then \<exists>j. h = reset_hash r j else h = u_password u)) \<and>
     (\<forall>i v. rs_phase s i = Checked v \<or> rs_phase s i = Stored v \<longrightarrow> v = u)"

definition used_token :: exn where
  "used_token = ValidationError (Some ''token'') ''This reset token has already been used or has expired.''"

lemma reset_check_eq:
  assumes set: "reset_setting r t u d0"
    and row: "tbl_get u_id (u_id u) (db_users d) = Some (u\<lparr>u_password := h\<rparr>)"
    and h: "h = u_password u \<or> (\<exists>j. h = reset_hash r j)"
  shows "reset_check r i d =
    (if h = u_password u
     then case pw_validate (rt_passwords r) (rt_new r i) (u_email u, u_first_name u, u_last_name u) of
         Some msg \<Rightarrow> Inl (ValidationError (Some ''new_password'') msg)
       | None \<Rightarrow> Inr (u, rt_new r i)
     else Inl used_token)"
proof -
  let ?c = "rt_crypto r"
  have sg: "signing_ok ?c" "ascii_hex ?c" and token: "rt_token r = generate_password_reset_token ?c t u"
    and fresh: "\<not> rt_timeout r * second < rt_now r i - t"
    using set by (simp_all add: reset_setting_def not_less)
  have same: "password_reset_fingerprint ?c (u\<lparr>u_password := h\<rparr>) = password_reset_fingerprint ?c u \<longleftrightarrow>
      h = u_password u"
  proof (cases "h = u_password u")
    case False
    with h obtain j where j: "h = reset_hash r j" by blast
    have "no_second_preimage ?c (fingerprint_payload ?c u)
        (range (\<lambda>i. fingerprint_payload ?c (u\<lparr>u_password := reset_hash r i\<rparr>)))"
      using set by (simp add: reset_setting_def)
    then show ?thesis
      using fingerprint_payload_eq [of ?c u _ "u\<lparr>u_password := h\<rparr>"] j by (simp add: payload_password)
  qed simp
  have "read_password_reset_token ?c (rt_timeout r) (rt_now r i) (rt_token r) d =
      (if h = u_password u then Inr (u\<lparr>u_password := h\<rparr>)
       else Inl (TokenError ''This reset token has already been used or has expired.''))"
    unfolding token read_reset_generated [OF sg] using fresh row same by simp
  then show ?thesis
    by (simp add: reset_check_def PasswordResetConfirmSerializer_validate_def token_error_def used_token_def
        split: option.split)
qed

lemma reset_inv_step:
  assumes set: "reset_setting r t u d0" and inv: "reset_inv r u s" and step: "reset_step r s s'"
  shows "reset_inv r u s'"
proof -
  obtain h where row: "tbl_get u_id (u_id u) (db_users (rs_db s)) = Some (u\<lparr>u_password := h\<rparr>)"
    and h: "if \<exists>i. stored (rs_phase s i) then \<exists>j. h = reset_hash r j else h = u_password u"
    and mine: "rs_phase s i = Checked v \<or> rs_phase s i = Stored v \<Longrightarrow> v = u" for i v
    using inv unfolding reset_inv_def by blast
  have keep: "reset_inv r u (goes i p (rs_db s) s)"
    if "\<not> stored p" "\<not> stored (rs_phase s i)" "\<And>v. p = Checked v \<Longrightarrow> v = u" for i p
  proof -
    have "stored (((rs_phase s)(i := p)) j) \<longleftrightarrow> stored (rs_phase s j)" for j using that by simp
    moreover have "p \<noteq> Stored v" for v using that(1) by auto
    ultimately show ?thesis using row h mine that(3) unfolding reset_inv_def goes_simps
      by (intro conjI exI [of _ h]) (auto split: if_splits)
  qed
  have ended: "reset_inv r u (goes i p d s)"
    if "stored p" "tbl_get u_id (u_id u) (db_users d) = Some (u\<lparr>u_password := reset_hash r j\<rparr>)"
      "\<And>v. p = Stored v \<Longrightarrow> v = u" for i p d j
  proof -
    have "\<exists>k. stored (((rs_phase s)(i := p)) k)" using that(1) by (intro exI [of _ i]) simp
    moreover have "p \<noteq> Checked v" for v using that(1) by auto
    ultimately show ?thesis using that mine unfolding reset_inv_def goes_simps
      by (intro conjI exI [of _ "reset_hash r j"]) (auto split: if_splits)
  qed
  have h': "h = u_password u \<or> (\<exists>j. h = reset_hash r j)" using h by (auto split: if_splits)
  from step show ?thesis
  proof (cases rule: reset_step.cases)
    case (check i v p)
    with reset_check_eq [OF set row h', of i] have "v = u" by (auto split: if_splits option.splits)
    with check(1,2) show ?thesis by (auto intro!: keep)
  next
    case (store i v d)
    with mine have "v = u" by blast
    with store(3) row have "tbl_get u_id (u_id u) (db_users d) = Some (u\<lparr>u_password := reset_hash r i\<rparr>)"
      by (auto simp: set_user_password_def guard_simps user_t.get_update)
    with store(1) \<open>v = u\<close> show ?thesis by (auto intro!: ended)
  next
    case (revoke i v n d)
    have "\<exists>j. h = reset_hash r j" using h revoke(2) by (metis stored.simps(1))
    then obtain j where "h = reset_hash r j" by blast
    moreover have "db_users d = db_users (rs_db s)" by (subst revoke_all_spec(2) [OF revoke(3)]) simp
    ultimately show ?thesis using revoke(1) row by (auto intro!: ended)
  qed (auto intro!: keep)
qed

lemma reset_inv_start:
  assumes "reset_setting r t u d"
  shows "reset_inv r u (reset_start d)"
  using assms by (simp add: reset_inv_def reset_start_def reset_setting_def)

interpretation reset_system: invariant_system
  "\<lambda>s. \<exists>t d. reset_setting r t u d \<and> s = reset_start d"
  "\<lambda>s s'. (\<exists>t d. reset_setting r t u d) \<and> reset_step r s s'" "reset_inv r u" for r u
proof
  fix s assume "\<exists>t d. reset_setting r t u d \<and> s = reset_start d"
  then show "reset_inv r u s" using reset_inv_start by blast
qed (use reset_inv_step in blast)

text \<open>C26. A reset token opens the account until a new password is stored and never after: once any
  request has stored its password, a request that presents the same token and has not been checked
  yet gets a 400 whatever it asks for, and changes nothing.\<close>

theorem reset_token_dead_once_stored:
  assumes set: "reset_setting r t u d" and steps: "(reset_step r)\<^sup>*\<^sup>* (reset_start d) s"
    and used: "stored (rs_phase s i)" and late: "rs_phase s j = Asked"
    and step: "reset_step r s s'" "rs_phase s' j \<noteq> Asked"
  shows "rs_phase s' j = Replied (Inl used_token) \<and> status_code used_token = Some 400 \<and> rs_db s' = rs_db s"
proof -
  have "(\<lambda>s s'. (\<exists>t d. reset_setting r t u d) \<and> reset_step r s s')\<^sup>*\<^sup>* (reset_start d) s"
    by (rule rtranclp_mono [THEN predicate2D, OF _ steps]) (use set in blast)
  with set have "reset_inv r u s" by (intro reset_system.reachable_inv [of r u "reset_start d"]) blast
  then obtain h k where row: "tbl_get u_id (u_id u) (db_users (rs_db s)) = Some (u\<lparr>u_password := h\<rparr>)"
    and h: "h = reset_hash r k" using used unfolding reset_inv_def by (metis (full_types))
  have "h \<noteq> u_password u" using set h by (simp add: reset_setting_def)
  then have refused: "reset_check r j (rs_db s) = Inl used_token"
    using reset_check_eq [OF set row, of j] h by auto
  from step show ?thesis
    by (cases rule: reset_step.cases) (use late refused in \<open>auto simp: used_token_def split: if_splits\<close>)
qed

subsection \<open>Before that it opens for everybody\<close>

text \<open>C27. The check and the write are two statements: two requests that present the same fresh token
  are both checked before either stores its password, both are answered with success, and the
  account has the password of the one that stored last, although \<open>tokens.py\<close> calls the token
  single-use.\<close>

theorem reset_token_used_twice:
  assumes set: "reset_setting r t u d"
    and strong: "\<And>i. pw_validate (rt_passwords r) (rt_new r i) (u_email u, u_first_name u, u_last_name u) = None"
  shows "\<exists>s. (reset_step r)\<^sup>*\<^sup>* (reset_start d) s \<and>
    rs_phase s 0 = Replied (Inr ''Password has been reset.'') \<and>
    rs_phase s 1 = Replied (Inr ''Password has been reset.'') \<and>
    tbl_get u_id (u_id u) (db_users (rs_db s)) = Some (u\<lparr>u_password := reset_hash r 1\<rparr>)"
proof -
  let ?step = "reset_step r" and ?ok = "Replied (Inr ''Password has been reset.'')"
  have row: "tbl_get u_id (u_id u) (db_users d) = Some (u\<lparr>u_password := u_password u\<rparr>)"
    and fits: "length (reset_hash r i) \<le> 128" for i
    using set by (simp_all add: reset_setting_def)
  have ok: "reset_check r i d = Inr (u, rt_new r i)" for i
    using reset_check_eq [OF set row, of i] strong by simp
  have save: "\<exists>e. set_user_password u (reset_hash r i) x = Inr e \<and>
      tbl_get u_id (u_id u) (db_users e) = Some (u\<lparr>u_password := reset_hash r i\<rparr>)"
    if "tbl_get u_id (u_id u) (db_users x) = Some (u\<lparr>u_password := h\<rparr>)" for i x h
    using that fits [of i] by (simp add: set_user_password_def char_field_def user_t.get_update not_less [symmetric])
  obtain d1 where d1: "set_user_password u (reset_hash r 0) d = Inr d1"
    "tbl_get u_id (u_id u) (db_users d1) = Some (u\<lparr>u_password := reset_hash r 0\<rparr>)" using save [OF row] by blast
  obtain n1 e1 where e1: "revoke_all_refresh_tokens (u_id u) d1 = (n1, e1)" by fastforce
  have "db_users e1 = db_users d1" by (subst revoke_all_spec(2) [OF e1]) simp
  then obtain d2 where d2: "set_user_password u (reset_hash r 1) e1 = Inr d2"
    "tbl_get u_id (u_id u) (db_users d2) = Some (u\<lparr>u_password := reset_hash r 1\<rparr>)" using save [of e1] d1(2) by metis
  obtain n2 e2 where e2: "revoke_all_refresh_tokens (u_id u) d2 = (n2, e2)" by fastforce
  have users: "db_users e2 = db_users d2" by (subst revoke_all_spec(2) [OF e2]) simp
  let ?s = "\<lambda>x p q. \<lparr>rs_db = x, rs_phase = (\<lambda>_. Asked)(0 := p, 1 := q)\<rparr>"
  have "?step (?s d Asked Asked) (?s d (Checked u) Asked)"
    using reset_step.check [of "?s d Asked Asked" 0 r u] ok by (simp add: goes_def fun_upd_twist)
  moreover have "?step (?s d (Checked u) Asked) (?s d (Checked u) (Checked u))"
    using reset_step.check [of "?s d (Checked u) Asked" 1 r u] ok by (simp add: goes_def)
  moreover have "?step (?s d (Checked u) (Checked u)) (?s d1 (Stored u) (Checked u))"
    using reset_step.store [of "?s d (Checked u) (Checked u)" 0 u r d1] d1 by (simp add: goes_def fun_upd_twist)
  moreover have "?step (?s d1 (Stored u) (Checked u)) (?s e1 ?ok (Checked u))"
    using reset_step.revoke [of "?s d1 (Stored u) (Checked u)" 0 u n1 e1 r] e1 by (simp add: goes_def fun_upd_twist)
  moreover have "?step (?s e1 ?ok (Checked u)) (?s d2 ?ok (Stored u))"
    using reset_step.store [of "?s e1 ?ok (Checked u)" 1 u r d2] d2 by (simp add: goes_def)
  moreover have "?step (?s d2 ?ok (Stored u)) (?s e2 ?ok ?ok)"
    using reset_step.revoke [of "?s d2 ?ok (Stored u)" 1 u n2 e2 r] e2 by (simp add: goes_def)
  ultimately have "?step\<^sup>*\<^sup>* (?s d Asked Asked) (?s e2 ?ok ?ok)"
    by (meson converse_rtranclp_into_rtranclp rtranclp.rtrancl_refl)
  moreover have "?s d Asked Asked = reset_start d" by (simp add: reset_start_def fun_upd_idem)
  ultimately have "?step\<^sup>*\<^sup>* (reset_start d) (?s e2 ?ok ?ok)" by simp
  then show ?thesis by (intro exI [of _ "?s e2 ?ok ?ok"]) (simp add: users d2(2))
qed

definition demo_resets :: reset_setup where
  "demo_resets = \<lparr>rt_crypto = demo_crypto, rt_passwords = demo_passwords, rt_timeout = 3600,
     rt_token = generate_password_reset_token demo_crypto 0 olivia, rt_now = (\<lambda>_. 9),
     rt_new = (\<lambda>i. if i = 0 then ''longpassword'' else ''otherpassword'')\<rparr>"

lemma demo_reset_setting: "reset_setting demo_resets 0 olivia demo_db"
proof -
  have "tbl_get u_id (u_id olivia) (db_users demo_db) = Some olivia" by simp
  moreover have "length (reset_hash demo_resets i) \<le> 128" for i
    by (simp add: reset_hash_def demo_resets_def demo_passwords_def)
  moreover have hashes: "reset_hash demo_resets i =
      (if i = 0 then ''pbkdf2$drowssapgnol'' else ''pbkdf2$drowssaprehto'')" for i
    by (simp add: reset_hash_def demo_resets_def demo_passwords_def)
  moreover have "reset_hash demo_resets i \<noteq> u_password olivia" for i
    by (simp add: hashes olivia_def demo_user_def)
  moreover have "no_second_preimage demo_crypto (fingerprint_payload demo_crypto olivia)
      (range (\<lambda>i. fingerprint_payload demo_crypto (olivia\<lparr>u_password := reset_hash demo_resets i\<rparr>)))"
    by (auto simp: hashes no_second_preimage_def fingerprint_payload_def demo_crypto_def
        olivia_def demo_user_def show_int_def show_nat.simps code_point_def)
  ultimately show ?thesis
    using demo_signing_ok demo_ascii_hex by (simp add: reset_setting_def demo_resets_def second_def)
qed

lemma demo_reset_strong:
  "pw_validate (rt_passwords demo_resets) (rt_new demo_resets i)
     (u_email olivia, u_first_name olivia, u_last_name olivia) = None"
  by (simp add: demo_resets_def demo_passwords_def)

theorem reset_token_used_twice_witness:
  "\<exists>s. (reset_step demo_resets)\<^sup>*\<^sup>* (reset_start demo_db) s \<and>
    rs_phase s 1 = Replied (Inr ''Password has been reset.'') \<and>
    tbl_get u_id 1 (db_users (rs_db s)) = Some (olivia\<lparr>u_password := ''pbkdf2$drowssaprehto''\<rparr>)"
proof -
  have "reset_hash demo_resets 1 = ''pbkdf2$drowssaprehto''"
    by (simp add: reset_hash_def demo_resets_def demo_passwords_def)
  with reset_token_used_twice [OF demo_reset_setting demo_reset_strong] show ?thesis
    by (auto simp: olivia_def demo_user_def)
qed

theorem reset_token_dead_once_stored_witness:
  "\<exists>s s'. (reset_step demo_resets)\<^sup>*\<^sup>* (reset_start demo_db) s \<and> stored (rs_phase s 0) \<and>
     reset_step demo_resets s s' \<and> rs_phase s' 1 = Replied (Inl used_token)"
proof -
  let ?r = demo_resets
  have row: "tbl_get u_id (u_id olivia) (db_users demo_db) = Some (olivia\<lparr>u_password := u_password olivia\<rparr>)"
    using demo_reset_setting by (simp add: reset_setting_def)
  have check: "reset_check ?r 0 demo_db = Inr (olivia, rt_new ?r 0)"
    using reset_check_eq [OF demo_reset_setting row, of 0] demo_reset_strong [of 0] by simp
  have "length (reset_hash ?r 0) \<le> 128" using demo_reset_setting by (simp add: reset_setting_def)
  then obtain d where d: "set_user_password olivia (reset_hash ?r 0) demo_db = Inr d"
    by (auto simp: set_user_password_def char_field_def)
  let ?s1 = "goes 0 (Checked olivia) demo_db (reset_start demo_db)" and ?s2 = "goes 0 (Stored olivia) d (reset_start demo_db)"
  have s1: "reset_step ?r (reset_start demo_db) ?s1"
    using reset_step.check [of "reset_start demo_db" 0 ?r] check by (simp add: reset_start_def)
  have s2: "reset_step ?r ?s1 ?s2"
    using reset_step.store [of ?s1 0 olivia ?r d] d by (simp add: goes_def)
  have phase: "stored (rs_phase ?s2 0)" "rs_phase ?s2 1 = Asked" by (simp_all add: reset_start_def)
  have "\<exists>s'. reset_step ?r ?s2 s' \<and> rs_phase s' 1 \<noteq> Asked"
  proof (cases "reset_check ?r 1 (rs_db ?s2)")
    case (Inl e)
    have "rs_phase (goes 1 (Replied (Inl e)) (rs_db ?s2) ?s2) 1 \<noteq> Asked" by (simp only: goes_simps fun_upd_same) simp
    with reset_step.refuse [OF phase(2) Inl] show ?thesis by blast
  next
    case (Inr x)
    obtain v p where "x = (v, p)" by (cases x)
    have "rs_phase (goes 1 (Checked v) (rs_db ?s2) ?s2) 1 \<noteq> Asked" by (simp only: goes_simps fun_upd_same) simp
    with reset_step.check [OF phase(2) Inr [unfolded \<open>x = (v, p)\<close>]] show ?thesis by blast
  qed
  then obtain s' where s': "reset_step ?r ?s2 s'" "rs_phase s' 1 \<noteq> Asked" by blast
  have reached: "(reset_step ?r)\<^sup>*\<^sup>* (reset_start demo_db) ?s2"
    by (rule rtranclp.rtrancl_into_rtrancl, rule r_into_rtranclp, rule s1, rule s2)
  from reset_token_dead_once_stored [OF demo_reset_setting this phase s'] reached phase(1) s'(1)
  show ?thesis by blast
qed

subsection \<open>One address, several registrations\<close>

datatype register_phase =
    Posted
  | Validated "string \<times> string \<times> string"
  | Answered "exn + user"

record register_state =
  gs_db :: db
  gs_phase :: "nat \<Rightarrow> register_phase"

definition turns :: "nat \<Rightarrow> register_phase \<Rightarrow> db \<Rightarrow> register_state \<Rightarrow> register_state" where
  "turns i p d s = \<lparr>gs_db = d, gs_phase = (gs_phase s)(i := p)\<rparr>"

inductive register_step ::
  "(string \<Rightarrow> string) \<Rightarrow> passwords \<Rightarrow> (nat \<Rightarrow> time) \<Rightarrow> (nat \<Rightarrow> string \<times> string \<times> string) \<Rightarrow>
   register_state \<Rightarrow> register_state \<Rightarrow> bool"
  for ne :: "string \<Rightarrow> string" and pw :: passwords and now :: "nat \<Rightarrow> time" and body :: "nat \<Rightarrow> string \<times> string \<times> string" where
  valid: "gs_phase s i = Posted \<Longrightarrow> validate_register pw (body i) (gs_db s) = Inr v \<Longrightarrow>
    register_step ne pw now body s (turns i (Validated v) (gs_db s) s)"
| invalid: "gs_phase s i = Posted \<Longrightarrow> validate_register pw (body i) (gs_db s) = Inl e \<Longrightarrow>
    register_step ne pw now body s (turns i (Answered (Inl e)) (gs_db s) s)"
| create: "gs_phase s i = Validated v \<Longrightarrow> register_create ne pw (now i) v (gs_db s) = Inr (u, d) \<Longrightarrow>
    register_step ne pw now body s (turns i (Answered (Inr u)) d s)"
| create_fails: "gs_phase s i = Validated v \<Longrightarrow> register_create ne pw (now i) v (gs_db s) = Inl e \<Longrightarrow>
    register_step ne pw now body s (turns i (Answered (Inl e)) (gs_db s) s)"

definition register_start :: "db \<Rightarrow> register_state" where
  "register_start d = \<lparr>gs_db = d, gs_phase = (\<lambda>_. Posted)\<rparr>"

lemma register_start_simps [simp]: "gs_db (register_start d) = d" "gs_phase (register_start d) i = Posted"
  by (simp_all add: register_start_def)

lemma turns_simps [simp]: "gs_db (turns i p d s) = d" "gs_phase (turns i p d s) = (gs_phase s)(i := p)"
  by (simp_all add: turns_def)

definition register_inv :: "register_state \<Rightarrow> bool" where
  "register_inv s \<longleftrightarrow> db_inv (gs_db s) \<and> emails_lower (gs_db s) \<and>
     (\<forall>i u. gs_phase s i = Answered (Inr u) \<longrightarrow> u \<in> set (tb_rows (db_users (gs_db s)))) \<and>
     (\<forall>i j u. gs_phase s i = Answered (Inr u) \<and> gs_phase s j = Answered (Inr u) \<longrightarrow> i = j)"

lemma register_create_Inr:
  assumes "register_create ne pw now v d = Inr (u, d')" "db_inv d" "emails_lower d"
  shows "db_inv d' \<and> emails_lower d' \<and> u \<notin> set (tb_rows (db_users d)) \<and>
    set (tb_rows (db_users d')) = insert u (set (tb_rows (db_users d)))"
proof -
  obtain em pwd nm where v: "v = (em, pwd, nm)" by (cases v)
  from assms(1) obtain x ex where x: "create_user_row ne (pw_make pw) now em (Some pwd) ex d = Inr (u, x)"
    "d' = enqueue (Send_Verification_Email (u_id u)) x"
    by (auto simp: v register_create_def create_user_def guard_simps)
  note row = create_user_row_Inr [OF x(1)]
  have "u \<notin> set (tb_rows (db_users d))"
    using row(12) db_invD(1) [OF assms(2)] by (auto simp: keys_ok_def tbl_wf_def)
  moreover have "set (tb_rows (db_users d')) = insert u (set (tb_rows (db_users d)))"
    using row(4,12,14) by (auto simp: x(2))
  ultimately show ?thesis
    using create_user_row_keeps [OF x(1)] assms(2,3) by (simp add: x(2) emails_lower_def)
qed

lemma register_create_Inl:
  assumes "register_create ne pw now v d = Inl e"
  shows "unhandled e"
proof -
  obtain em pwd nm where v: "v = (em, pwd, nm)" by (cases v)
  from assms obtain ex where "create_user_row ne (pw_make pw) now em (Some pwd) ex d = Inl e"
    by (auto simp: v register_create_def create_user_def guard_simps)
  then show ?thesis
    by (auto simp: create_user_row_def user_insert_def char_field_def guard_simps split: if_splits)
qed

lemma register_inv_step:
  assumes inv: "register_inv s" and step: "register_step ne pw now body s t"
  shows "register_inv t"
  using step
proof (cases rule: register_step.cases)
  case (create i v u d)
  have old: "db_inv (gs_db s)" "emails_lower (gs_db s)"
    and rows: "\<And>j x. gs_phase s j = Answered (Inr x) \<Longrightarrow> x \<in> set (tb_rows (db_users (gs_db s)))"
    and one: "\<And>j k x. gs_phase s j = Answered (Inr x) \<Longrightarrow> gs_phase s k = Answered (Inr x) \<Longrightarrow> j = k"
    using inv unfolding register_inv_def by blast+
  note new = register_create_Inr [OF create(3) old]
  have was: "x = u \<and> j = i \<or> j \<noteq> i \<and> gs_phase s j = Answered (Inr x) \<and> x \<noteq> u"
    if "gs_phase t j = Answered (Inr x)" for j x
    using that rows [of j x] new unfolding create(1) turns_simps by (cases "j = i") auto
  have "db_inv (gs_db t) \<and> emails_lower (gs_db t)" using new by (simp add: create(1))
  moreover have "x \<in> set (tb_rows (db_users (gs_db t)))" if "gs_phase t j = Answered (Inr x)" for j x
    using was [OF that] rows new by (auto simp: create(1))
  moreover have "j = k" if "gs_phase t j = Answered (Inr x)" "gs_phase t k = Answered (Inr x)" for j k x
    using was [OF that(1)] was [OF that(2)] one by blast
  ultimately show ?thesis unfolding register_inv_def by blast
qed (use inv in \<open>auto simp: register_inv_def split: if_splits\<close>)

interpretation register_system: invariant_system
  "\<lambda>s. \<exists>d. db_inv d \<and> emails_lower d \<and> s = register_start d" "register_step ne pw now body" register_inv
  for ne pw now body
proof
  fix s assume "\<exists>d. db_inv d \<and> emails_lower d \<and> s = register_start d"
  then show "register_inv s" by (auto simp: register_inv_def register_start_def)
qed (rule register_inv_step)

text \<open>C32. Concurrent registrations, checked and stored in any order: the database invariant holds, no two
  successful ones have the same address up to case, and a request whose address was free when it
  was checked either stores its account or ends in an exception nothing handles (a 500 and not the
  400 of a known address), with nothing stored.\<close>

theorem registration_races:
  assumes inv: "db_inv d" "emails_lower d"
    and steps: "(register_step ne pw now body)\<^sup>*\<^sup>* (register_start d) s"
  shows "db_inv (gs_db s) \<and>
    (\<forall>i j u v. gs_phase s i = Answered (Inr u) \<and> gs_phase s j = Answered (Inr v) \<and> i \<noteq> j \<longrightarrow>
       str_lower (u_email u) \<noteq> str_lower (u_email v)) \<and>
    (\<forall>i v e. gs_phase s i = Validated v \<and> register_create ne pw (now i) v (gs_db s) = Inl e \<longrightarrow> unhandled e)"
proof -
  have "register_inv s" by (rule register_system.reachable_inv [OF _ steps]) (use inv in blast)
  then have r: "db_inv (gs_db s)" "emails_lower (gs_db s)"
    and rows: "\<And>i u. gs_phase s i = Answered (Inr u) \<Longrightarrow> u \<in> set (tb_rows (db_users (gs_db s)))"
    and one: "\<And>i j u. gs_phase s i = Answered (Inr u) \<Longrightarrow> gs_phase s j = Answered (Inr u) \<Longrightarrow> i = j"
    unfolding register_inv_def by blast+
  have "str_lower (u_email u) \<noteq> str_lower (u_email v)"
    if "gs_phase s i = Answered (Inr u) \<and> gs_phase s j = Answered (Inr v) \<and> i \<noteq> j" for i j u v
  proof
    assume "str_lower (u_email u) = str_lower (u_email v)"
    then have "u_email u = u_email v" using r(2) rows that by (auto simp: emails_lower_def)
    moreover have "tbl_unique u_email (db_users (gs_db s))" using db_invD(4) [OF r(1)] by (simp add: unique_ok_def)
    ultimately have "u = v" using tbl_uniqueD [of u_email _ u v] rows that by blast
    with one that show False by blast
  qed
  moreover have "unhandled e" if "register_create ne pw (now i) v (gs_db s) = Inl e" for i v e
    using that by (rule register_create_Inl)
  ultimately show ?thesis using r(1) by blast
qed

definition same_address :: "nat \<Rightarrow> string \<times> string \<times> string" where
  "same_address i = (''zoe@new.test'', if i = 0 then ''longpassword'' else ''otherpassword'', ''Zoe'')"

text \<open>Two registrations of one address, both checked before either is stored: the second is refused by
  the unique index and not by the validation, where alone it would be a 400.\<close>

theorem registration_races_witness:
  "\<exists>s e. (register_step id demo_passwords (\<lambda>_. 5) same_address)\<^sup>*\<^sup>* (register_start demo_db) s \<and>
     db_inv (gs_db s) \<and> gs_phase s 1 = Validated (same_address 1) \<and>
     register_create id demo_passwords 5 (same_address 1) (gs_db s) = Inl e \<and> unhandled e \<and>
     register_view id demo_passwords (\<lambda>_. 0) 5 (Inr (same_address 1)) (gs_db s) =
       (Inl (ValidationError (Some ''email'') ''A user with this email already exists.''), gs_db s)"
proof -
  let ?step = "register_step id demo_passwords (\<lambda>_. 5) same_address" and ?b = same_address
  let ?s0 = "register_start demo_db"
  have valid: "validate_register demo_passwords (?b 0) demo_db = Inr (?b 0)"
    "validate_register demo_passwords (?b 1) demo_db = Inr (?b 1)"
    and "\<not> isl (register_create id demo_passwords 5 (?b 0) demo_db)"
    by code_simp+
  then obtain u d where new: "register_create id demo_passwords 5 (?b 0) demo_db = Inr (u, d)"
    by (cases "register_create id demo_passwords 5 (?b 0) demo_db") auto
  have "register_create id demo_passwords 5 (?b 1)
      (snd (projr (register_create id demo_passwords 5 (?b 0) demo_db))) = Inl (IntegrityError ''accounts_user_email_key'')"
    "fst (register_view id demo_passwords (\<lambda>_. 0) 5 (Inr (?b 1))
      (snd (projr (register_create id demo_passwords 5 (?b 0) demo_db)))) =
        Inl (ValidationError (Some ''email'') ''A user with this email already exists.'')"
    by code_simp+
  then have late: "register_create id demo_passwords 5 (?b 1) d = Inl (IntegrityError ''accounts_user_email_key'')"
    "fst (register_view id demo_passwords (\<lambda>_. 0) 5 (Inr (?b 1)) d) =
        Inl (ValidationError (Some ''email'') ''A user with this email already exists.'')"
    by (simp_all add: new)
  then have alone: "register_view id demo_passwords (\<lambda>_. 0) 5 (Inr (?b 1)) d =
      (Inl (ValidationError (Some ''email'') ''A user with this email already exists.''), d)"
    by (auto simp: register_view_def split: sum.splits prod.splits)
  let ?s1 = "turns 0 (Validated (?b 0)) demo_db ?s0"
  let ?s2 = "turns 1 (Validated (?b 1)) demo_db ?s1"
  let ?s3 = "turns 0 (Answered (Inr u)) d ?s2"
  have "?step ?s0 ?s1"
    using register_step.valid [where s = ?s0 and i = 0 and ne = id and now = "\<lambda>_. 5" and body = ?b and pw = demo_passwords] valid(1)
    by simp
  moreover have "?step ?s1 ?s2"
    using register_step.valid [where s = ?s1 and i = 1 and ne = id and now = "\<lambda>_. 5" and body = ?b and pw = demo_passwords] valid(2)
    by simp
  moreover have "?step ?s2 ?s3"
    using register_step.create [where s = ?s2 and i = 0 and now = "\<lambda>_. 5" and body = ?b] new by simp
  ultimately have steps: "?step\<^sup>*\<^sup>* ?s0 ?s3"
    by (meson converse_rtranclp_into_rtranclp rtranclp.rtrancl_refl)
  have "gs_phase ?s3 1 = Validated (?b 1)" "gs_db ?s3 = d" by simp_all
  with registration_races [OF demo_inv demo_emails_lower steps] late(1) alone steps show ?thesis by metis
qed

end
