(* ===== verification/Billing_Spec.thy ===== *)
theory Billing_Spec
  imports Lifecycle
begin

section \<open>Who may change a plan: an abstract specification and its refinement\<close>

text \<open>
  \<open>billing/webhooks.py\<close> says that the webhook is the source of truth, never the success redirect. The
  abstract state is what that is about: which organization has which plan and status, and which
  Stripe events have been processed. In \<open>billing_step\<close> the application can only open a Free account
  and close one; everything else is Stripe's, once per event, within what the kind of the event
  allows. Every call of the API is such a step of the application or, for a delivery whose signature
  verifies, of Stripe.
\<close>

subsection \<open>The abstract system\<close>

type_synonym account = "key \<times> key \<times> string" \<comment> \<open>organization, plan, status\<close>

record billing =
  bg_accounts :: "account set"
  bg_processed :: "string set" \<comment> \<open>ids of events\<close>

record catalogue =
  ct_free :: "key option"
  ct_active :: "key set"

datatype agent = Application | Stripe string string \<comment> \<open>id and type of the event\<close>

definition entitles :: "catalogue \<Rightarrow> string \<Rightarrow> key \<times> string \<Rightarrow> key \<times> string \<Rightarrow> bool" where
  \<comment> \<open>what an event of a type may make of plan and status\<close>
  "entitles c ty = (\<lambda>(p, st) (p', st').
     if ty = ''checkout.session.completed'' then st' = ACTIVE \<and> (p' = p \<or> p' \<in> ct_active c)
     else if ty = ''customer.subscription.updated''
       then (st' = st \<or> st' \<in> STATUSES) \<and> (p' = p \<or> p' \<in> ct_active c)
     else if ty = ''customer.subscription.deleted''
       then st' = CANCELED \<and> p' = (case ct_free c of Some f \<Rightarrow> f | None \<Rightarrow> p)
     else ty = ''invoice.payment_failed'' \<and> st' = PAST_DUE \<and> p' = p)"

definition account_change :: "catalogue \<Rightarrow> string \<Rightarrow> account set \<Rightarrow> account set \<Rightarrow> bool" where
  "account_change c ty A A' \<longleftrightarrow> A' = A \<or>
     (\<exists>k p st p' st'. (k, p, st) \<in> A \<and> entitles c ty (p, st) (p', st') \<and>
        A' = insert (k, p', st') (A - {(k, p, st)}))"

inductive billing_step :: "catalogue \<Rightarrow> agent \<Rightarrow> billing \<Rightarrow> billing \<Rightarrow> bool" for c :: catalogue where
  idle: "billing_step c a s s"
| open_account:
    "(\<And>p st. (k, p, st) \<notin> bg_accounts s) \<Longrightarrow> ct_free c = Some f \<Longrightarrow>
     s' = s\<lparr>bg_accounts := insert (k, f, ACTIVE) (bg_accounts s)\<rparr> \<Longrightarrow> billing_step c Application s s'"
| close_account:
    "s' = s\<lparr>bg_accounts := {(j, p, st) \<in> bg_accounts s. j \<noteq> k}\<rparr> \<Longrightarrow> billing_step c Application s s'"
| hear:
    "i \<notin> bg_processed s \<Longrightarrow> account_change c ty (bg_accounts s) A' \<Longrightarrow>
     s' = \<lparr>bg_accounts = A', bg_processed = insert i (bg_processed s)\<rparr> \<Longrightarrow>
     billing_step c (Stripe i ty) s s'"

definition one_account :: "billing \<Rightarrow> bool" where
  "one_account s \<longleftrightarrow> (\<forall>k p st p' st'. (k, p, st) \<in> bg_accounts s \<and> (k, p', st') \<in> bg_accounts s \<longrightarrow>
     p' = p \<and> st' = st)"

lemma application_keeps:
  assumes "billing_step c Application s s'" "one_account s"
    and "(k, p, st) \<in> bg_accounts s" "(k, p', st') \<in> bg_accounts s'"
  shows "p' = p \<and> st' = st"
  using assms(1)
proof cases
  case (open_account j f)
  with assms(2-4) show ?thesis unfolding one_account_def by fastforce
next
  case (close_account j)
  with assms(2-4) show ?thesis unfolding one_account_def by fastforce
qed (use assms in \<open>auto simp: one_account_def\<close>)

lemma stripe_changes:
  assumes "billing_step c (Stripe i ty) s s'" "one_account s"
    and "(k, p, st) \<in> bg_accounts s" "(k, p', st') \<in> bg_accounts s'"
  shows "p' = p \<and> st' = st \<or>
    i \<notin> bg_processed s \<and> i \<in> bg_processed s' \<and> entitles c ty (p, st) (p', st')"
  using assms(1)
proof cases
  case (hear A')
  have one: "q' = q \<and> t' = t" if "(j, q, t) \<in> bg_accounts s" "(j, q', t') \<in> bg_accounts s" for j q t q' t'
    using assms(2) that unfolding one_account_def by blast
  have new: "(k, p', st') \<in> A'" using hear(3) assms(4) by simp
  from hear(2) consider "A' = bg_accounts s" | j q t q' t' where "(j, q, t) \<in> bg_accounts s"
      "entitles c ty (q, t) (q', t')" "A' = insert (j, q', t') (bg_accounts s - {(j, q, t)})"
    unfolding account_change_def by blast
  then show ?thesis
  proof cases
    case 1
    with one [OF assms(3)] new show ?thesis by simp
  next
    case (2 j q t q' t')
    show ?thesis
    proof (cases "(k, p', st') \<in> bg_accounts s")
      case True
      with one [OF assms(3)] show ?thesis by simp
    next
      case False
      with new 2(3) have "k = j" "p' = q'" "st' = t'" by auto
      with one [OF assms(3), of q t] 2(1,2) hear(1,3) show ?thesis by auto
    qed
  qed
qed (use assms in \<open>auto simp: one_account_def\<close>)

subsection \<open>The abstraction\<close>

definition account_of :: "subscription \<Rightarrow> account" where
  "account_of s = (s_org s, s_plan s, s_status s)"

definition billing_of :: "db \<Rightarrow> billing" where
  "billing_of d = \<lparr>bg_accounts = account_of ` set (tb_rows (db_subs d)),
     bg_processed = w_stripe_event_id ` set (tb_rows (db_events d))\<rparr>"

definition catalogue_of :: "db \<Rightarrow> catalogue" where
  "catalogue_of d = \<lparr>ct_free = map_option p_id (free_plan d),
     ct_active = p_id ` {p \<in> set (tb_rows (db_plans d)). p_is_active p}\<rparr>"

lemma billing_of_simps [simp]:
  "bg_accounts (billing_of d) = account_of ` set (tb_rows (db_subs d))"
  "bg_processed (billing_of d) = w_stripe_event_id ` set (tb_rows (db_events d))"
  by (simp_all add: billing_of_def)

lemma billing_frame:
  "db_subs d' = db_subs d \<Longrightarrow> db_events d' = db_events d \<Longrightarrow> billing_of d' = billing_of d"
  by (simp add: billing_of_def)

lemma processed_iff: "i \<in> bg_processed (billing_of d) \<longleftrightarrow> recorded i d"
  by (auto simp: recorded_def tbl_exists_iff)

lemma sub_of_org_account:
  "sub_of_org k d = Some s \<Longrightarrow> (k, s_plan s, s_status s) \<in> bg_accounts (billing_of d)"
  by (auto simp: account_of_def image_iff dest!: sub_of_org_Some)

lemma one_account_of:
  assumes "db_inv d"
  shows "one_account (billing_of d)"
  using db_invD(4) [OF assms]
  by (auto simp: one_account_def account_of_def unique_ok_def tbl_unique_def dest: inj_onD)

lemma update_account:
  assumes inv: "db_inv d" and sub: "sub \<in> set (tb_rows (db_subs d))"
    and f: "\<And>x. s_id (f x) = s_id x \<and> s_org (f x) = s_org x"
  shows "account_of ` set (tb_rows (tbl_update_where (\<lambda>x. s_id x = s_id sub) f (db_subs d))) =
    insert (account_of (f sub)) (account_of ` set (tb_rows (db_subs d)) - {account_of sub})"
proof -
  have "set (tb_rows (tbl_update_where (\<lambda>x. s_id x = s_id sub) f (db_subs d))) =
      insert (f sub) (set (tb_rows (db_subs d)) - {sub})"
    using sub_t.update_row_Un [OF _ sub, of f] db_invD(1) [OF inv] by (simp add: keys_ok_def)
  moreover have "inj_on account_of (set (tb_rows (db_subs d)))"
    using db_invD(4) [OF inv]
    by (auto simp: unique_ok_def tbl_unique_def account_of_def inj_on_def)
  then have "account_of ` (set (tb_rows (db_subs d)) - {sub}) =
      account_of ` set (tb_rows (db_subs d)) - {account_of sub}"
    using inj_on_image_set_diff [of account_of _ _ "{sub}"] sub by auto
  ultimately show ?thesis by simp
qed

subsection \<open>What an event does\<close>

lemma update_change:
  assumes "db_inv d" "sub \<in> set (tb_rows (db_subs d))"
    and f: "\<And>x. s_id (f x) = s_id x \<and> s_org (f x) = s_org x"
    and "entitles (catalogue_of d) ty (s_plan sub, s_status sub) (s_plan (f sub), s_status (f sub))"
    and "d' = d\<lparr>db_subs := tbl_update_where (\<lambda>x. s_id x = s_id sub) f (db_subs d)\<rparr>"
  shows "account_change (catalogue_of d) ty (bg_accounts (billing_of d)) (bg_accounts (billing_of d'))"
proof -
  have "bg_accounts (billing_of d') =
      insert (account_of (f sub)) (bg_accounts (billing_of d) - {account_of sub})"
    using update_account [OF assms(1,2), of f] f by (simp add: assms(5))
  moreover have "account_of sub \<in> bg_accounts (billing_of d)" using assms(2) by simp
  ultimately show ?thesis using assms(4) f unfolding account_change_def account_of_def by metis
qed

lemma save_change:
  assumes inv: "db_inv d" and save: "save_subscription now new d = Inr d'"
    and sub: "sub \<in> set (tb_rows (db_subs d))" "s_id new = s_id sub"
    and ok: "entitles (catalogue_of d) ty (s_plan sub, s_status sub) (s_plan new, s_status new)"
  shows "account_change (catalogue_of d) ty (bg_accounts (billing_of d)) (bg_accounts (billing_of d'))"
  using save
  by (intro update_change [OF inv sub(1), of "\<lambda>x. x\<lparr>s_plan := s_plan new,
        s_stripe_customer_id := s_stripe_customer_id new,
        s_stripe_subscription_id := s_stripe_subscription_id new, s_status := s_status new,
        s_current_period_end := s_current_period_end new, s_updated_at := now\<rparr>"])
    (use sub(2) ok in \<open>auto simp: save_subscription_def guard_simps\<close>)

lemma plans_of_catalogue:
  "(case plan_by_code py_str code d of Some p \<Rightarrow> p_id p | None \<Rightarrow> old) = old \<or>
   (case plan_by_code py_str code d of Some p \<Rightarrow> p_id p | None \<Rightarrow> old) \<in> ct_active (catalogue_of d)"
  "(case plan_for_price py_str price d of Some p \<Rightarrow> p_id p | None \<Rightarrow> old) = old \<or>
   (case plan_for_price py_str price d of Some p \<Rightarrow> p_id p | None \<Rightarrow> old) \<in> ct_active (catalogue_of d)"
  "(case free_plan d of Some p \<Rightarrow> p_id p | None \<Rightarrow> old) =
   (case ct_free (catalogue_of d) of Some f \<Rightarrow> f | None \<Rightarrow> old)"
  by (auto simp: plan_by_code_def plan_for_price_def catalogue_of_def split: option.splits if_splits
      dest!: tbl_first_Some)

lemma no_change: "account_change c ty A A"
  by (simp add: account_change_def)

lemma checkout_change:
  assumes inv: "db_inv d" and h: "handle_checkout_completed py_str now obj d = Inr d'"
  shows "account_change (catalogue_of d) ''checkout.session.completed''
    (bg_accounts (billing_of d)) (bg_accounts (billing_of d'))"
proof -
  obtain customer where g: "py_get obj ''customer'' = Inr customer"
    using h unfolding handle_checkout_completed_def by (auto simp only: bind_res_Inr_iff)
  from h show ?thesis unfolding handle_checkout_completed_def g bind_res_simps
    by (rule found_cases) (auto simp only: bind_res_Inr_iff no_change
        intro!: save_change [OF inv], use plans_of_catalogue(1) in \<open>simp_all add: entitles_def\<close>)
qed

lemma updated_change:
  assumes inv: "db_inv d" and h: "handle_subscription_updated py_str now obj d = Inr d'"
  shows "account_change (catalogue_of d) ''customer.subscription.updated''
    (bg_accounts (billing_of d)) (bg_accounts (billing_of d'))"
proof -
  obtain sid customer where g: "py_get obj ''id'' = Inr sid" "py_get obj ''customer'' = Inr customer"
    using h unfolding handle_subscription_updated_def by (auto simp only: bind_res_Inr_iff)
  from h show ?thesis unfolding handle_subscription_updated_def g bind_res_simps
    by (rule found_cases) (auto simp only: bind_res_Inr_iff no_change
        intro!: save_change [OF inv], use plans_of_catalogue(2) in \<open>auto simp: entitles_def dest: status_of_range\<close>)
qed

lemma deleted_change:
  assumes inv: "db_inv d" and h: "handle_subscription_deleted py_str now obj d = Inr d'"
  shows "account_change (catalogue_of d) ''customer.subscription.deleted''
    (bg_accounts (billing_of d)) (bg_accounts (billing_of d'))"
proof -
  obtain sid customer where g: "py_get obj ''id'' = Inr sid" "py_get obj ''customer'' = Inr customer"
    using h unfolding handle_subscription_deleted_def by (auto simp only: bind_res_Inr_iff)
  from h show ?thesis unfolding handle_subscription_deleted_def g bind_res_simps
    by (rule found_cases) (simp add: no_change, erule save_change [OF inv],
        simp_all add: entitles_def plans_of_catalogue(3))
qed

lemma failed_change:
  assumes inv: "db_inv d" and h: "handle_invoice_payment_failed py_str now obj d = Inr d'"
  shows "account_change (catalogue_of d) ''invoice.payment_failed''
    (bg_accounts (billing_of d)) (bg_accounts (billing_of d'))"
proof -
  obtain sid customer where g: "py_get obj ''subscription'' = Inr sid"
      "py_get obj ''customer'' = Inr customer"
    using h unfolding handle_invoice_payment_failed_def by (auto simp only: bind_res_Inr_iff)
  from h show ?thesis unfolding handle_invoice_payment_failed_def g bind_res_simps
  proof (rule found_cases)
    fix sub assume "sub \<in> set (tb_rows (db_subs d))"
      and "Inr (d\<lparr>db_subs := tbl_update_where (\<lambda>x. s_id x = s_id sub)
             (\<lambda>x. x\<lparr>s_status := PAST_DUE, s_updated_at := now\<rparr>) (db_subs d)\<rparr>) = (Inr d' :: exn + db)"
    then show ?thesis
      by (intro update_change [OF inv, of sub "\<lambda>x. x\<lparr>s_status := PAST_DUE, s_updated_at := now\<rparr>"])
        (auto simp: entitles_def)
  qed (simp add: no_change)
qed

definition event_kind :: "json \<Rightarrow> string" where
  "event_kind event = (case py_get event ''type'' of Inr (JStr s) \<Rightarrow> s | _ \<Rightarrow> [])"

lemma event_change:
  assumes inv: "db_inv d" and h: "handle_event py_str now event d = Inr d'"
  shows "account_change (catalogue_of d) (event_kind event)
    (bg_accounts (billing_of d)) (bg_accounts (billing_of d'))"
proof -
  from h obtain ty hopt where ty: "py_get event ''type'' = Inr ty" "handler_for ty = Inr hopt"
    and rest: "(case hopt of None \<Rightarrow> Inr d | Some handler \<Rightarrow>
       bind_res (py_get event ''data'') (\<lambda>data.
       bind_res (py_get (json_or data (JObj [])) ''object'') (\<lambda>ob.
         handler py_str now (json_or ob (JObj [])) d))) = Inr d'"
    unfolding handle_event_def by (auto simp only: bind_res_Inr_iff)
  show ?thesis
  proof (cases hopt)
    case None
    with rest show ?thesis by (simp add: no_change)
  next
    case (Some hd)
    with rest obtain obj where "hd py_str now obj d = Inr d'"
      by (auto simp only: option.simps bind_res_Inr_iff)
    moreover from ty Some have "map_of HANDLERS (event_kind event) = Some hd"
      by (auto simp: handler_for_def event_kind_def split: if_splits json.splits)
    ultimately show ?thesis
      using checkout_change [OF inv] updated_change [OF inv] deleted_change [OF inv] failed_change [OF inv]
      by (auto simp: HANDLERS_def split: if_splits)
  qed
qed

subsection \<open>Every call is a step\<close>

definition agent_of :: "services \<Rightarrow> api_call \<Rightarrow> agent" where
  \<comment> \<open>Stripe speaks in a delivery whose signature verifies, and in nothing else\<close>
  "agent_of sv call =
     (case call of
        Webhook now payload sg \<Rightarrow>
          (case construct_event (sv_stripe_construct sv) (sv_webhook_secret sv) payload sg of
             Inl e \<Rightarrow> Application
           | Inr event \<Rightarrow>
               (case event_id event of
                  Inl e \<Rightarrow> Application
                | Inr v \<Rightarrow> (case col_text (sv_py_str sv) v of
                      None \<Rightarrow> Application | Some i \<Rightarrow> Stripe i (event_kind event))))
      | _ \<Rightarrow> Application)"

lemma webhook_agent:
  assumes "construct_event (sv_stripe_construct sv) (sv_webhook_secret sv) payload sg = Inr event"
    and "has_id (sv_py_str sv) event i"
  shows "agent_of sv (Webhook now payload sg) = Stripe i (event_kind event)"
  using assms by (auto simp: agent_of_def has_id_def)

lemma webhook_billing:
  assumes inv: "db_inv d"
  shows "billing_step (catalogue_of d) (agent_of sv (Webhook now payload sg)) (billing_of d)
    (billing_of (api_step sv (Webhook now payload sg) caller d))"
proof -
  obtain res d' where step: "webhook_post (sv_stripe_construct sv) (sv_webhook_secret sv) (sv_py_str sv)
      now payload sg d = (res, d')" by fastforce
  from step have "billing_step (catalogue_of d) (agent_of sv (Webhook now payload sg)) (billing_of d) (billing_of d')"
  proof (cases rule: webhook_cases)
    case (processed event i t)
    let ?d = "record_event now i t d"
    have "catalogue_of ?d = catalogue_of d" by (simp add: catalogue_of_def free_plan_def)
    then have change: "account_change (catalogue_of d) (event_kind event) (bg_accounts (billing_of d))
        (bg_accounts (billing_of d'))"
      using event_change [OF inv_record_event [OF inv processed(3)] processed(5)] by simp
    have "db_events d' = db_events ?d" using dispatcher.handle_frame [OF processed(5)] by simp
    then have seen: "bg_processed (billing_of d') = insert i (bg_processed (billing_of d))"
      by (simp add: record_event_def)
    show ?thesis unfolding webhook_agent [where now = now, OF processed(1,2)]
      by (rule hear [OF _ change]) (use processed(3) seen in \<open>simp_all add: processed_iff [symmetric] del: billing_of_simps\<close>)
  qed (simp_all add: idle)
  with step show ?thesis by simp
qed

lemma org_create_billing:
  assumes inv: "db_inv d"
  shows "billing_step (catalogue_of d) Application (billing_of d)
    (billing_of (snd (org_create sl now (\<lambda>_ x. x) body d u)))"
proof -
  have "billing_step (catalogue_of d) Application (billing_of d) (billing_of (with_new_org now user name slug d))"
    for user name slug
  proof -
    let ?k = "tb_next (db_orgs d)"
    have none: "\<forall>s \<in> set (tb_rows (db_subs d)). s_org s \<noteq> ?k"
      using fresh_org_key [OF db_invD(1) [OF inv]] db_invD(3) [OF inv] by (auto simp: refs_ok_def)
    show ?thesis
    proof (cases "free_plan d")
      case None
      then have "billing_of (with_new_org now user name slug d) = billing_of d"
        by (intro billing_frame) (simp_all add: with_new_org_def create_free_subscription_def free_plan_def)
      then show ?thesis by (simp add: idle)
    next
      case (Some free)
      then have "billing_of (with_new_org now user name slug d) =
          (billing_of d)\<lparr>bg_accounts := insert (?k, p_id free, ACTIVE) (bg_accounts (billing_of d))\<rparr>"
        using none sub_of_org_None [of ?k d]
        by (simp add: with_new_org_def create_free_subscription_def free_plan_def sub_of_org_def
            get_or_create_subscription_def new_subscription_def billing_of_def account_of_def Let_def)
      then show ?thesis
        by (intro open_account [of ?k _ _ "p_id free"]) (use none Some in \<open>auto simp: account_of_def catalogue_of_def\<close>)
    qed
  qed
  then show ?thesis using org_create_effect [OF inv, of sl now body u] by (auto intro: idle)
qed

lemma org_update_billing: "billing_of (snd (org_update raw body d u)) = billing_of d"
  using org_update_effect [of raw body d u] by (auto intro!: billing_frame)

lemma org_destroy_billing:
  "billing_step (catalogue_of d) Application (billing_of d) (billing_of (snd (org_destroy raw d u)))"
proof -
  have "billing_step (catalogue_of d) Application (billing_of d) (billing_of (organization_delete k d))" for k
    by (rule close_account [of _ _ k]) (auto simp: billing_of_def organization_delete_def account_of_def image_iff)
  then show ?thesis using org_destroy_effect [of raw d u] by (auto intro: idle)
qed

lemma member_billing: "billing_of (snd (member_action meth raw mraw body d caller)) = billing_of d"
  by (cases rule: member_cases [of meth raw mraw body d caller])
    (simp_all add: billing_of_def delete_member_row_def save_member_role_def)

lemma invite_billing: "billing_of (snd (invitation_create now days token raw body d caller)) = billing_of d"
  by (cases rule: invitation_create_cases [of now days token raw body d caller]) (simp_all add: billing_of_def)

lemma accept_billing:
  assumes "db_inv d"
  shows "billing_of (snd (invitation_accept now body d caller)) = billing_of d"
proof -
  have "tbl_unique i_token (db_invites d)" using assms by (simp add: db_inv_def unique_ok_def)
  then show ?thesis
    by (cases rule: accept_cases [of d now body caller])
      (auto simp: billing_of_def set_invite_status_def dest: get_or_create_member_spec)
qed

lemma project_billing: "billing_of (snd (project_step call u h d)) = billing_of d"
proof -
  obtain res d' where step: "project_step call u h d = (res, d')" by fastforce
  from step have "billing_of d' = billing_of d"
    by (cases rule: project_step_cases) (auto intro!: billing_frame)
  with step show ?thesis by simp
qed

lemma checkout_billing: "billing_of (snd (checkout_view st body d r)) = billing_of d"
proof -
  have "billing_of (d\<lparr>db_subs := tbl_update_where P (\<lambda>x. x\<lparr>s_stripe_customer_id := c\<rparr>) (db_subs d)\<rparr>) =
      billing_of d" for P c
    using update_image_key [of "db_subs d" P account_of "\<lambda>x. x\<lparr>s_stripe_customer_id := c\<rparr>"]
    by (simp add: billing_of_def account_of_def del: tbl_rows_simps)
  then show ?thesis
    using checkout_effect [OF prod.collapse [symmetric], of d st body r]
    by (auto simp: customer_effect_def)
qed

lemma api_refines_billing_step:
  assumes inv: "db_inv d" and jwt: "jwt_ok (sv_jwt_validate sv)"
  shows "billing_step (catalogue_of d) (agent_of sv call) (billing_of d) (billing_of (api_step sv call caller d))"
proof (cases "is_public call")
  case True
  from public_frame [OF True jwt, of d caller] have "billing_of (api_step sv call caller d) = billing_of d"
    by (auto simp: same_tenants_def intro: billing_frame)
  then show ?thesis by (simp add: idle)
next
  case False
  show ?thesis
  proof (cases call)
    case (Webhook now payload sg)
    with webhook_billing [OF inv] show ?thesis by blast
  qed (use False in \<open>simp_all add: agent_of_def idle inv org_create_billing org_update_billing org_destroy_billing
      member_billing invite_billing accept_billing project_billing checkout_billing\<close>)
qed

text \<open>C10. Refinement of the billing specification: whatever endpoint is called, by whom and with whatever
  input, what happens to plans, statuses and processed events is one step of the abstract system:
  an account opened on the Free plan or closed, or, if the call is a delivery whose signature
  verifies, Stripe's event, which changes at most one account, as its kind allows and once.\<close>

theorem api_refines_billing:
  assumes "api_ok d" and "jwt_ok (sv_jwt_validate sv)"
  shows "billing_step (catalogue_of d) (agent_of sv call) (billing_of d) (billing_of (api_step sv call caller d))"
  using assms by (intro api_refines_billing_step) (simp_all add: api_ok_def)

text \<open>C9. The webhook is the source of truth: an organization that has a subscription before and after a
  call and another plan or status afterwards was changed by a delivery whose signature verified, of
  an event that was not in the ledger and is now, and in a way the type of the event allows. No
  checkout, no success redirect, no other request of anybody does it.\<close>

theorem only_stripe_changes_plans:
  assumes ok: "api_ok d" and jwt: "jwt_ok (sv_jwt_validate sv)"
    and before: "sub_of_org k d = Some s" and after: "sub_of_org k (api_step sv call caller d) = Some s'"
    and changed: "(s_plan s', s_status s') \<noteq> (s_plan s, s_status s)"
  shows "\<exists>now payload sg event i. call = Webhook now payload sg \<and>
    construct_event (sv_stripe_construct sv) (sv_webhook_secret sv) payload sg = Inr event \<and>
    has_id (sv_py_str sv) event i \<and> \<not> recorded i d \<and> recorded i (api_step sv call caller d) \<and>
    entitles (catalogue_of d) (event_kind event) (s_plan s, s_status s) (s_plan s', s_status s')"
proof -
  let ?d = "api_step sv call caller d"
  have inv: "db_inv d" using ok by (simp add: api_ok_def)
  note step = api_refines_billing_step [OF inv jwt, of call caller]
  note one = one_account_of [OF inv]
  note accounts = sub_of_org_account [OF before] sub_of_org_account [OF after]
  show ?thesis
  proof (cases "agent_of sv call")
    case Application
    with step application_keeps [OF _ one accounts] changed show ?thesis by simp
  next
    case (Stripe i ty)
    then obtain now payload sg event where c: "call = Webhook now payload sg"
      "construct_event (sv_stripe_construct sv) (sv_webhook_secret sv) payload sg = Inr event"
      "has_id (sv_py_str sv) event i" "ty = event_kind event"
      by (auto simp: agent_of_def has_id_def split: api_call.splits sum.splits option.splits)
    from stripe_changes [OF step [unfolded Stripe] one accounts] changed
    have "\<not> recorded i d \<and> recorded i ?d \<and>
        entitles (catalogue_of d) ty (s_plan s, s_status s) (s_plan s', s_status s')"
      unfolding processed_iff by auto
    with c show ?thesis by blast
  qed
qed

theorem api_refines_billing_witness:
  "billing_step (catalogue_of demo_db) (Stripe ''evt_1'' ''customer.subscription.updated'') (billing_of demo_db)
     (billing_of (api_step demo_services (Webhook 7 [] ''good'') None demo_db))"
proof -
  have "agent_of demo_services (Webhook 7 [] ''good'') = Stripe ''evt_1'' ''customer.subscription.updated''"
    by code_simp
  with api_refines_billing [OF demo_api_ok demo_jwt_ok, of "Webhook 7 [] ''good''" None] show ?thesis by simp
qed

theorem only_stripe_changes_plans_witness:
  "\<exists>event. construct_event demo_stripe ''whsec'' [] ''good'' = Inr event \<and> \<not> recorded ''evt_1'' demo_db \<and>
     entitles (catalogue_of demo_db) (event_kind event) (1, ACTIVE) (2, ACTIVE)"
proof -
  let ?d = "api_step demo_services (Webhook 7 [] ''good'') None demo_db"
  have "map_option (\<lambda>s. (s_plan s, s_status s)) (sub_of_org 2 ?d) = Some (2, ACTIVE)"
    "sub_of_org 2 demo_db = Some (demo_sub 2 2 1 [] [])" "\<not> recorded ''evt_1'' demo_db"
    by code_simp+
  then obtain s' where s': "sub_of_org 2 ?d = Some s'" "s_plan s' = 2" "s_status s' = ACTIVE"
    and s: "sub_of_org 2 demo_db = Some (demo_sub 2 2 1 [] [])" and new: "\<not> recorded ''evt_1'' demo_db" by auto
  have old: "s_plan (demo_sub 2 2 1 [] []) = 1" "s_status (demo_sub 2 2 1 [] []) = ACTIVE"
    by (simp_all add: demo_sub_def)
  from only_stripe_changes_plans [OF demo_api_ok demo_jwt_ok s s'(1)] s'(2,3) old new
  show ?thesis by (auto simp: demo_services_def)
qed

end
