(* ===== verification/Seeding.thy ===== *)
theory Seeding
  imports Lifecycle
begin

section \<open>Seeding (seed_plans.py, seed_demo.py, the data migrations)\<close>

text \<open>
  The plan catalogue is written by \<open>update_or_create_plan\<close>: \<open>plan_seeded\<close> is its fixed point, so the
  command and the migration are idempotent. \<open>seed_demo\<close> is the demo command, one operation per
  \<open>get_or_create\<close>; \<open>demo_ready\<close> is what a run establishes, and a run on a database that has it
  changes the demo passwords only.
\<close>

subsection \<open>The plan catalogue\<close>

definition plan_seeded :: "string \<Rightarrow> string \<Rightarrow> (string \<times> int option) list \<Rightarrow> string \<Rightarrow> db \<Rightarrow> bool" where
  "plan_seeded code name limits price d \<longleftrightarrow>
     tbl_exists (\<lambda>p. p_code p = code) (db_plans d) \<and>
     (\<forall>p \<in> set (tb_rows (db_plans d)). p_code p = code \<longrightarrow>
        p_name p = name \<and> p_limits p = limits \<and> p_is_active p \<and>
        (truthy price \<longrightarrow> p_stripe_price_id p = price))"

lemma update_or_create_seeds:
  "plan_seeded code name limits price (update_or_create_plan code name limits price d)"
proof (cases "tbl_exists (\<lambda>p. p_code p = code) (db_plans d)")
  case True
  then show ?thesis
    by (simp add: plan_seeded_def update_or_create_plan_def tbl_exists_iff bex_Un) auto
next
  case False
  then show ?thesis by (auto simp: plan_seeded_def update_or_create_plan_def tbl_exists_iff)
qed

lemma update_or_create_other:
  "plan_seeded code name limits price d \<Longrightarrow> code' \<noteq> code \<Longrightarrow>
   plan_seeded code name limits price (update_or_create_plan code' name' limits' price' d)"
  by (fastforce simp: plan_seeded_def update_or_create_plan_def tbl_exists_iff)

lemma update_or_create_fixed:
  assumes "plan_seeded code name limits price d"
  shows "update_or_create_plan code name limits price d = d"
proof -
  have "(if p_code p = code then p\<lparr>p_name := name, p_limits := limits, p_is_active := True,
      p_stripe_price_id := (if truthy price then price else p_stripe_price_id p)\<rparr> else p) = p"
    if "p \<in> set (tb_rows (db_plans d))" for p
    using assms that by (cases p) (auto simp: plan_seeded_def)
  then have "map (\<lambda>p. if p_code p = code then p\<lparr>p_name := name, p_limits := limits,
      p_is_active := True, p_stripe_price_id := (if truthy price then price else p_stripe_price_id p)\<rparr>
      else p) (tb_rows (db_plans d)) = tb_rows (db_plans d)"
    by (simp add: map_idI)
  then show ?thesis
    using assms by (simp add: update_or_create_plan_def plan_seeded_def tbl_update_where_def)
qed

lemma fold_plans_frame:
  "keys_ok d \<Longrightarrow> keys_ok (update_or_create_plan code name limits price d)"
  "db_orgs (update_or_create_plan code name limits price d) = db_orgs d"
  "db_users (update_or_create_plan code name limits price d) = db_users d"
  "db_members (update_or_create_plan code name limits price d) = db_members d"
  "db_projects (update_or_create_plan code name limits price d) = db_projects d"
  by (auto simp: update_or_create_plan_def keys_ok_def intro!: plan_t.wf_update)

definition plan_price :: "(string \<Rightarrow> string) \<Rightarrow> string \<Rightarrow> string" where
  "plan_price setting code = (case map_of PRICE_ENV code of Some v \<Rightarrow> setting v | None \<Rightarrow> [])"

definition catalogue_seeded :: "(string \<Rightarrow> string) \<Rightarrow> db \<Rightarrow> bool" where
  "catalogue_seeded setting d \<longleftrightarrow>
     (\<forall>(code, name, limits) \<in> set DEFAULT_PLANS.
        plan_seeded code name limits (plan_price setting code) d)"

lemma seed_plans_seeds: "catalogue_seeded setting (seed_plans_command setting d)"
  unfolding catalogue_seeded_def seed_plans_command_def DEFAULT_PLANS_def plan_price_def
  by (simp add: update_or_create_seeds update_or_create_other)

lemma seed_plans_fixed:
  "catalogue_seeded setting d \<Longrightarrow> seed_plans_command setting d = d"
  unfolding catalogue_seeded_def seed_plans_command_def DEFAULT_PLANS_def plan_price_def
  by (simp add: update_or_create_fixed)

lemma migration_is_command: "seed_plans_migration d = seed_plans_command (\<lambda>_. []) d"
  by (simp add: seed_plans_migration_eq seed_plans_command_def DEFAULT_PLANS_def PRICE_ENV_def)

text \<open>The plan catalogue: after \<open>seed_plans\<close> (and the migration, which is the command without
  prices) every default plan exists with its limits, active, with the configured price where there
  is one. Running it again changes nothing, and no subscription is touched.\<close>

theorem seed_plans_idempotent:
  "(let d' = seed_plans_command setting d
    in seed_plans_command setting d' = d' \<and> db_subs d' = db_subs d \<and>
       catalogue_seeded setting d') \<and>
   (let d' = seed_plans_migration d in seed_plans_migration d' = d')"
proof -
  have "db_subs (update_or_create_plan code name limits price d) = db_subs d" for code name limits price d
    by (simp add: update_or_create_plan_def)
  then have "db_subs (seed_plans_command setting d) = db_subs d"
    by (simp add: seed_plans_command_def DEFAULT_PLANS_def)
  then show ?thesis
    using seed_plans_seeds [of setting d] seed_plans_fixed seed_plans_seeds [of "\<lambda>_. []" d]
    by (simp add: Let_def migration_is_command)
qed

text \<open>The seeding migration cannot be reversed once it is used: with one subscription to a default
  plan (every organization has one) the reverse step raises and deletes nothing.\<close>

theorem unseed_blocked:
  assumes "p \<in> set (tb_rows (db_plans d))" "p_code p \<in> fst ` set MIGRATION_PLANS"
    and "s \<in> set (tb_rows (db_subs d))" "s_plan s = p_id p"
  shows "unseed_plans_migration d = Inl ProtectedError"
  using assms by (auto simp: unseed_plans_migration_def tbl_exists_iff tbl_filter_def Let_def)

theorem unseed_blocked_witness: "unseed_plans_migration demo_db = Inl ProtectedError"
proof -
  have rows: "demo_plan 2 ''pro'' ''Pro'' (Some 25) (Some 10) ''price_pro'' \<in> set (tb_rows (db_plans demo_db))"
    "demo_sub 1 1 2 ''cus_1'' ''sub_1'' \<in> set (tb_rows (db_subs demo_db))"
    by (simp_all add: demo_db_def)
  show ?thesis
    by (rule unseed_blocked [OF rows(1) _ rows(2)])
      (simp_all add: demo_plan_def demo_sub_def MIGRATION_PLANS_def)
qed

lemma find_map_same: "(\<And>x. P (f x) = P x) \<Longrightarrow> find P (map f xs) = map_option f (find P xs)"
  by (induction xs) auto

lemma first_update:
  "(\<And>x. Q (f x) = Q x) \<Longrightarrow>
   tbl_first Q (tbl_update_where P f t) = map_option (\<lambda>x. if P x then f x else x) (tbl_first Q t)"
  unfolding tbl_first_def tbl_rows_simps by (rule find_map_same) simp

lemma find_append: "find P (xs @ ys) = (case find P xs of None \<Rightarrow> find P ys | Some x \<Rightarrow> Some x)"
  by (induction xs) auto

lemma first_insert:
  "tbl_first P (tbl_insert f r t) =
    (case tbl_first P t of None \<Rightarrow> if P (f (tb_next t) r) then Some (f (tb_next t) r) else None
     | Some x \<Rightarrow> Some x)"
  by (simp add: tbl_first_def find_append split: option.split)

subsection \<open>The backfill\<close>

lemma get_or_create_subscription_found:
  "sub_of_org k (get_or_create_subscription now k f d) \<noteq> None"
  "sub_of_org j d = Some s \<Longrightarrow> sub_of_org j (get_or_create_subscription now k f d) = Some s"
  "\<exists>new. tb_rows (db_subs (get_or_create_subscription now k f d)) = tb_rows (db_subs d) @ new \<and>
     (\<forall>s \<in> set new. s_plan s = f)"
  by (auto simp: get_or_create_subscription_def sub_of_org_def first_insert new_subscription_def
      split: option.splits)

lemma backfill_fold:
  "(\<forall>org \<in> set os. sub_of_org (o_id org)
      (fold (\<lambda>org. get_or_create_subscription now (o_id org) f) os d) \<noteq> None) \<and>
   (\<forall>k s. sub_of_org k d = Some s \<longrightarrow>
      sub_of_org k (fold (\<lambda>org. get_or_create_subscription now (o_id org) f) os d) = Some s) \<and>
   (\<exists>new. tb_rows (db_subs (fold (\<lambda>org. get_or_create_subscription now (o_id org) f) os d)) =
      tb_rows (db_subs d) @ new \<and> (\<forall>s \<in> set new. s_plan s = f)) \<and>
   db_orgs (fold (\<lambda>org. get_or_create_subscription now (o_id org) f) os d) = db_orgs d \<and>
   db_plans (fold (\<lambda>org. get_or_create_subscription now (o_id org) f) os d) = db_plans d"
proof (induction os arbitrary: d)
  case (Cons org os)
  let ?d = "get_or_create_subscription now (o_id org) f d"
  obtain new where new: "tb_rows (db_subs ?d) = tb_rows (db_subs d) @ new" "\<forall>s \<in> set new. s_plan s = f"
    using get_or_create_subscription_found(3) [of now "o_id org" f d] by blast
  obtain s where "sub_of_org (o_id org) ?d = Some s"
    using get_or_create_subscription_found(1) [of "o_id org" now f d] by blast
  moreover obtain new' where
    "tb_rows (db_subs (fold (\<lambda>org. get_or_create_subscription now (o_id org) f) os ?d)) =
      tb_rows (db_subs ?d) @ new'" "\<forall>s \<in> set new'. s_plan s = f"
    using Cons.IH [of ?d] by blast
  then have "tb_rows (db_subs (fold (\<lambda>org. get_or_create_subscription now (o_id org) f) os ?d)) =
      tb_rows (db_subs d) @ (new @ new') \<and> (\<forall>s \<in> set (new @ new'). s_plan s = f)"
    using new by auto
  then have "\<exists>extra. tb_rows (db_subs (fold (\<lambda>org. get_or_create_subscription now (o_id org) f) os ?d)) =
      tb_rows (db_subs d) @ extra \<and> (\<forall>s \<in> set extra. s_plan s = f)" by blast
  ultimately show ?case
    using Cons.IH [of ?d] get_or_create_subscription_found(2) [of _ d] by simp
qed simp

text \<open>The backfill migration: with a Free plan, afterwards every organization has a subscription;
  one that had a subscription keeps it, the added ones are all to the Free plan, and running it
  again (at any time) changes nothing. Without a Free plan it does nothing.\<close>

theorem backfill_spec:
  "case free_plan d of
     None \<Rightarrow> backfill now d = d
   | Some free \<Rightarrow>
       (let d' = backfill now d in
         (\<forall>org \<in> set (tb_rows (db_orgs d')). sub_of_org (o_id org) d' \<noteq> None) \<and>
         (\<forall>k s. sub_of_org k d = Some s \<longrightarrow> sub_of_org k d' = Some s) \<and>
         (\<exists>new. tb_rows (db_subs d') = tb_rows (db_subs d) @ new \<and> (\<forall>s \<in> set new. s_plan s = p_id free)) \<and>
         backfill later d' = d')"
proof (cases "free_plan d")
  case None
  then show ?thesis by (simp add: backfill_def free_plan_def FREE_PLAN_CODE_def)
next
  case (Some free)
  let ?os = "tbl_filter (\<lambda>org. sub_of_org (o_id org) d = None) (db_orgs d)"
  let ?d = "fold (\<lambda>org. get_or_create_subscription now (o_id org) (p_id free)) ?os d"
  have eq: "backfill now d = ?d"
    using Some by (simp add: backfill_def free_plan_def FREE_PLAN_CODE_def)
  note f = backfill_fold [of ?os now "p_id free" d]
  have all: "sub_of_org (o_id org) ?d \<noteq> None" if "org \<in> set (tb_rows (db_orgs d))" for org
    using f that by (cases "sub_of_org (o_id org) d") (auto simp: tbl_filter_def)
  have again: "backfill later ?d = ?d"
  proof -
    have "tbl_filter (\<lambda>org. sub_of_org (o_id org) ?d = None) (db_orgs ?d) = []"
      using all f by (auto simp: tbl_filter_def filter_empty_conv)
    then show ?thesis by (simp add: backfill_def split: option.split)
  qed
  show ?thesis unfolding Some option.case eq Let_def
    using all f again by (intro conjI) auto
qed

theorem backfill_spec_witness:
  "sub_of_org 1 (demo_db\<lparr>db_subs := tbl_empty\<rparr>) = None \<and>
   sub_of_org 1 (backfill 5 (demo_db\<lparr>db_subs := tbl_empty\<rparr>)) \<noteq> None"
proof -
  let ?d = "demo_db\<lparr>db_subs := tbl_empty\<rparr>"
  have "free_plan ?d = Some (demo_plan 1 ''free'' ''Free'' (Some 3) (Some 3) [])"
    "sub_of_org 1 ?d = None" "acme \<in> set (tb_rows (db_orgs (backfill 5 ?d)))"
    by code_simp+
  moreover have "o_id acme = 1" by (simp add: acme_def)
  ultimately show ?thesis
    using backfill_spec [where d = ?d and now = 5 and later = 9] by (auto simp: Let_def)
qed

subsection \<open>The demo data\<close>

definition DEMO_USERS :: "(string \<times> string \<times> string) list" where
  "DEMO_USERS = [(''owner@acme.test'', ''Olivia Owner'', OWNER), (''admin@acme.test'', ''Adam Admin'', ADMIN),
     (''member@acme.test'', ''Mia Member'', MEMBER)]"

definition DEMO_PROJECTS :: "string list" where
  "DEMO_PROJECTS = [''Website Redesign'', ''Mobile App'']"

definition py_partition :: "string \<Rightarrow> string \<times> string" where
  \<comment> \<open>first and last part of \<open>name.partition(" ")\<close>\<close>
  "py_partition name =
     (takeWhile (\<lambda>c. c \<noteq> CHR '' '') name, drop 1 (dropWhile (\<lambda>c. c \<noteq> CHR '' '') name))"

definition get_or_create_org :: "time \<Rightarrow> string \<Rightarrow> string \<Rightarrow> db \<Rightarrow> organization outcome" where
  \<comment> \<open>with the \<open>post_save\<close> receiver\<close>
  "get_or_create_org now slug name d =
     (case tbl_first (\<lambda>x. o_slug x = slug) (db_orgs d) of
        Some org \<Rightarrow> (Inr org, d)
      | None \<Rightarrow>
          (case organization_insert \<lparr>o_id = 0, o_name = name, o_slug = slug, o_created_by = None,
                  o_created_at = now\<rparr> d of
             Inl e \<Rightarrow> (Inl e, d)
           | Inr (org, d') \<Rightarrow> (Inr org, create_free_subscription True now (o_id org) d')))"

definition get_or_create_user :: "time \<Rightarrow> string \<Rightarrow> string \<Rightarrow> db \<Rightarrow> user outcome" where
  "get_or_create_user now email name d =
     (case tbl_first (\<lambda>x. u_email x = email) (db_users d) of
        Some u \<Rightarrow> (Inr u, d)
      | None \<Rightarrow>
          (case user_insert \<lparr>u_id = 0, u_password = [], u_last_login = None, u_is_superuser = False,
                  u_first_name = fst (py_partition name), u_last_name = snd (py_partition name),
                  u_is_staff = False, u_is_active = True, u_date_joined = now, u_email = email,
                  u_is_email_verified = True\<rparr> d of
             Inl e \<Rightarrow> (Inl e, d)
           | Inr (u, d') \<Rightarrow> (Inr u, d')))"

definition reset_demo_user :: "string \<Rightarrow> user \<Rightarrow> db \<Rightarrow> exn + db" where
  \<comment> \<open>\<open>set_password\<close>, \<open>is_email_verified = True\<close> and \<open>save()\<close>\<close>
  "reset_demo_user hash u d =
     bind_res (char_field 128 hash) (\<lambda>_.
       Inr (d\<lparr>db_users := tbl_update_where (\<lambda>x. u_id x = u_id u)
         (\<lambda>x. x\<lparr>u_password := hash, u_is_email_verified := True\<rparr>) (db_users d)\<rparr>))"

fun seed_users ::
  "time \<Rightarrow> (string \<Rightarrow> string) \<Rightarrow> key \<Rightarrow> (string \<times> string \<times> string) list \<Rightarrow> db \<Rightarrow>
   (string \<times> user) list outcome" where
  \<comment> \<open>\<open>hashes email\<close>: this run's hash of the demo password for that user; the dict \<open>users\<close> by role\<close>
  "seed_users now hashes org [] d = (Inr [], d)"
| "seed_users now hashes org ((email, name, role) # us) d =
     (case get_or_create_user now email name d of
        (Inl e, d1) \<Rightarrow> (Inl e, d1)
      | (Inr u, d1) \<Rightarrow>
          (case reset_demo_user (hashes email) u d1 of
             Inl e \<Rightarrow> (Inl e, d1)
           | Inr d2 \<Rightarrow>
               (case seed_users now hashes org us (snd (get_or_create_member now (u_id u) org role d2)) of
                  (Inl e, d3) \<Rightarrow> (Inl e, d3)
                | (Inr users, d3) \<Rightarrow> (Inr ((role, u) # users), d3))))"

definition claim_org :: "key \<Rightarrow> key \<Rightarrow> db \<Rightarrow> db" where
  \<comment> \<open>\<open>created_by\<close> if nobody is named\<close>
  "claim_org org owner d =
     d\<lparr>db_orgs := tbl_update_where (\<lambda>x. o_id x = org \<and> o_created_by x = None)
        (\<lambda>x. x\<lparr>o_created_by := Some owner\<rparr>) (db_orgs d)\<rparr>"

fun seed_projects :: "time \<Rightarrow> key \<Rightarrow> key \<Rightarrow> string list \<Rightarrow> db \<Rightarrow> unit outcome" where
  "seed_projects now org owner [] d = (Inr (), d)"
| "seed_projects now org owner (name # names) d =
     (case tbl_filter (\<lambda>p. pr_org p = org \<and> pr_name p = name) (db_projects d) of
        [p] \<Rightarrow> seed_projects now org owner names d
      | [] \<Rightarrow>
          (case project_insert \<lparr>pr_id = 0, pr_org = org, pr_name = name,
                  pr_description = ''Demo project.'', pr_created_by = Some owner,
                  pr_created_at = now\<rparr> d of
             Inl e \<Rightarrow> (Inl e, d)
           | Inr (p, d') \<Rightarrow> seed_projects now org owner names d')
      | _ \<Rightarrow> (Inl MultipleObjectsReturned, d))"

definition seed_demo ::
  "(string \<Rightarrow> string) \<Rightarrow> time \<Rightarrow> (string \<Rightarrow> string) \<Rightarrow> db \<Rightarrow> organization outcome" where
  "seed_demo setting now hashes =
     atomic (\<lambda>d.
       (case get_or_create_org now ''acme-inc'' ''Acme Inc'' (seed_plans_command setting d) of
          (Inl e, d1) \<Rightarrow> (Inl e, d1)
        | (Inr org, d1) \<Rightarrow>
            (case seed_users now hashes (o_id org) DEMO_USERS d1 of
               (Inl e, d2) \<Rightarrow> (Inl e, d2)
             | (Inr users, d2) \<Rightarrow>
                 (case map_of users OWNER of
                    None \<Rightarrow> (Inl PyKeyError, d2)
                  | Some owner \<Rightarrow>
                      (case seed_projects now (o_id org) (u_id owner) DEMO_PROJECTS
                              (claim_org (o_id org) (u_id owner) d2) of
                         (Inl e, d3) \<Rightarrow> (Inl e, d3)
                       | (Inr _, d3) \<Rightarrow> (Inr org, d3))))))"


subsection \<open>What a run of the demo command establishes\<close>

definition blank_passwords :: "db \<Rightarrow> db" where
  "blank_passwords d =
     d\<lparr>db_users := tbl_update_where (\<lambda>_. True) (\<lambda>u. u\<lparr>u_password := []\<rparr>) (db_users d)\<rparr>"

definition user_ready :: "key \<Rightarrow> string \<Rightarrow> db \<Rightarrow> bool" where
  "user_ready k email d \<longleftrightarrow>
     (case tbl_first (\<lambda>x. u_email x = email) (db_users d) of
        None \<Rightarrow> False
      | Some u \<Rightarrow>
          (\<forall>x \<in> set (tb_rows (db_users d)). u_id x = u_id u \<longrightarrow> u_is_email_verified x) \<and>
          find_membership (u_id u) k d \<noteq> None)"

definition project_ready :: "key \<Rightarrow> string \<Rightarrow> db \<Rightarrow> bool" where
  "project_ready k name d \<longleftrightarrow>
     length (tbl_filter (\<lambda>p. pr_org p = k \<and> pr_name p = name) (db_projects d)) = 1"

definition org_ready :: "key \<Rightarrow> db \<Rightarrow> bool" where
  "org_ready k d \<longleftrightarrow>
     map_option o_id (tbl_first (\<lambda>x. o_slug x = ''acme-inc'') (db_orgs d)) = Some k \<and>
     (\<forall>x \<in> set (tb_rows (db_orgs d)). o_id x = k \<longrightarrow> o_created_by x \<noteq> None)"

definition demo_ready :: "(string \<Rightarrow> string) \<Rightarrow> key \<Rightarrow> db \<Rightarrow> bool" where
  "demo_ready setting k d \<longleftrightarrow> catalogue_seeded setting d \<and> org_ready k d \<and>
     (\<forall>(email, name, role) \<in> set DEMO_USERS. user_ready k email d) \<and>
     (\<forall>name \<in> set DEMO_PROJECTS. project_ready k name d)"

subsection \<open>A second run\<close>

lemma blank_frame:
  assumes "blank_passwords d = blank_passwords e"
  shows "db_orgs d = db_orgs e" "db_members d = db_members e" "db_plans d = db_plans e"
    "db_projects d = db_projects e"
    "map (\<lambda>u. u\<lparr>u_password := []\<rparr>) (tb_rows (db_users d)) =
     map (\<lambda>u. u\<lparr>u_password := []\<rparr>) (tb_rows (db_users e))"
proof -
  have "db_orgs (blank_passwords d) = db_orgs (blank_passwords e)"
    "db_members (blank_passwords d) = db_members (blank_passwords e)"
    "db_plans (blank_passwords d) = db_plans (blank_passwords e)"
    "db_projects (blank_passwords d) = db_projects (blank_passwords e)"
    "tb_rows (db_users (blank_passwords d)) = tb_rows (db_users (blank_passwords e))"
    by (simp_all add: assms)
  then show "db_orgs d = db_orgs e" "db_members d = db_members e" "db_plans d = db_plans e"
    "db_projects d = db_projects e"
    "map (\<lambda>u. u\<lparr>u_password := []\<rparr>) (tb_rows (db_users d)) =
     map (\<lambda>u. u\<lparr>u_password := []\<rparr>) (tb_rows (db_users e))"
    by (simp_all add: blank_passwords_def)
qed

lemma user_ready_blank: "user_ready k email (blank_passwords d) = user_ready k email d"
proof -
  have "tbl_first (\<lambda>x. u_email x = email) (db_users (blank_passwords d)) =
      map_option (\<lambda>u. u\<lparr>u_password := []\<rparr>) (tbl_first (\<lambda>x. u_email x = email) (db_users d))"
    by (simp add: blank_passwords_def first_update)
  moreover have "find_membership u k (blank_passwords d) = find_membership u k d" for u
    by (simp add: find_membership_def blank_passwords_def)
  moreover have "set (tb_rows (db_users (blank_passwords d))) =
      (\<lambda>u. u\<lparr>u_password := []\<rparr>) ` set (tb_rows (db_users d))"
    by (simp add: blank_passwords_def)
  ultimately show ?thesis
    by (simp add: user_ready_def split: option.split)
qed

lemma seed_users_again:
  assumes "\<forall>(email, name, role) \<in> set us. user_ready k email d" "\<forall>e. length (hashes e) \<le> 128"
  shows "\<exists>users d'. seed_users now hashes k us d = (Inr users, d') \<and>
    map fst users = map (snd \<circ> snd) us \<and> blank_passwords d' = blank_passwords d"
  using assms(1)
proof (induction us arbitrary: d)
  case (Cons a us)
  obtain email name role where a: "a = (email, name, role)" by (cases a)
  with Cons.prems have "user_ready k email d" by simp
  then obtain u m where u: "tbl_first (\<lambda>x. u_email x = email) (db_users d) = Some u"
    "\<forall>x \<in> set (tb_rows (db_users d)). u_id x = u_id u \<longrightarrow> u_is_email_verified x"
    "find_membership (u_id u) k d = Some m"
    by (auto simp: user_ready_def split: option.splits)
  let ?d = "d\<lparr>db_users := tbl_update_where (\<lambda>x. u_id x = u_id u)
         (\<lambda>x. x\<lparr>u_password := hashes email, u_is_email_verified := True\<rparr>) (db_users d)\<rparr>"
  have "map ((\<lambda>x. x\<lparr>u_password := []\<rparr>) \<circ> (\<lambda>x. if u_id x = u_id u
      then x\<lparr>u_password := hashes email, u_is_email_verified := True\<rparr> else x))
      (tb_rows (db_users d)) = map (\<lambda>x. x\<lparr>u_password := []\<rparr>) (tb_rows (db_users d))"
    using u(2) by auto
  then have blank: "blank_passwords ?d = blank_passwords d"
    by (simp add: blank_passwords_def tbl_update_where_def)
  have "find_membership (u_id u) k ?d = Some m" using u(3) by (simp add: find_membership_def)
  then have member: "get_or_create_member now (u_id u) k role ?d = (m, ?d)"
    by (simp add: get_or_create_member_def)
  have "\<forall>(email, name, role) \<in> set us. user_ready k email ?d"
    using Cons.prems blank user_ready_blank by (metis (no_types, lifting) case_prod_beta list.set_intros(2))
  from Cons.IH [OF this] obtain users d' where "seed_users now hashes k us ?d = (Inr users, d')"
    "map fst users = map (snd \<circ> snd) us" "blank_passwords d' = blank_passwords ?d" by blast
  with u(1) member blank assms(2) show ?case
    by (simp add: a get_or_create_user_def reset_demo_user_def char_field_def guard_simps not_less)
qed simp

lemma claim_org_again: "org_ready k d \<Longrightarrow> claim_org k owner d = d"
proof -
  assume "org_ready k d"
  then have "map (\<lambda>x. if o_id x = k \<and> o_created_by x = None then x\<lparr>o_created_by := Some owner\<rparr> else x)
      (tb_rows (db_orgs d)) = tb_rows (db_orgs d)"
    by (intro map_idI) (auto simp: org_ready_def)
  then show ?thesis by (simp add: claim_org_def tbl_update_where_def)
qed

lemma seed_projects_again:
  "\<forall>name \<in> set names. project_ready k name d \<Longrightarrow> seed_projects now k owner names d = (Inr (), d)"
  by (induction names) (auto simp: project_ready_def length_Suc_conv)

lemma seed_accounts_again:
  assumes ready: "catalogue_seeded setting d" "org_ready k d"
      "\<forall>(email, name, role) \<in> set DEMO_USERS. user_ready k email d"
    and hashes: "\<forall>e. length (hashes e) \<le> 128"
  shows "\<exists>org users owner d'.
    get_or_create_org now ''acme-inc'' ''Acme Inc'' (seed_plans_command setting d) = (Inr org, d) \<and>
    o_id org = k \<and> seed_users now hashes k DEMO_USERS d = (Inr users, d') \<and>
    map_of users OWNER = Some owner \<and> blank_passwords d' = blank_passwords d \<and>
    claim_org k (u_id owner) d' = d'"
proof -
  obtain org where org: "tbl_first (\<lambda>x. o_slug x = ''acme-inc'') (db_orgs d) = Some org" "o_id org = k"
    using ready(2) by (auto simp: org_ready_def)
  obtain users d' where users: "seed_users now hashes k DEMO_USERS d = (Inr users, d')"
    "map fst users = map (snd \<circ> snd) DEMO_USERS" "blank_passwords d' = blank_passwords d"
    using seed_users_again [of DEMO_USERS k d hashes now] ready(3) hashes by blast
  have "OWNER \<in> fst ` set users"
    using arg_cong [OF users(2), of set] by (simp add: DEMO_USERS_def)
  then obtain owner where owner: "map_of users OWNER = Some owner"
    by (metis (no_types, lifting) map_of_eq_None_iff not_None_eq)
  have "org_ready k d'" using ready(2) blank_frame [OF users(3)] by (simp add: org_ready_def)
  then have "claim_org k (u_id owner) d' = d'" by (rule claim_org_again)
  with org users owner ready(1) show ?thesis
    by (simp add: get_or_create_org_def seed_plans_fixed)
qed

lemma seed_demo_again:
  assumes ready: "demo_ready setting k d" and hashes: "\<forall>e. length (hashes e) \<le> 128"
  shows "\<exists>org d'. seed_demo setting now hashes d = (Inr org, d') \<and> o_id org = k \<and>
    blank_passwords d' = blank_passwords d"
proof -
  from seed_accounts_again [of setting d k hashes now] ready hashes
  obtain org users owner d' where run:
    "get_or_create_org now ''acme-inc'' ''Acme Inc'' (seed_plans_command setting d) = (Inr org, d)"
    "o_id org = k" "seed_users now hashes k DEMO_USERS d = (Inr users, d')"
    "map_of users OWNER = Some owner" "blank_passwords d' = blank_passwords d"
    "claim_org k (u_id owner) d' = d'"
    unfolding demo_ready_def by blast
  have "\<forall>name \<in> set DEMO_PROJECTS. project_ready k name d'"
    using ready blank_frame(4) [OF run(5)] by (simp add: demo_ready_def project_ready_def)
  from seed_projects_again [OF this] run show ?thesis
    by (simp add: seed_demo_def atomic_def)
qed

subsection \<open>A first run\<close>

lemma get_or_create_user_found:
  assumes "get_or_create_user now email name d = (Inr u, d')"
  shows "tbl_first (\<lambda>x. u_email x = email) (db_users d') = Some u \<and>
    (\<forall>P x. tbl_first P (db_users d) = Some x \<longrightarrow> tbl_first P (db_users d') = Some x) \<and>
    (\<exists>extra. tb_rows (db_users d') = tb_rows (db_users d) @ extra \<and>
       (\<forall>x \<in> set extra. u_is_email_verified x)) \<and>
    db_orgs d' = db_orgs d \<and> db_members d' = db_members d \<and> db_plans d' = db_plans d \<and>
    db_projects d' = db_projects d"
proof (cases "tbl_first (\<lambda>x. u_email x = email) (db_users d)")
  case None
  let ?u = "\<lparr>u_id = 0, u_password = [], u_last_login = None, u_is_superuser = False,
    u_first_name = fst (py_partition name), u_last_name = snd (py_partition name),
    u_is_staff = False, u_is_active = True, u_date_joined = now, u_email = email,
    u_is_email_verified = True\<rparr>"
  have ins: "user_insert ?u d = Inr (u, d')"
    using assms None by (auto simp: get_or_create_user_def split: sum.splits)
  then have "d' = d\<lparr>db_users := tbl_insert set_u_id ?u (db_users d)\<rparr>"
    "u = set_u_id (tb_next (db_users d)) ?u"
    unfolding user_insert_Inr by blast+
  with None show ?thesis by (auto simp: first_insert)
next
  case (Some x)
  with assms show ?thesis by (auto simp: get_or_create_user_def)
qed

lemma get_or_create_member_found:
  assumes "get_or_create_member now u k role d = (m, d')"
  shows "find_membership u k d' \<noteq> None \<and>
    (\<forall>v j. find_membership v j d \<noteq> None \<longrightarrow> find_membership v j d' \<noteq> None) \<and>
    d' = d\<lparr>db_members := db_members d'\<rparr>"
  using assms
  by (auto simp: get_or_create_member_def find_membership_def first_insert Let_def split: option.splits)

text \<open>One round of the user loop: the user it names is ready after it, and a ready user stays so.\<close>

lemma seed_user_step:
  assumes g: "get_or_create_user now email name d = (Inr u, d1)"
    and r: "reset_demo_user hash u d1 = Inr d2"
    and m: "get_or_create_member now (u_id u) k role d2 = (m, d3)"
  shows "user_ready k email d3" "user_ready k e d \<Longrightarrow> user_ready k e d3"
    "db_orgs d3 = db_orgs d" "db_plans d3 = db_plans d" "db_projects d3 = db_projects d"
proof -
  note g' = get_or_create_user_found [OF g]
  note m' = get_or_create_member_found [OF m]
  let ?f = "\<lambda>x. x\<lparr>u_password := hash, u_is_email_verified := True\<rparr>"
  have d2: "d2 = d1\<lparr>db_users := tbl_update_where (\<lambda>x. u_id x = u_id u) ?f (db_users d1)\<rparr>"
    using r by (auto simp: reset_demo_user_def bind_res_Inr_iff)
  have users: "db_users d3 = db_users d2" using m' by (metis db.select_convs(1) db.surjective db.update_convs(3))
  have first: "tbl_first (\<lambda>x. u_email x = e) (db_users d3) =
      map_option (\<lambda>x. if u_id x = u_id u then ?f x else x)
        (tbl_first (\<lambda>x. u_email x = e) (db_users d1))" for e
    unfolding users by (simp add: d2 first_update)
  have rows: "set (tb_rows (db_users d3)) =
      (\<lambda>x. if u_id x = u_id u then ?f x else x) ` set (tb_rows (db_users d1))"
    unfolding users by (simp add: d2 image_image)
  show "user_ready k email d3"
    using g' m' by (auto simp: user_ready_def first rows)
  show "user_ready k e d3" if ready: "user_ready k e d"
  proof -
    from ready obtain v where v: "tbl_first (\<lambda>x. u_email x = e) (db_users d) = Some v"
      "\<forall>x \<in> set (tb_rows (db_users d)). u_id x = u_id v \<longrightarrow> u_is_email_verified x"
      "find_membership (u_id v) k d \<noteq> None"
      by (auto simp: user_ready_def split: option.splits)
    have "tbl_first (\<lambda>x. u_email x = e) (db_users d1) = Some v" using g' v(1) by blast
    moreover have "u_is_email_verified x" if "x \<in> set (tb_rows (db_users d1))" "u_id x = u_id v" for x
      using g' v(2) that by auto
    moreover have "find_membership (u_id v) k d3 \<noteq> None"
      using m' v(3) g' by (simp add: find_membership_def d2)
    ultimately show ?thesis by (auto simp: user_ready_def first rows)
  qed
  have "db_orgs d3 = db_orgs d2" "db_plans d3 = db_plans d2" "db_projects d3 = db_projects d2"
    using m' by (metis db.select_convs db.surjective db.update_convs(3))+
  with g' show "db_orgs d3 = db_orgs d" "db_plans d3 = db_plans d" "db_projects d3 = db_projects d"
    by (simp_all add: d2)
qed

lemma seed_users_ready:
  "seed_users now hashes k us d = (Inr users, d') \<Longrightarrow>
   (\<forall>(email, name, role) \<in> set us. user_ready k email d') \<and>
   (\<forall>e. user_ready k e d \<longrightarrow> user_ready k e d') \<and>
   db_orgs d' = db_orgs d \<and> db_plans d' = db_plans d \<and> db_projects d' = db_projects d"
proof (induction us arbitrary: d users)
  case (Cons a us)
  obtain email name role where a: "a = (email, name, role)" by (cases a)
  with Cons.prems obtain u d1 d2 users' where
    g: "get_or_create_user now email name d = (Inr u, d1)"
    and r: "reset_demo_user (hashes email) u d1 = Inr d2"
    and s: "seed_users now hashes k us (snd (get_or_create_member now (u_id u) k role d2)) =
      (Inr users', d')"
    by (auto split: sum.splits prod.splits)
  obtain m d3 where m: "get_or_create_member now (u_id u) k role d2 = (m, d3)" by fastforce
  with s have "seed_users now hashes k us d3 = (Inr users', d')" by simp
  from Cons.IH [OF this] seed_user_step [OF g r m] show ?case
    unfolding a by (auto 0 3)
qed simp

lemma seed_projects_ready:
  "seed_projects now k owner names d = (Inr (), d') \<Longrightarrow>
   (\<forall>name \<in> set names. project_ready k name d') \<and>
   (\<forall>name. project_ready k name d \<longrightarrow> project_ready k name d') \<and>
   d' = d\<lparr>db_projects := db_projects d'\<rparr>"
proof (induction names arbitrary: d)
  case (Cons name names)
  let ?found = "tbl_filter (\<lambda>p. pr_org p = k \<and> pr_name p = name) (db_projects d)"
  consider "?found = []" | p where "?found = [p]" | p q ps where "?found = p # q # ps"
    by (metis list.exhaust)
  then show ?case
  proof cases
    case 1
    let ?p = "\<lparr>pr_id = 0, pr_org = k, pr_name = name, pr_description = ''Demo project.'',
      pr_created_by = Some owner, pr_created_at = now\<rparr>"
    let ?d = "d\<lparr>db_projects := tbl_insert set_pr_id ?p (db_projects d)\<rparr>"
    have "seed_projects now k owner names ?d = (Inr (), d')"
      using Cons.prems 1 by (auto simp: project_insert_def bind_res_def split: sum.splits)
    note ih = Cons.IH [OF this]
    have "project_ready k name ?d" using 1 by (simp add: project_ready_def tbl_filter_def)
    moreover have "project_ready k n ?d" if "project_ready k n d" for n
      using that 1 by (cases "n = name") (simp_all add: project_ready_def tbl_filter_def)
    ultimately show ?thesis using ih by auto
  next
    case 2
    with Cons.prems have "seed_projects now k owner names d = (Inr (), d')" by simp
    with Cons.IH [OF this] 2 show ?thesis by (auto simp: project_ready_def)
  next
    case 3
    with Cons.prems show ?thesis by simp
  qed
qed simp


lemma seed_plans_frame: "db_orgs (seed_plans_command setting d) = db_orgs d"
  by (simp add: seed_plans_command_def DEFAULT_PLANS_def fold_plans_frame)

lemma get_or_create_org_found:
  assumes "get_or_create_org now slug name d = (Inr org, d')"
  shows "tbl_first (\<lambda>x. o_slug x = slug) (db_orgs d') = Some org \<and> db_plans d' = db_plans d"
proof (cases "tbl_first (\<lambda>x. o_slug x = slug) (db_orgs d)")
  case None
  with assms show ?thesis
    by (auto simp: get_or_create_org_def organization_insert_def char_field_def first_insert
        bind_res_Inr_iff split: sum.splits if_splits)
next
  case (Some x)
  with assms show ?thesis by (simp add: get_or_create_org_def)
qed

lemma claim_org_ready:
  assumes "tbl_first (\<lambda>x. o_slug x = ''acme-inc'') (db_orgs d) = Some org"
  shows "org_ready (o_id org) (claim_org (o_id org) owner d)"
  using assms by (auto simp: org_ready_def claim_org_def first_update)

lemma seed_demo_ready:
  assumes run: "seed_demo setting now hashes d = (Inr org, d')"
  shows "demo_ready setting (o_id org) d'"
proof -
  note run = run [unfolded seed_demo_def atomic_commit]
  obtain r1 d1 where g0: "get_or_create_org now ''acme-inc'' ''Acme Inc'' (seed_plans_command setting d) = (r1, d1)"
    by fastforce
  with run obtain o1 where r1: "r1 = Inr o1" by (cases r1) auto
  obtain r2 d2 where u0: "seed_users now hashes (o_id o1) DEMO_USERS d1 = (r2, d2)" by fastforce
  with run g0 r1 obtain users where r2: "r2 = Inr users" by (cases r2) auto
  from run g0 r1 u0 r2 obtain owner where owner: "map_of users OWNER = Some owner"
    by (cases "map_of users OWNER") auto
  obtain r3 d3 where p0: "seed_projects now (o_id o1) (u_id owner) DEMO_PROJECTS
      (claim_org (o_id o1) (u_id owner) d2) = (r3, d3)" by fastforce
  with run g0 r1 u0 r2 owner have r3: "r3 = Inr ()" "o1 = org" "d3 = d'" by (cases r3; simp)+
  note g = g0 [unfolded r1 r3(2)]
  note u = u0 [unfolded r2 r3(2)]
  note p = p0 [unfolded r3]
  note g' = get_or_create_org_found [OF g]
  note u' = seed_users_ready [OF u]
  note p' = seed_projects_ready [OF p]
  have same: "db_plans d' = db_plans d2" "db_users d' = db_users d2" "db_members d' = db_members d2"
    "db_orgs d' = db_orgs (claim_org (o_id org) (u_id owner) d2)"
    using arg_cong [OF conjunct2 [OF conjunct2 [OF p']], of db_plans]
      arg_cong [OF conjunct2 [OF conjunct2 [OF p']], of db_users]
      arg_cong [OF conjunct2 [OF conjunct2 [OF p']], of db_members]
      arg_cong [OF conjunct2 [OF conjunct2 [OF p']], of db_orgs]
    by (simp_all add: claim_org_def)
  have "catalogue_seeded setting d'"
    using seed_plans_seeds [of setting d] g' u' same(1)
    by (simp add: catalogue_seeded_def plan_seeded_def)
  moreover have "org_ready (o_id org) d'"
    using claim_org_ready [of d2 org "u_id owner"] g' u' same(4) by (simp add: org_ready_def)
  moreover have "user_ready k e d' = user_ready k e d2" for k e
    using same by (simp add: user_ready_def find_membership_def split: option.split)
  ultimately show ?thesis using u' p' by (simp add: demo_ready_def)
qed

text \<open>C24. The demo command is idempotent: after a run that succeeded, another run (at any time, with any
  password hashes that fit the column) succeeds on the same organization, and of the whole database
  only stored passwords may differ.\<close>

theorem seed_demo_idempotent:
  assumes "seed_demo setting now hashes d = (Inr org, d')" and "\<forall>e. length (hashes' e) \<le> 128"
  shows "\<exists>org' d''. seed_demo setting now' hashes' d' = (Inr org', d'') \<and> o_id org' = o_id org \<and>
    blank_passwords d'' = blank_passwords d'"
  using seed_demo_again [OF seed_demo_ready [OF assms(1)] assms(2)] .

definition demo_hashes :: "string \<Rightarrow> string" where
  "demo_hashes email = ''pbkdf2$'' @ email"

theorem seed_demo_idempotent_witness:
  "let d = snd (seed_demo (\<lambda>_. []) 5 demo_hashes empty_db)
   in map o_slug (tb_rows (db_orgs d)) = [''acme-inc''] \<and>
     (\<exists>org' d''. seed_demo (\<lambda>_. []) 9 (\<lambda>_. ''x'') d = (Inr org', d'') \<and>
        blank_passwords d'' = blank_passwords d)"
proof -
  have ok: "\<not> isl (fst (seed_demo (\<lambda>_. []) 5 demo_hashes empty_db))"
    "map o_slug (tb_rows (db_orgs (snd (seed_demo (\<lambda>_. []) 5 demo_hashes empty_db)))) = [''acme-inc'']"
    by code_simp+
  then obtain org d' where run: "seed_demo (\<lambda>_. []) 5 demo_hashes empty_db = (Inr org, d')"
    by (cases "fst (seed_demo (\<lambda>_. []) 5 demo_hashes empty_db)") (auto simp: prod_eq_iff)
  from seed_demo_idempotent [OF run, of "\<lambda>_. ''x''" 9] ok(2) run show ?thesis by auto
qed

text \<open>The one way a second run of the demo command fails on its own organization: project names are
  not unique, and with two projects of a demo name the lookup finds more than one, so the command
  raises and, being one transaction, changes nothing.\<close>

theorem seed_demo_duplicate_project:
  assumes ready: "catalogue_seeded setting d" "org_ready k d"
      "\<forall>(email, name, role) \<in> set DEMO_USERS. user_ready k email d"
    and dup: "1 < length (tbl_filter (\<lambda>p. pr_org p = k \<and> pr_name p = ''Website Redesign'') (db_projects d))"
    and hashes: "\<forall>e. length (hashes e) \<le> 128"
  shows "seed_demo setting now hashes d = (Inl MultipleObjectsReturned, d)"
proof -
  from seed_accounts_again [OF ready hashes] obtain org users owner d' where run:
    "get_or_create_org now ''acme-inc'' ''Acme Inc'' (seed_plans_command setting d) = (Inr org, d)"
    "o_id org = k" "seed_users now hashes k DEMO_USERS d = (Inr users, d')"
    "map_of users OWNER = Some owner" "blank_passwords d' = blank_passwords d"
    "claim_org k (u_id owner) d' = d'"
    by blast
  obtain p q ps where
    "tbl_filter (\<lambda>p. pr_org p = k \<and> pr_name p = ''Website Redesign'') (db_projects d') = p # q # ps"
    using dup blank_frame(4) [OF run(5)]
    by (cases "tbl_filter (\<lambda>p. pr_org p = k \<and> pr_name p = ''Website Redesign'') (db_projects d')"
        rule: remdups_adj.cases) auto
  with run show ?thesis
    by (simp add: seed_demo_def atomic_def DEMO_PROJECTS_def)
qed

definition doubled_db :: db where
  \<comment> \<open>the seeded database after somebody created a second project of a demo name\<close>
  "doubled_db = (let d = snd (seed_demo (\<lambda>_. []) 5 demo_hashes empty_db)
     in d\<lparr>db_projects := tbl_insert set_pr_id (demo_project 0 1 ''Website Redesign'' 2) (db_projects d)\<rparr>)"

theorem seed_demo_duplicate_project_witness:
  "seed_demo (\<lambda>_. []) 9 (\<lambda>_. ''x'') doubled_db = (Inl MultipleObjectsReturned, doubled_db)"
proof (rule seed_demo_duplicate_project)
  show "catalogue_seeded (\<lambda>_. []) doubled_db" "org_ready 1 doubled_db"
    "\<forall>(email, name, role) \<in> set DEMO_USERS. user_ready 1 email doubled_db"
    "1 < length (tbl_filter (\<lambda>p. pr_org p = 1 \<and> pr_name p = ''Website Redesign'') (db_projects doubled_db))"
    by code_simp+
qed simp

end
