(* ===== verification/Migrations.thy ===== *)
theory Migrations
  imports Seeding
begin

section \<open>Models and schema migrations\<close>

text \<open>
  The declarations of the models (\<open>*/models.py\<close>, \<open>core/models.py\<close>) and the operations of the
  migrations (\<open>*/migrations/*.py\<close>), both as data, with an executor that applies migrations to a
  schema: a model is created once, and a relation needs its target. Labels and help texts are left
  out. Tables of Django's own (\<open>auth\<close>) and the columns \<open>User\<close> inherits from \<open>AbstractUser\<close> are not
  part of the repository: the executor takes the former as present, and the comparison of \<open>User\<close> is
  of the columns it declares.
\<close>

subsection \<open>Fields\<close>

datatype on_delete = CASCADE | SET_NULL | PROTECT
datatype auto_time = No_Auto | Auto_Now | Auto_Now_Add
datatype field_default = No_Default | Str_Value string | Bool_Value bool | Callable string

datatype field_type =
    BigAutoField
  | CharField nat
  | EmailField nat
  | SlugField nat
  | TextField nat
  | BooleanField
  | DateTimeField auto_time
  | JSONField
  | ForeignKey string on_delete
  | OneToOneField string on_delete
  | ManyToManyField string

record field =
  fd_type :: field_type
  fd_primary_key :: bool
  fd_unique :: bool
  fd_null :: bool
  fd_blank :: bool
  fd_editable :: bool
  fd_choices :: "(string \<times> string) list"
  fd_default :: field_default
  fd_related_name :: "string option"

definition column :: "field_type \<Rightarrow> field" where
  \<comment> \<open>a field given no options\<close>
  "column t = \<lparr>fd_type = t, fd_primary_key = False, fd_unique = False, fd_null = False,
     fd_blank = False, fd_editable = True, fd_choices = [], fd_default = No_Default,
     fd_related_name = None\<rparr>"

definition related :: "string \<Rightarrow> field_type \<Rightarrow> field" where
  "related name t = (column t)\<lparr>fd_related_name := Some name\<rparr>"

definition optional_user :: field where
  \<comment> \<open>\<open>ForeignKey(AUTH_USER_MODEL, on_delete=SET_NULL, null=True, blank=True, related_name="+")\<close>\<close>
  "optional_user =
     (related ''+'' (ForeignKey ''accounts.user'' SET_NULL))\<lparr>fd_null := True, fd_blank := True\<rparr>"

definition big_auto_id :: "string \<times> field" where
  \<comment> \<open>\<open>DEFAULT_AUTO_FIELD\<close>\<close>
  "big_auto_id = (''id'', (column BigAutoField)\<lparr>fd_primary_key := True\<rparr>)"

datatype constraint =
    Unique_Together string "string list"
  | Unique_Lower string string

record model =
  md_fields :: "(string \<times> field) list"
  md_ordering :: "string list"
  md_constraints :: "constraint list"
  md_indexes :: "string list list"

definition role_choices :: "(string \<times> string) list" where
  "role_choices = [(''owner'', ''Owner''), (''admin'', ''Admin''), (''member'', ''Member'')]"

definition invitation_choices :: "(string \<times> string) list" where
  "invitation_choices = [(''pending'', ''Pending''), (''accepted'', ''Accepted''),
     (''revoked'', ''Revoked''), (''expired'', ''Expired'')]"

definition subscription_choices :: "(string \<times> string) list" where
  "subscription_choices = [(''active'', ''Active''), (''past_due'', ''Past due''),
     (''canceled'', ''Canceled''), (''incomplete'', ''Incomplete'')]"

subsection \<open>What the models declare\<close>

definition User_model :: model where
  \<comment> \<open>the fields of its own; \<open>username\<close> is dropped, the rest is \<open>AbstractUser\<close>'s\<close>
  "User_model = \<lparr>md_fields =
      [(''email'', (column (EmailField 254))\<lparr>fd_unique := True\<rparr>),
       (''is_email_verified'', (column BooleanField)\<lparr>fd_default := Bool_Value False\<rparr>)],
     md_ordering = [''email''],
     md_constraints = [Unique_Lower ''user_email_ci_unique'' ''email''], md_indexes = []\<rparr>"

definition Organization_model :: model where
  "Organization_model = \<lparr>md_fields =
      [big_auto_id, (''name'', column (CharField 255)),
       (''slug'', (column (SlugField 255))\<lparr>fd_unique := True\<rparr>),
       (''created_by'', optional_user),
       (''created_at'', column (DateTimeField Auto_Now_Add))],
     md_ordering = [''name''], md_constraints = [], md_indexes = []\<rparr>"

definition Membership_model :: model where
  "Membership_model = \<lparr>md_fields =
      [big_auto_id,
       (''user'', related ''memberships'' (ForeignKey ''accounts.user'' CASCADE)),
       (''organization'', related ''memberships'' (ForeignKey ''organizations.organization'' CASCADE)),
       (''role'', (column (CharField 16))\<lparr>fd_choices := role_choices, fd_default := Str_Value MEMBER\<rparr>),
       (''created_at'', column (DateTimeField Auto_Now_Add))],
     md_ordering = [''organization_id'', ''user_id''],
     md_constraints = [Unique_Together ''uniq_user_org'' [''user'', ''organization'']],
     md_indexes = []\<rparr>"

definition Invitation_model :: model where
  "Invitation_model = \<lparr>md_fields =
      [big_auto_id,
       (''organization'', related ''invitations'' (ForeignKey ''organizations.organization'' CASCADE)),
       (''email'', column (EmailField 254)),
       (''role'', (column (CharField 16))\<lparr>fd_choices := role_choices, fd_default := Str_Value MEMBER\<rparr>),
       (''token'', (column (CharField 255))\<lparr>fd_unique := True,
          fd_default := Callable ''generate_invitation_token'', fd_editable := False\<rparr>),
       (''status'', (column (CharField 16))\<lparr>fd_choices := invitation_choices,
          fd_default := Str_Value PENDING\<rparr>),
       (''invited_by'', optional_user),
       (''created_at'', column (DateTimeField Auto_Now_Add)),
       (''expires_at'', column (DateTimeField No_Auto))],
     md_ordering = [''-created_at''], md_constraints = [],
     md_indexes = [[''organization'', ''status'']]\<rparr>"

definition Plan_model :: model where
  "Plan_model = \<lparr>md_fields =
      [big_auto_id, (''code'', (column (CharField 32))\<lparr>fd_unique := True\<rparr>),
       (''name'', column (CharField 64)),
       (''stripe_price_id'', (column (CharField 255))\<lparr>fd_blank := True\<rparr>),
       (''limits'', (column JSONField)\<lparr>fd_default := Callable ''dict''\<rparr>),
       (''is_active'', (column BooleanField)\<lparr>fd_default := Bool_Value True\<rparr>)],
     md_ordering = [''id''], md_constraints = [], md_indexes = []\<rparr>"

definition Subscription_model :: model where
  "Subscription_model = \<lparr>md_fields =
      [big_auto_id,
       (''organization'', related ''subscription'' (OneToOneField ''organizations.organization'' CASCADE)),
       (''plan'', related ''subscriptions'' (ForeignKey ''billing.plan'' PROTECT)),
       (''stripe_customer_id'', (column (CharField 255))\<lparr>fd_blank := True\<rparr>),
       (''stripe_subscription_id'', (column (CharField 255))\<lparr>fd_blank := True\<rparr>),
       (''status'', (column (CharField 32))\<lparr>fd_choices := subscription_choices,
          fd_default := Str_Value ACTIVE\<rparr>),
       (''current_period_end'', (column (DateTimeField No_Auto))\<lparr>fd_null := True, fd_blank := True\<rparr>),
       (''updated_at'', column (DateTimeField Auto_Now))],
     md_ordering = [], md_constraints = [],
     md_indexes = [[''stripe_subscription_id''], [''stripe_customer_id'']]\<rparr>"

definition WebhookEvent_model :: model where
  "WebhookEvent_model = \<lparr>md_fields =
      [big_auto_id, (''stripe_event_id'', (column (CharField 255))\<lparr>fd_unique := True\<rparr>),
       (''type'', column (CharField 64)),
       (''processed_at'', column (DateTimeField Auto_Now_Add))],
     md_ordering = [''-processed_at''], md_constraints = [], md_indexes = []\<rparr>"

definition TenantScopedModel :: "string \<times> field" where
  \<comment> \<open>the column every tenant-owned model inherits\<close>
  "TenantScopedModel =
     (''organization'', related ''%(class)ss'' (ForeignKey ''organizations.organization'' CASCADE))"

definition Project_model :: model where
  "Project_model = \<lparr>md_fields =
      [big_auto_id, TenantScopedModel, (''name'', column (CharField 255)),
       (''description'', (column (TextField 5000))\<lparr>fd_blank := True\<rparr>),
       (''created_by'', optional_user),
       (''created_at'', column (DateTimeField Auto_Now_Add))],
     md_ordering = [''-created_at''], md_constraints = [], md_indexes = []\<rparr>"

definition declared_models :: "(string \<times> model) list" where
  "declared_models =
     [(''accounts.user'', User_model), (''organizations.organization'', Organization_model),
      (''organizations.membership'', Membership_model),
      (''organizations.invitation'', Invitation_model), (''billing.plan'', Plan_model),
      (''billing.subscription'', Subscription_model), (''billing.webhookevent'', WebhookEvent_model),
      (''projects.project'', Project_model)]"


subsection \<open>The migrations\<close>

type_synonym migration_id = "string \<times> string"

datatype operation =
    CreateModel string model
  | RunPython "time \<Rightarrow> db \<Rightarrow> db" \<comment> \<open>forwards\<close>

record migration =
  mg_id :: migration_id
  mg_dependencies :: "migration_id list"
  mg_operations :: "operation list"

definition accounts_0001 :: migration where
  \<comment> \<open>\<open>auth\<close> is Django's own application\<close>
  "accounts_0001 = \<lparr>mg_id = (''accounts'', ''0001_initial''),
     mg_dependencies = [(''auth'', ''0012_alter_user_first_name_max_length'')],
     mg_operations = [CreateModel ''accounts.user'' \<lparr>md_fields =
       [big_auto_id, (''password'', column (CharField 128)),
        (''last_login'', (column (DateTimeField No_Auto))\<lparr>fd_null := True, fd_blank := True\<rparr>),
        (''is_superuser'', (column BooleanField)\<lparr>fd_default := Bool_Value False\<rparr>),
        (''first_name'', (column (CharField 150))\<lparr>fd_blank := True\<rparr>),
        (''last_name'', (column (CharField 150))\<lparr>fd_blank := True\<rparr>),
        (''is_staff'', (column BooleanField)\<lparr>fd_default := Bool_Value False\<rparr>),
        (''is_active'', (column BooleanField)\<lparr>fd_default := Bool_Value True\<rparr>),
        (''date_joined'', (column (DateTimeField No_Auto))\<lparr>fd_default := Callable ''timezone.now''\<rparr>),
        (''email'', (column (EmailField 254))\<lparr>fd_unique := True\<rparr>),
        (''is_email_verified'', (column BooleanField)\<lparr>fd_default := Bool_Value False\<rparr>),
        (''groups'', (related ''user_set'' (ManyToManyField ''auth.group''))\<lparr>fd_blank := True\<rparr>),
        (''user_permissions'',
          (related ''user_set'' (ManyToManyField ''auth.permission''))\<lparr>fd_blank := True\<rparr>)],
       md_ordering = [''email''],
       md_constraints = [Unique_Lower ''user_email_ci_unique'' ''email''], md_indexes = []\<rparr>]\<rparr>"

definition organizations_0001 :: migration where
  \<comment> \<open>\<open>swappable_dependency\<close> is the first migration of the user model's application\<close>
  "organizations_0001 = \<lparr>mg_id = (''organizations'', ''0001_initial''),
     mg_dependencies = [(''accounts'', ''0001_initial'')],
     mg_operations =
      [CreateModel ''organizations.organization'' \<lparr>md_fields =
         [big_auto_id, (''name'', column (CharField 255)),
          (''slug'', (column (SlugField 255))\<lparr>fd_unique := True\<rparr>),
          (''created_at'', column (DateTimeField Auto_Now_Add)),
          (''created_by'', (related ''+'' (ForeignKey ''accounts.user'' SET_NULL))
             \<lparr>fd_null := True, fd_blank := True\<rparr>)],
         md_ordering = [''name''], md_constraints = [], md_indexes = []\<rparr>,
       CreateModel ''organizations.membership'' \<lparr>md_fields =
         [big_auto_id,
          (''role'', (column (CharField 16))\<lparr>fd_default := Str_Value ''member'', fd_choices :=
             [(''owner'', ''Owner''), (''admin'', ''Admin''), (''member'', ''Member'')]\<rparr>),
          (''created_at'', column (DateTimeField Auto_Now_Add)),
          (''user'', related ''memberships'' (ForeignKey ''accounts.user'' CASCADE)),
          (''organization'', related ''memberships''
             (ForeignKey ''organizations.organization'' CASCADE))],
         md_ordering = [''organization_id'', ''user_id''],
         md_constraints = [Unique_Together ''uniq_user_org'' [''user'', ''organization'']],
         md_indexes = []\<rparr>]\<rparr>"

definition organizations_0002 :: migration where
  "organizations_0002 = \<lparr>mg_id = (''organizations'', ''0002_invitation''),
     mg_dependencies = [(''organizations'', ''0001_initial''), (''accounts'', ''0001_initial'')],
     mg_operations = [CreateModel ''organizations.invitation'' \<lparr>md_fields =
       [big_auto_id, (''email'', column (EmailField 254)),
        (''role'', (column (CharField 16))\<lparr>fd_default := Str_Value ''member'', fd_choices :=
           [(''owner'', ''Owner''), (''admin'', ''Admin''), (''member'', ''Member'')]\<rparr>),
        (''token'', (column (CharField 255))\<lparr>fd_default := Callable ''generate_invitation_token'',
           fd_editable := False, fd_unique := True\<rparr>),
        (''status'', (column (CharField 16))\<lparr>fd_default := Str_Value ''pending'', fd_choices :=
           [(''pending'', ''Pending''), (''accepted'', ''Accepted''), (''revoked'', ''Revoked''),
            (''expired'', ''Expired'')]\<rparr>),
        (''created_at'', column (DateTimeField Auto_Now_Add)),
        (''expires_at'', column (DateTimeField No_Auto)),
        (''invited_by'', (related ''+'' (ForeignKey ''accounts.user'' SET_NULL))
           \<lparr>fd_null := True, fd_blank := True\<rparr>),
        (''organization'', related ''invitations''
           (ForeignKey ''organizations.organization'' CASCADE))],
       md_ordering = [''-created_at''], md_constraints = [],
       md_indexes = [[''organization'', ''status'']]\<rparr>]\<rparr>"

definition billing_0001 :: migration where
  "billing_0001 = \<lparr>mg_id = (''billing'', ''0001_initial''),
     mg_dependencies = [(''organizations'', ''0002_invitation'')],
     mg_operations =
      [CreateModel ''billing.plan'' \<lparr>md_fields =
         [big_auto_id, (''code'', (column (CharField 32))\<lparr>fd_unique := True\<rparr>),
          (''name'', column (CharField 64)),
          (''stripe_price_id'', (column (CharField 255))\<lparr>fd_blank := True\<rparr>),
          (''limits'', (column JSONField)\<lparr>fd_default := Callable ''dict''\<rparr>),
          (''is_active'', (column BooleanField)\<lparr>fd_default := Bool_Value True\<rparr>)],
         md_ordering = [''id''], md_constraints = [], md_indexes = []\<rparr>,
       CreateModel ''billing.webhookevent'' \<lparr>md_fields =
         [big_auto_id, (''stripe_event_id'', (column (CharField 255))\<lparr>fd_unique := True\<rparr>),
          (''type'', column (CharField 64)),
          (''processed_at'', column (DateTimeField Auto_Now_Add))],
         md_ordering = [''-processed_at''], md_constraints = [], md_indexes = []\<rparr>,
       CreateModel ''billing.subscription'' \<lparr>md_fields =
         [big_auto_id, (''stripe_customer_id'', (column (CharField 255))\<lparr>fd_blank := True\<rparr>),
          (''stripe_subscription_id'', (column (CharField 255))\<lparr>fd_blank := True\<rparr>),
          (''status'', (column (CharField 32))\<lparr>fd_default := Str_Value ''active'', fd_choices :=
             [(''active'', ''Active''), (''past_due'', ''Past due''), (''canceled'', ''Canceled''),
              (''incomplete'', ''Incomplete'')]\<rparr>),
          (''current_period_end'', (column (DateTimeField No_Auto))
             \<lparr>fd_null := True, fd_blank := True\<rparr>),
          (''updated_at'', column (DateTimeField Auto_Now)),
          (''organization'', related ''subscription''
             (OneToOneField ''organizations.organization'' CASCADE)),
          (''plan'', related ''subscriptions'' (ForeignKey ''billing.plan'' PROTECT))],
         md_ordering = [], md_constraints = [],
         md_indexes = [[''stripe_subscription_id''], [''stripe_customer_id'']]\<rparr>]\<rparr>"

definition billing_0002 :: migration where
  "billing_0002 = \<lparr>mg_id = (''billing'', ''0002_seed_plans''),
     mg_dependencies = [(''billing'', ''0001_initial'')],
     mg_operations = [RunPython (\<lambda>now. seed_plans_migration)]\<rparr>"

definition billing_0003 :: migration where
  "billing_0003 = \<lparr>mg_id = (''billing'', ''0003_backfill_subscriptions''),
     mg_dependencies = [(''billing'', ''0002_seed_plans'')],
     mg_operations = [RunPython backfill]\<rparr>"

definition projects_0001 :: migration where
  "projects_0001 = \<lparr>mg_id = (''projects'', ''0001_initial''),
     mg_dependencies = [(''organizations'', ''0001_initial''), (''accounts'', ''0001_initial'')],
     mg_operations = [CreateModel ''projects.project'' \<lparr>md_fields =
       [big_auto_id, (''name'', column (CharField 255)),
        (''description'', (column (TextField 5000))\<lparr>fd_blank := True\<rparr>),
        (''created_at'', column (DateTimeField Auto_Now_Add)),
        (''created_by'', (related ''+'' (ForeignKey ''accounts.user'' SET_NULL))
           \<lparr>fd_null := True, fd_blank := True\<rparr>),
        (''organization'', related ''%(class)ss''
           (ForeignKey ''organizations.organization'' CASCADE))],
       md_ordering = [''-created_at''], md_constraints = [], md_indexes = []\<rparr>]\<rparr>"

definition migrations :: "migration list" where
  "migrations = [accounts_0001, organizations_0001, organizations_0002, billing_0001, billing_0002,
     billing_0003, projects_0001]"

lemmas migration_defs =
  migrations_def accounts_0001_def organizations_0001_def organizations_0002_def billing_0001_def
  billing_0002_def billing_0003_def projects_0001_def

subsection \<open>Applying them\<close>

type_synonym schema = "(string \<times> model) list"

definition relation_target :: "field_type \<Rightarrow> string option" where
  "relation_target t =
     (case t of
        ForeignKey m _ \<Rightarrow> Some m
      | OneToOneField m _ \<Rightarrow> Some m
      | ManyToManyField m \<Rightarrow> Some m
      | _ \<Rightarrow> None)"

definition targets_exist :: "schema \<Rightarrow> string \<Rightarrow> model \<Rightarrow> bool" where
  "targets_exist sch name m \<longleftrightarrow>
     list_all (\<lambda>(_, f). case relation_target (fd_type f) of
        None \<Rightarrow> True
      | Some t \<Rightarrow> t = name \<or> map_of sch t \<noteq> None) (md_fields m)"

fun apply_operation :: "time \<Rightarrow> operation \<Rightarrow> schema \<times> db \<Rightarrow> (schema \<times> db) option" where
  \<comment> \<open>\<open>None\<close>: the model exists already, or a relation has no target\<close>
  "apply_operation now (CreateModel name m) (sch, d) =
     (if map_of sch name = None \<and> targets_exist sch name m then Some ((name, m) # sch, d) else None)"
| "apply_operation now (RunPython f) (sch, d) = Some (sch, f now d)"

fun apply_operations :: "time \<Rightarrow> operation list \<Rightarrow> schema \<times> db \<Rightarrow> (schema \<times> db) option" where
  "apply_operations now [] s = Some s"
| "apply_operations now (op # ops) s =
     (case apply_operation now op s of None \<Rightarrow> None | Some s' \<Rightarrow> apply_operations now ops s')"

fun migrate :: "time \<Rightarrow> migration_id list \<Rightarrow> migration list \<Rightarrow> schema \<times> db \<Rightarrow> (schema \<times> db) option" where
  \<comment> \<open>the migrations already applied, then those to apply, in order\<close>
  "migrate now applied [] s = Some s"
| "migrate now applied (m # ms) s =
     (if list_all (\<lambda>k. k \<in> set applied) (mg_dependencies m) then
        (case apply_operations now (mg_operations m) s of
           None \<Rightarrow> None
         | Some s' \<Rightarrow> migrate now (mg_id m # applied) ms s')
      else None)"

definition auth_applied :: "migration_id list" where
  "auth_applied = [(''auth'', ''0012_alter_user_first_name_max_length'')]"

definition no_model :: model where
  "no_model = \<lparr>md_fields = [], md_ordering = [], md_constraints = [], md_indexes = []\<rparr>"

definition auth_schema :: schema where
  \<comment> \<open>the two models of \<open>auth\<close> the migrations relate to; their columns are Django's\<close>
  "auth_schema = [(''auth.group'', no_model), (''auth.permission'', no_model)]"

subsection \<open>Every order the dependencies allow\<close>

fun deps_respected :: "migration_id list \<Rightarrow> migration list \<Rightarrow> bool" where
  "deps_respected applied [] = True"
| "deps_respected applied (m # ms) =
     (set (mg_dependencies m) \<subseteq> set applied \<and> deps_respected (mg_id m # applied) ms)"

fun orders :: "nat \<Rightarrow> 'k list \<Rightarrow> ('k \<times> 'k list) list \<Rightarrow> 'k list list" where
  \<comment> \<open>the orders of a dependency graph, by depth-first search\<close>
  "orders 0 applied rest = [[]]"
| "orders (Suc n) applied rest =
     concat (map (\<lambda>(k, deps). map ((#) k)
         (orders n (k # applied) (filter (\<lambda>x. fst x \<noteq> k) rest)))
       (filter (\<lambda>(k, deps). list_all (\<lambda>j. j \<in> set applied) deps) rest))"

definition dependency :: "migration \<Rightarrow> migration_id \<times> migration_id list" where
  "dependency m = (mg_id m, mg_dependencies m)"

lemma orders_step:
  "(k, deps) \<in> set rest \<Longrightarrow> list_all (\<lambda>j. j \<in> set applied) deps \<Longrightarrow>
   ks \<in> set (orders n (k # applied) (filter (\<lambda>x. fst x \<noteq> k) rest)) \<Longrightarrow>
   k # ks \<in> set (orders (Suc n) applied rest)"
  by (auto intro!: bexI [of _ "(k, deps)"])

lemma orders_complete:
  assumes "deps_respected applied ms" "distinct (map mg_id ms)" "distinct (map mg_id rest)"
    "set ms = set rest"
  shows "map mg_id ms \<in> set (orders (length ms) applied (map dependency rest))"
  using assms
proof (induction ms arbitrary: applied rest)
  case (Cons m ms)
  let ?rest = "filter (\<lambda>x. mg_id x \<noteq> mg_id m) rest"
  have m: "m \<in> set rest" using Cons.prems(4) by auto
  have same: "x = m" if "x \<in> set rest" "mg_id x = mg_id m" for x
    using that m Cons.prems(3) by (metis (no_types) distinct_map inj_on_def)
  have "set ?rest = set rest - {m}" using same by auto
  moreover have "set ms = set rest - {m}" using Cons.prems(2,4) by auto
  ultimately have "set ms = set ?rest" by simp
  moreover have "distinct (map mg_id ?rest)" using Cons.prems(3) by (simp add: distinct_map_filter)
  ultimately have "map mg_id ms \<in> set (orders (length ms) (mg_id m # applied) (map dependency ?rest))"
    using Cons.IH [of "mg_id m # applied" ?rest] Cons.prems(1,2) by simp
  moreover have "map dependency ?rest = filter (\<lambda>x. fst x \<noteq> mg_id m) (map dependency rest)"
    by (simp add: filter_map comp_def dependency_def)
  moreover have "list_all (\<lambda>j. j \<in> set applied) (mg_dependencies m)"
    using Cons.prems(1) by (auto simp: list_all_iff)
  moreover have "(mg_id m, mg_dependencies m) \<in> set (map dependency rest)"
    using m by (auto simp: dependency_def)
  ultimately show ?case
    using orders_step [of "mg_id m" "mg_dependencies m" "map dependency rest" applied] by simp
qed simp

definition conforms :: "schema \<Rightarrow> string \<times> model \<Rightarrow> bool" where
  \<comment> \<open>the migrated table is the declared one; \<open>User\<close> also has what it inherits\<close>
  "conforms sch nm =
     (case nm of (name, decl) \<Rightarrow>
       (case map_of sch name of
          None \<Rightarrow> False
        | Some m \<Rightarrow>
            list_all (\<lambda>f. f \<in> set (md_fields m)) (md_fields decl) \<and>
            (name = ''accounts.user'' \<or> list_all (\<lambda>f. f \<in> set (md_fields decl)) (md_fields m)) \<and>
            distinct (map fst (md_fields m)) \<and> md_ordering m = md_ordering decl \<and>
            md_constraints m = md_constraints decl \<and> md_indexes m = md_indexes decl))"

definition named :: "migration_id \<Rightarrow> migration" where
  "named k = (case find (\<lambda>m. mg_id m = k) migrations of Some m \<Rightarrow> m | None \<Rightarrow> projects_0001)"

lemma find_distinct_key: "distinct (map f xs) \<Longrightarrow> x \<in> set xs \<Longrightarrow> find (\<lambda>y. f y = f x) xs = Some x"
  by (induction xs) auto

lemma migration_graph:
  "map dependency migrations =
    [((''accounts'', ''0001_initial''), [(''auth'', ''0012_alter_user_first_name_max_length'')]),
     ((''organizations'', ''0001_initial''), [(''accounts'', ''0001_initial'')]),
     ((''organizations'', ''0002_invitation''), [(''organizations'', ''0001_initial''), (''accounts'', ''0001_initial'')]),
     ((''billing'', ''0001_initial''), [(''organizations'', ''0002_invitation'')]),
     ((''billing'', ''0002_seed_plans''), [(''billing'', ''0001_initial'')]),
     ((''billing'', ''0003_backfill_subscriptions''), [(''billing'', ''0002_seed_plans'')]),
     ((''projects'', ''0001_initial''), [(''organizations'', ''0001_initial''), (''accounts'', ''0001_initial'')])]"
  by (simp add: migration_defs dependency_def)

lemma migration_ids: "distinct (map mg_id migrations)" "length migrations = 7"
  by (simp_all add: migration_defs)

lemma named_mg_id: "m \<in> set migrations \<Longrightarrow> named (mg_id m) = m"
  using find_distinct_key [OF migration_ids(1)] by (simp add: named_def)

definition migration_orders :: "migration_id list list" where
  "migration_orders =
     (let a = (''accounts'', ''0001_initial''); o1 = (''organizations'', ''0001_initial'');
          o2 = (''organizations'', ''0002_invitation''); b1 = (''billing'', ''0001_initial'');
          b2 = (''billing'', ''0002_seed_plans''); b3 = (''billing'', ''0003_backfill_subscriptions'');
          p = (''projects'', ''0001_initial'')
      in [[a, o1, o2, b1, b2, b3, p], [a, o1, o2, b1, b2, p, b3], [a, o1, o2, b1, p, b2, b3],
          [a, o1, o2, p, b1, b2, b3], [a, o1, p, o2, b1, b2, b3]])"

lemma migration_orders: "orders 7 auth_applied (map dependency migrations) = migration_orders"
  unfolding migration_graph by code_simp

lemma migration_order:
  assumes "deps_respected auth_applied ms" "distinct (map mg_id ms)" "set ms = set migrations"
  shows "map mg_id ms \<in> set migration_orders \<and> ms = map named (map mg_id ms)"
proof
  have "length ms = card (mg_id ` set ms)" using distinct_card [OF assms(2)] by simp
  also have "\<dots> = 7" using distinct_card [OF migration_ids(1)] migration_ids(2) assms(3) by simp
  finally show "map mg_id ms \<in> set migration_orders"
    using orders_complete [OF assms(1,2) migration_ids(1) assms(3)] migration_orders by simp
  have "map (\<lambda>m. named (mg_id m)) ms = ms" by (rule map_idI) (use assms(3) named_mg_id in blast)
  then show "ms = map named (map mg_id ms)" by (simp add: comp_def)
qed

definition migrated_ok :: "time \<Rightarrow> db \<Rightarrow> (schema \<times> db) option \<Rightarrow> bool" where
  \<comment> \<open>it ran, every declared model has its table, and the data steps ran in their order\<close>
  "migrated_ok now d r \<longleftrightarrow>
     (case r of None \<Rightarrow> False
      | Some (sch, d') \<Rightarrow> list_all (conforms sch) declared_models \<and>
          d' = backfill now (seed_plans_migration d))"

lemma named_simps:
  "named (''accounts'', ''0001_initial'') = accounts_0001"
  "named (''organizations'', ''0001_initial'') = organizations_0001"
  "named (''organizations'', ''0002_invitation'') = organizations_0002"
  "named (''billing'', ''0001_initial'') = billing_0001"
  "named (''billing'', ''0002_seed_plans'') = billing_0002"
  "named (''billing'', ''0003_backfill_subscriptions'') = billing_0003"
  "named (''projects'', ''0001_initial'') = projects_0001"
  by (simp_all add: named_def migration_defs)


lemmas migrate_eval =
  migrated_ok_def migration_defs auth_applied_def auth_schema_def targets_exist_def
  relation_target_def column_def related_def big_auto_id_def

lemmas model_defs =
  declared_models_def User_model_def Organization_model_def Membership_model_def
  Invitation_model_def Plan_model_def Subscription_model_def WebhookEvent_model_def
  TenantScopedModel_def Project_model_def optional_user_def role_choices_def
  invitation_choices_def subscription_choices_def conforms_def
  MEMBER_def PENDING_def ACTIVE_def

lemma migrate_1:
  "migrated_ok now d (migrate now auth_applied
      [accounts_0001, organizations_0001, organizations_0002, billing_0001, billing_0002,
       billing_0003, projects_0001] (auth_schema, d))"
  by (simp add: migrate_eval model_defs)

lemma migrate_2:
  "migrated_ok now d (migrate now auth_applied
      [accounts_0001, organizations_0001, organizations_0002, billing_0001, billing_0002,
       projects_0001, billing_0003] (auth_schema, d))"
  by (simp add: migrate_eval model_defs)

lemma migrate_3:
  "migrated_ok now d (migrate now auth_applied
      [accounts_0001, organizations_0001, organizations_0002, billing_0001, projects_0001,
       billing_0002, billing_0003] (auth_schema, d))"
  by (simp add: migrate_eval model_defs)

lemma migrate_4:
  "migrated_ok now d (migrate now auth_applied
      [accounts_0001, organizations_0001, organizations_0002, projects_0001, billing_0001,
       billing_0002, billing_0003] (auth_schema, d))"
  by (simp add: migrate_eval model_defs)

lemma migrate_5:
  "migrated_ok now d (migrate now auth_applied
      [accounts_0001, organizations_0001, projects_0001, organizations_0002, billing_0001,
       billing_0002, billing_0003] (auth_schema, d))"
  by (simp add: migrate_eval model_defs)

lemma migration_order_ok:
  assumes "ks \<in> set migration_orders"
  shows "migrated_ok now d (migrate now auth_applied (map named ks) (auth_schema, d))"
  using assms migrate_1 migrate_2 migrate_3 migrate_4 migrate_5
  unfolding migration_orders_def Let_def list.set insert_iff empty_iff
  by (elim disjE) (simp_all only: list.map named_simps)

text \<open>C19. The migrations build what the models declare: applied in any order their dependencies
  allow, they all run (no model is created twice, no relation lacks its target), every declared
  model gets its table with exactly the declared columns, options, relations and delete rules,
  constraints and indexes (\<open>User\<close> also what it inherits), and the data steps seed the plans and
  then backfill the subscriptions.\<close>

theorem migrations_build_models:
  assumes "deps_respected auth_applied ms" "distinct (map mg_id ms)" "set ms = set migrations"
  shows "migrated_ok now d (migrate now auth_applied ms (auth_schema, d))"
proof -
  from migration_order [OF assms] have "map mg_id ms \<in> set migration_orders"
    "ms = map named (map mg_id ms)" by blast+
  then show ?thesis using migration_order_ok [of "map mg_id ms" now d] by simp
qed

theorem migrations_build_models_witness:
  "migrated_ok 0 empty_db (migrate 0 auth_applied migrations (auth_schema, empty_db))"
proof (rule migrations_build_models)
  show "deps_respected auth_applied migrations"
    by (simp add: migration_defs auth_applied_def)
qed (simp_all only: migration_ids)

subsection \<open>The schema and the row operations\<close>

definition created_models :: schema where
  "created_models =
     [(name, m). mg \<leftarrow> migrations, op \<leftarrow> mg_operations mg,
        (name, m) \<leftarrow> (case op of CreateModel n x \<Rightarrow> [(n, x)] | RunPython f \<Rightarrow> [])]"

definition table_column :: "string \<Rightarrow> string \<Rightarrow> field_type option" where
  "table_column t c =
     (case map_of created_models t of
        None \<Rightarrow> None
      | Some m \<Rightarrow> map_option fd_type (map_of (md_fields m) c))"

definition fits :: "string \<Rightarrow> string \<Rightarrow> string \<Rightarrow> bool" where
  \<comment> \<open>the value fits the column's width\<close>
  "fits t c v =
     (case table_column t c of
        Some (CharField n) \<Rightarrow> length v \<le> n
      | Some (EmailField n) \<Rightarrow> length v \<le> n
      | Some (SlugField n) \<Rightarrow> length v \<le> n
      | Some (TextField n) \<Rightarrow> True \<comment> \<open>\<open>text\<close> has no width; the bound is the serializer's\<close>
      | _ \<Rightarrow> False)"

lemma column_types:
  "table_column ''accounts.user'' ''email'' = Some (EmailField 254)"
  "table_column ''accounts.user'' ''first_name'' = Some (CharField 150)"
  "table_column ''accounts.user'' ''last_name'' = Some (CharField 150)"
  "table_column ''accounts.user'' ''password'' = Some (CharField 128)"
  "table_column ''organizations.organization'' ''name'' = Some (CharField 255)"
  "table_column ''organizations.organization'' ''slug'' = Some (SlugField 255)"
  "table_column ''organizations.invitation'' ''email'' = Some (EmailField 254)"
  "table_column ''organizations.invitation'' ''token'' = Some (CharField 255)"
  "table_column ''projects.project'' ''name'' = Some (CharField 255)"
  "table_column ''projects.project'' ''description'' = Some (TextField 5000)"
  by (simp_all add: table_column_def created_models_def migration_defs big_auto_id_def column_def
      related_def)

text \<open>The row operations enforce the migrated schema: inserting a user, an organization, an
  invitation or a project raises the database's data error exactly when one of the row's texts does
  not fit its column.\<close>

theorem inserts_enforce_schema:
  "(user_insert u d = Inl DataError \<longleftrightarrow>
      \<not> (fits ''accounts.user'' ''email'' (u_email u) \<and>
         fits ''accounts.user'' ''first_name'' (u_first_name u) \<and>
         fits ''accounts.user'' ''last_name'' (u_last_name u) \<and>
         fits ''accounts.user'' ''password'' (u_password u))) \<and>
   (organization_insert org d = Inl DataError \<longleftrightarrow>
      \<not> (fits ''organizations.organization'' ''name'' (o_name org) \<and>
         fits ''organizations.organization'' ''slug'' (o_slug org))) \<and>
   (invitation_insert i d = Inl DataError \<longleftrightarrow>
      \<not> (fits ''organizations.invitation'' ''email'' (i_email i) \<and>
         fits ''organizations.invitation'' ''token'' (i_token i))) \<and>
   (project_insert p d = Inl DataError \<longleftrightarrow>
      \<not> (fits ''projects.project'' ''name'' (pr_name p) \<and>
         fits ''projects.project'' ''description'' (pr_description p)))"
  by (simp add: fits_def column_types user_insert_def organization_insert_def invitation_insert_def
      project_insert_def char_field_def bind_res_def not_le)

definition delete_rule :: "string \<Rightarrow> string \<Rightarrow> on_delete option" where
  "delete_rule t c =
     (case table_column t c of
        Some (ForeignKey _ r) \<Rightarrow> Some r
      | Some (OneToOneField _ r) \<Rightarrow> Some r
      | _ \<Rightarrow> None)"

definition relations_to :: "string \<Rightarrow> (string \<times> string) list" where
  \<comment> \<open>the columns that refer to a table\<close>
  "relations_to target =
     [(t, c). (t, m) \<leftarrow> created_models, (c, f) \<leftarrow> md_fields m,
        relation_target (fd_type f) = Some target]"

fun on_deleted :: "on_delete \<Rightarrow> ('r \<Rightarrow> key option) \<Rightarrow> ('r \<Rightarrow> 'r) \<Rightarrow> key \<Rightarrow> 'r tbl \<Rightarrow> 'r tbl option" where
  \<comment> \<open>what the delete rule does to a referring table when the row \<open>k\<close> goes; \<open>None\<close>: refused\<close>
  "on_deleted CASCADE col clear k t = Some (tbl_delete_where (\<lambda>r. col r = Some k) t)"
| "on_deleted SET_NULL col clear k t = Some (tbl_update_where (\<lambda>r. col r = Some k) clear t)"
| "on_deleted PROTECT col clear k t = (if tbl_exists (\<lambda>r. col r = Some k) t then None else Some t)"


lemma relations:
  "set (relations_to ''organizations.organization'') =
     {(''organizations.membership'', ''organization''), (''organizations.invitation'', ''organization''),
      (''billing.subscription'', ''organization''), (''projects.project'', ''organization'')}"
  "set (relations_to ''accounts.user'') =
     {(''organizations.organization'', ''created_by''), (''organizations.membership'', ''user''),
      (''organizations.invitation'', ''invited_by''), (''projects.project'', ''created_by'')}"
  "set (relations_to ''billing.plan'') = {(''billing.subscription'', ''plan'')}"
  by (simp_all add: relations_to_def created_models_def migration_defs big_auto_id_def column_def
      related_def relation_target_def)

lemma delete_rules:
  "delete_rule ''organizations.membership'' ''organization'' = Some CASCADE"
  "delete_rule ''organizations.invitation'' ''organization'' = Some CASCADE"
  "delete_rule ''billing.subscription'' ''organization'' = Some CASCADE"
  "delete_rule ''projects.project'' ''organization'' = Some CASCADE"
  "delete_rule ''organizations.organization'' ''created_by'' = Some SET_NULL"
  "delete_rule ''organizations.membership'' ''user'' = Some CASCADE"
  "delete_rule ''organizations.invitation'' ''invited_by'' = Some SET_NULL"
  "delete_rule ''projects.project'' ''created_by'' = Some SET_NULL"
  "delete_rule ''billing.subscription'' ''plan'' = Some PROTECT"
  by (simp_all add: delete_rule_def table_column_def created_models_def migration_defs
      big_auto_id_def column_def related_def)

definition delete_effect ::
  "string \<Rightarrow> string \<Rightarrow> ('r \<Rightarrow> key option) \<Rightarrow> ('r \<Rightarrow> 'r) \<Rightarrow> key \<Rightarrow> 'r tbl \<Rightarrow> 'r tbl option" where
  "delete_effect t c col clear k rows =
     (case delete_rule t c of None \<Rightarrow> Some rows | Some r \<Rightarrow> on_deleted r col clear k rows)"

text \<open>No code of the application deletes the referring rows, the framework does. The functions that
  stand for it, \<open>organization_delete\<close> and \<open>user_delete\<close>, agree with the delete rules of the migrated
  schema on every column that refers to an organization or a user, and the reverse of the seeding
  migration is refused exactly when the rule of \<open>Subscription.plan\<close> refuses one of its plans.\<close>

lemma deletes_follow_schema:
  "set (relations_to ''organizations.organization'') =
     {(''organizations.membership'', ''organization''), (''organizations.invitation'', ''organization''),
      (''billing.subscription'', ''organization''), (''projects.project'', ''organization'')} \<and>
   (let d' = organization_delete k d in
     delete_effect ''organizations.membership'' ''organization'' (Some \<circ> m_org) id k (db_members d) =
       Some (db_members d') \<and>
     delete_effect ''organizations.invitation'' ''organization'' (Some \<circ> i_org) id k (db_invites d) =
       Some (db_invites d') \<and>
     delete_effect ''billing.subscription'' ''organization'' (Some \<circ> s_org) id k (db_subs d) =
       Some (db_subs d') \<and>
     delete_effect ''projects.project'' ''organization'' (Some \<circ> pr_org) id k (db_projects d) =
       Some (db_projects d')) \<and>
   set (relations_to ''accounts.user'') =
     {(''organizations.organization'', ''created_by''), (''organizations.membership'', ''user''),
      (''organizations.invitation'', ''invited_by''), (''projects.project'', ''created_by'')} \<and>
   (let d' = user_delete k d in
     delete_effect ''organizations.membership'' ''user'' (Some \<circ> m_user) id k (db_members d) =
       Some (db_members d') \<and>
     delete_effect ''organizations.organization'' ''created_by'' o_created_by
       (\<lambda>x. x\<lparr>o_created_by := None\<rparr>) k (db_orgs d) = Some (db_orgs d') \<and>
     delete_effect ''organizations.invitation'' ''invited_by'' i_invited_by
       (\<lambda>x. x\<lparr>i_invited_by := None\<rparr>) k (db_invites d) = Some (db_invites d') \<and>
     delete_effect ''projects.project'' ''created_by'' pr_created_by
       (\<lambda>x. x\<lparr>pr_created_by := None\<rparr>) k (db_projects d) = Some (db_projects d')) \<and>
   set (relations_to ''billing.plan'') = {(''billing.subscription'', ''plan'')} \<and>
   (unseed_plans_migration d = Inl ProtectedError \<longleftrightarrow>
     (\<exists>p \<in> set (tb_rows (db_plans d)). p_code p \<in> fst ` set MIGRATION_PLANS \<and>
        delete_effect ''billing.subscription'' ''plan'' (Some \<circ> s_plan) id (p_id p) (db_subs d) = None))"
proof -
  have orgs: "(if o_created_by x = Some k then x\<lparr>o_created_by := None\<rparr> else x) =
      x\<lparr>o_created_by := null_if k (o_created_by x)\<rparr>" for x :: organization
    by (cases x) (simp add: null_if_def)
  have invites: "(if i_invited_by x = Some k then x\<lparr>i_invited_by := None\<rparr> else x) =
      x\<lparr>i_invited_by := null_if k (i_invited_by x)\<rparr>" for x :: invitation
    by (cases x) (simp add: null_if_def)
  have projects: "(if pr_created_by x = Some k then x\<lparr>pr_created_by := None\<rparr> else x) =
      x\<lparr>pr_created_by := null_if k (pr_created_by x)\<rparr>" for x :: project
    by (cases x) (simp add: null_if_def)
  show ?thesis
    unfolding relations delete_effect_def delete_rules Let_def
    by (auto simp: organization_delete_def user_delete_def orgs invites projects
        tbl_update_where_def unseed_plans_migration_def tbl_exists_iff tbl_filter_def split: if_splits)
qed

end
