(* ===== verification/Routing.thy ===== *)
theory Routing
  imports Lifecycle Settings
begin

section \<open>Routes and the gate in front of them (the URL configurations, the views' permission classes)\<close>

text \<open>
  The URL configurations as data, resolved the way Django does (the first pattern that matches, an
  include strips its prefix; a router registers the list, the detail and the extra actions of a
  viewset), and what every view demands before its handler runs. A handler is reached only through
  the gate: the permission classes first, then the method.
\<close>

subsection \<open>Views\<close>

datatype view =
    Landing | Admin_Site | Healthz | Schema_View | Docs_View
  | Register_View | Verify_Email_View | Login_View | Refresh_View
  | Password_Reset_Request_View | Password_Reset_Confirm_View | Me_View
  | Plans_View | Subscription_View | Checkout_View | Portal_View | Webhook_View
  | Invitation_Accept_View
  | Organization_List | Organization_Detail string | Organization_Members string
  | Organization_Member string string | Organization_Invitations string
  | Project_List_View | Project_Detail_View string

datatype viewset = Organization_Viewset | Project_Viewset

datatype pattern =
    Url_Path string view
  | Include string "pattern list"
  | Mount string view \<comment> \<open>a site of the framework's with its own routes\<close>
  | Router_Register string viewset \<comment> \<open>\<open>SimpleRouter(trailing_slash=False).register\<close>\<close>

definition accounts_urls :: "pattern list" where
  "accounts_urls =
     [Url_Path ''register'' Register_View, Url_Path ''verify-email'' Verify_Email_View,
      Url_Path ''login'' Login_View, Url_Path ''token/refresh'' Refresh_View,
      Url_Path ''password-reset'' Password_Reset_Request_View,
      Url_Path ''password-reset/confirm'' Password_Reset_Confirm_View, Url_Path ''me'' Me_View]"

definition organizations_urls :: "pattern list" where
  "organizations_urls =
     [Url_Path ''invitations/accept'' Invitation_Accept_View,
      Router_Register ''organizations'' Organization_Viewset]"

definition billing_urls :: "pattern list" where
  "billing_urls =
     [Url_Path ''plans'' Plans_View, Url_Path ''subscription'' Subscription_View,
      Url_Path ''checkout'' Checkout_View, Url_Path ''portal'' Portal_View, Url_Path ''webhook'' Webhook_View]"

definition projects_urls :: "pattern list" where
  "projects_urls = [Router_Register ''projects'' Project_Viewset]"

definition root_urls :: "pattern list" where
  "root_urls =
     [Url_Path [] Landing, Mount ''admin/'' Admin_Site, Url_Path ''healthz'' Healthz,
      Url_Path ''api/schema'' Schema_View, Url_Path ''api/docs'' Docs_View,
      Include ''api/auth/'' accounts_urls, Include ''api/'' organizations_urls,
      Include ''api/billing/'' billing_urls, Include ''api/'' projects_urls]"

subsection \<open>Resolution\<close>

fun strip_prefix :: "string \<Rightarrow> string \<Rightarrow> string option" where
  "strip_prefix [] s = Some s"
| "strip_prefix (c # cs) [] = None"
| "strip_prefix (c # cs) (x # xs) = (if c = x then strip_prefix cs xs else None)"

lemma strip_prefix_append [simp]: "strip_prefix p (p @ s) = Some s"
  by (induction p) auto

definition lookup_value :: "string \<Rightarrow> bool" where
  \<comment> \<open>\<open>[^/.]+\<close>\<close>
  "lookup_value s \<longleftrightarrow> s \<noteq> [] \<and> list_all (\<lambda>c. c \<noteq> CHR ''/'' \<and> c \<noteq> CHR ''.'') s"

definition router_match :: "viewset \<Rightarrow> string list \<Rightarrow> view option" where
  \<comment> \<open>the segments after the prefix; the extra actions are those of \<open>@action(detail=True)\<close>\<close>
  "router_match vs segs =
     (case (vs, segs) of
        (Organization_Viewset, []) \<Rightarrow> Some Organization_List
      | (Organization_Viewset, [pk]) \<Rightarrow> if lookup_value pk then Some (Organization_Detail pk) else None
      | (Organization_Viewset, [pk, action]) \<Rightarrow>
          if \<not> lookup_value pk then None
          else if action = ''invitations'' then Some (Organization_Invitations pk)
          else if action = ''members'' then Some (Organization_Members pk)
          else None
      | (Organization_Viewset, [pk, action, mpk]) \<Rightarrow>
          if lookup_value pk \<and> action = ''members'' \<and> lookup_value mpk
          then Some (Organization_Member pk mpk) else None
      | (Project_Viewset, []) \<Rightarrow> Some Project_List_View
      | (Project_Viewset, [pk]) \<Rightarrow> if lookup_value pk then Some (Project_Detail_View pk) else None
      | _ \<Rightarrow> None)"

fun match_pattern :: "pattern \<Rightarrow> string \<Rightarrow> view option"
  and match_patterns :: "pattern list \<Rightarrow> string \<Rightarrow> view option" where
  "match_pattern (Url_Path p v) s = (if s = p then Some v else None)"
| "match_pattern (Mount p v) s = (case strip_prefix p s of None \<Rightarrow> None | Some _ \<Rightarrow> Some v)"
| "match_pattern (Include p ps) s =
     (case strip_prefix p s of None \<Rightarrow> None | Some rest \<Rightarrow> match_patterns ps rest)"
| "match_pattern (Router_Register p vs) s =
     (case str_split (CHR ''/'') s of
        [] \<Rightarrow> None
      | w # ws \<Rightarrow> if w = p then router_match vs ws else None)"
| "match_patterns [] s = None"
| "match_patterns (p # ps) s =
     (case match_pattern p s of Some v \<Rightarrow> Some v | None \<Rightarrow> match_patterns ps s)"

definition resolve :: "string \<Rightarrow> view option" where
  "resolve = match_patterns root_urls"

subsection \<open>View classes\<close>

text \<open>
  A view class as the attributes the framework reads. The views of libraries (the token refresh of
  the JWT package, the schema and documentation views) are arguments, as is the admin site.
\<close>

record view_class =
  vc_authenticates :: bool \<comment> \<open>false: \<open>authentication_classes = []\<close>\<close>
  vc_permissions :: "(permission \<times> string) list"
  vc_throttle_scope :: "string option"
  vc_handlers :: "http_method list" \<comment> \<open>the methods the class defines or the router binds\<close>

record viewset_class =
  vs_permissions :: "(permission \<times> string) list"
  vs_http_method_names :: "http_method list"

record library_views =
  lv_token_refresh :: view_class
  lv_schema :: "(permission \<times> string) list \<Rightarrow> view_class" \<comment> \<open>of \<open>SERVE_PERMISSIONS\<close>\<close>
  lv_docs :: "(permission \<times> string) list \<Rightarrow> view_class"

definition AllowAny :: permission where
  "AllowAny d request = (True, request)"

definition api_view :: "(permission \<times> string) list \<Rightarrow> http_method list \<Rightarrow> view_class" where
  "api_view permissions handlers = \<lparr>vc_authenticates = True, vc_permissions = permissions,
     vc_throttle_scope = None, vc_handlers = handlers\<rparr>"

definition scoped_view :: "string \<Rightarrow> view_class" where
  \<comment> \<open>a public \<open>POST\<close> view with a \<open>throttle_scope\<close>\<close>
  "scoped_view scope = (api_view [(AllowAny, [])] [POST])\<lparr>vc_throttle_scope := Some scope\<rparr>"

definition RegisterView :: view_class where
  "RegisterView = scoped_view ''register''"
definition VerifyEmailView :: view_class where
  "VerifyEmailView = scoped_view ''email_verify''"
definition LoginView :: view_class where
  "LoginView = scoped_view ''login''"
definition RefreshView :: "view_class \<Rightarrow> view_class" where
  \<comment> \<open>the argument is the base class\<close>
  "RefreshView base = base\<lparr>vc_throttle_scope := Some ''login''\<rparr>"
definition PasswordResetRequestView :: view_class where
  "PasswordResetRequestView = scoped_view ''password_reset''"
definition PasswordResetConfirmView :: view_class where
  "PasswordResetConfirmView = scoped_view ''password_reset''"
definition MeView :: view_class where
  "MeView = api_view [(IsAuthenticated, [])] [GET]"

definition PlansView :: view_class where
  "PlansView = api_view [(IsAuthenticated, [])] [GET]"
definition SubscriptionView :: view_class where
  "SubscriptionView = api_view tenant_permissions [GET]"
definition CheckoutView :: view_class where
  "CheckoutView = api_view owner_permissions [POST]"
definition PortalView :: view_class where
  "PortalView = api_view owner_permissions [POST]"
definition WebhookView :: view_class where
  "WebhookView = (api_view [(AllowAny, [])] [POST])\<lparr>vc_authenticates := False\<rparr>"

definition InvitationAcceptView :: view_class where
  "InvitationAcceptView = api_view [(IsAuthenticated, [])] [POST]"

definition OrganizationViewSet :: viewset_class where
  "OrganizationViewSet = \<lparr>vs_permissions = org_permissions,
     vs_http_method_names = [GET, POST, PATCH, DELETE, HEAD, OPTIONS]\<rparr>"
definition ProjectViewSet :: viewset_class where
  \<comment> \<open>the framework's \<open>http_method_names\<close>\<close>
  "ProjectViewSet = \<lparr>vs_permissions = project_permissions,
     vs_http_method_names = [GET, POST, PUT, PATCH, DELETE, HEAD, OPTIONS]\<rparr>"

definition routed :: "viewset_class \<Rightarrow> http_method list \<Rightarrow> view_class" where
  \<comment> \<open>the methods a route maps to actions, as far as \<open>http_method_names\<close> has them\<close>
  "routed vs bound =
     api_view (vs_permissions vs) (filter (\<lambda>m. m \<in> set (vs_http_method_names vs)) bound)"

definition docs_permission_class :: "string \<Rightarrow> permission" where
  "docs_permission_class name =
     (if name = ''rest_framework.permissions.IsAuthenticated'' then IsAuthenticated else AllowAny)"

definition class_of :: "library_views \<Rightarrow> string \<Rightarrow> view \<Rightarrow> view_class option" where
  \<comment> \<open>the second argument: \<open>DOCS_PERMISSION\<close>; \<open>None\<close>: not a view of the REST framework\<close>
  "class_of lib docs v =
     (case v of
        Landing \<Rightarrow> None | Admin_Site \<Rightarrow> None | Healthz \<Rightarrow> None
      | Schema_View \<Rightarrow> Some (lv_schema lib [(docs_permission_class docs, [])])
      | Docs_View \<Rightarrow> Some (lv_docs lib [(docs_permission_class docs, [])])
      | Register_View \<Rightarrow> Some RegisterView
      | Verify_Email_View \<Rightarrow> Some VerifyEmailView
      | Login_View \<Rightarrow> Some LoginView
      | Refresh_View \<Rightarrow> Some (RefreshView (lv_token_refresh lib))
      | Password_Reset_Request_View \<Rightarrow> Some PasswordResetRequestView
      | Password_Reset_Confirm_View \<Rightarrow> Some PasswordResetConfirmView
      | Me_View \<Rightarrow> Some MeView
      | Plans_View \<Rightarrow> Some PlansView
      | Subscription_View \<Rightarrow> Some SubscriptionView
      | Checkout_View \<Rightarrow> Some CheckoutView
      | Portal_View \<Rightarrow> Some PortalView
      | Webhook_View \<Rightarrow> Some WebhookView
      | Invitation_Accept_View \<Rightarrow> Some InvitationAcceptView
      | Organization_List \<Rightarrow> Some (routed OrganizationViewSet [GET, POST])
      | Organization_Detail _ \<Rightarrow> Some (routed OrganizationViewSet [GET, PUT, PATCH, DELETE])
      | Organization_Members _ \<Rightarrow> Some (routed OrganizationViewSet [GET])
      | Organization_Member _ _ \<Rightarrow> Some (routed OrganizationViewSet [PATCH, DELETE])
      | Organization_Invitations _ \<Rightarrow> Some (routed OrganizationViewSet [GET, POST])
      | Project_List_View \<Rightarrow> Some (routed ProjectViewSet [GET, POST])
      | Project_Detail_View _ \<Rightarrow> Some (routed ProjectViewSet [GET, PUT, PATCH, DELETE]))"

subsection \<open>The gate\<close>

definition class_methods :: "view_class \<Rightarrow> http_method set" where
  \<comment> \<open>\<open>HEAD\<close> is answered with \<open>get\<close>, and every class has \<open>options\<close>\<close>
  "class_methods vc =
     set (vc_handlers vc) \<union> {OPTIONS} \<union> (if GET \<in> set (vc_handlers vc) then {HEAD} else {})"

definition class_permissions :: "view_class \<Rightarrow> db \<Rightarrow> request \<Rightarrow> exn + request" where
  "class_permissions vc d request =
     check_permissions (vc_permissions vc) d
       (if vc_authenticates vc then request else request\<lparr>rq_user := None\<rparr>)"

definition require_GET :: "(request \<Rightarrow> 'a) \<Rightarrow> request \<Rightarrow> exn + 'a" where
  "require_GET view request = (if rq_method request = GET then Inr (view request) else Inl MethodNotAllowed)"

definition healthz :: "request \<Rightarrow> exn + response" where
  "healthz = require_GET (\<lambda>_. (200, JObj [(''status'', JStr ''ok'')]))"

definition landing :: "(string \<Rightarrow> 'a) \<Rightarrow> request \<Rightarrow> exn + 'a" where
  \<comment> \<open>the argument renders a template\<close>
  "landing render = require_GET (\<lambda>request. render ''landing.html'')"

definition gate :: "library_views \<Rightarrow> string \<Rightarrow> db \<Rightarrow> view \<Rightarrow> request \<Rightarrow> exn + request" where
  \<comment> \<open>\<open>dispatch\<close> of a class: permissions, then the handler for the method\<close>
  "gate lib docs d v request =
     (case class_of lib docs v of
        None \<Rightarrow> (if v = Admin_Site then Inr request else require_GET id request)
      | Some vc \<Rightarrow>
          bind_res (class_permissions vc d request) (\<lambda>request'.
            if rq_method request \<in> class_methods vc then Inr request' else Inl MethodNotAllowed))"

definition dispatch :: "library_views \<Rightarrow> string \<Rightarrow> db \<Rightarrow> string \<Rightarrow> request \<Rightarrow> exn + (view \<times> request)" where
  "dispatch lib docs d path request =
     (case resolve path of
        None \<Rightarrow> Inl Http404
      | Some v \<Rightarrow> bind_res (gate lib docs d v request) (\<lambda>request'. Inr (v, request')))"

subsection \<open>URLs and views name each other\<close>

fun reverse_url :: "view \<Rightarrow> string" where
  \<comment> \<open>the URL of a named route; the admin's is its index\<close>
  "reverse_url Landing = []"
| "reverse_url Admin_Site = ''admin/''"
| "reverse_url Healthz = ''healthz''"
| "reverse_url Schema_View = ''api/schema''"
| "reverse_url Docs_View = ''api/docs''"
| "reverse_url Register_View = ''api/auth/register''"
| "reverse_url Verify_Email_View = ''api/auth/verify-email''"
| "reverse_url Login_View = ''api/auth/login''"
| "reverse_url Refresh_View = ''api/auth/token/refresh''"
| "reverse_url Password_Reset_Request_View = ''api/auth/password-reset''"
| "reverse_url Password_Reset_Confirm_View = ''api/auth/password-reset/confirm''"
| "reverse_url Me_View = ''api/auth/me''"
| "reverse_url Plans_View = ''api/billing/plans''"
| "reverse_url Subscription_View = ''api/billing/subscription''"
| "reverse_url Checkout_View = ''api/billing/checkout''"
| "reverse_url Portal_View = ''api/billing/portal''"
| "reverse_url Webhook_View = ''api/billing/webhook''"
| "reverse_url Invitation_Accept_View = ''api/invitations/accept''"
| "reverse_url Organization_List = ''api/organizations''"
| "reverse_url (Organization_Detail pk) = ''api/organizations/'' @ pk"
| "reverse_url (Organization_Members pk) = ''api/organizations/'' @ pk @ ''/members''"
| "reverse_url (Organization_Member pk mpk) = ''api/organizations/'' @ pk @ ''/members/'' @ mpk"
| "reverse_url (Organization_Invitations pk) = ''api/organizations/'' @ pk @ ''/invitations''"
| "reverse_url Project_List_View = ''api/projects''"
| "reverse_url (Project_Detail_View pk) = ''api/projects/'' @ pk"

fun route_args_ok :: "view \<Rightarrow> bool" where
  "route_args_ok (Organization_Detail pk) = lookup_value pk"
| "route_args_ok (Organization_Members pk) = lookup_value pk"
| "route_args_ok (Organization_Member pk mpk) = (lookup_value pk \<and> lookup_value mpk)"
| "route_args_ok (Organization_Invitations pk) = lookup_value pk"
| "route_args_ok (Project_Detail_View pk) = lookup_value pk"
| "route_args_ok _ = True"

lemma strip_prefix_iff: "strip_prefix p s = Some r \<longleftrightarrow> s = p @ r"
  by (induction p s rule: strip_prefix.induct) auto

lemma str_split_not_Nil [simp]: "str_split sep s \<noteq> []"
  by (cases s) (auto split: list.splits)

lemma join_str_split [simp]: "join_with sep (str_split sep s) = s"
proof (induction s)
  case (Cons c cs)
  obtain w ws where "str_split sep cs = w # ws" by (cases "str_split sep cs") auto
  with Cons show ?case by (cases ws) auto
qed simp

lemma str_split_eqD: "str_split sep s = ws \<Longrightarrow> s = join_with sep ws"
  using join_str_split by metis

lemma lookup_value_no_slash: "lookup_value s \<Longrightarrow> CHR ''/'' \<notin> set s"
  by (auto simp: lookup_value_def list_all_iff)

lemma router_match_sound:
  assumes "router_match vs ws = Some v" and s: "str_split (CHR ''/'') s = p # ws"
    and p: "p = (case vs of Organization_Viewset \<Rightarrow> ''organizations'' | Project_Viewset \<Rightarrow> ''projects'')"
  shows "''api/'' @ s = reverse_url v \<and> route_args_ok v \<and> v \<noteq> Admin_Site"
  using assms(1) str_split_eqD [OF s] p
  by (auto simp: router_match_def split: viewset.splits list.splits if_splits)

lemma register_sound:
  "match_pattern (Router_Register ''organizations'' Organization_Viewset) s = Some v \<Longrightarrow>
     ''api/'' @ s = reverse_url v \<and> route_args_ok v \<and> v \<noteq> Admin_Site"
  "match_pattern (Router_Register ''projects'' Project_Viewset) s = Some v \<Longrightarrow>
     ''api/'' @ s = reverse_url v \<and> route_args_ok v \<and> v \<noteq> Admin_Site"
  using router_match_sound [of Organization_Viewset _ v s] router_match_sound [of Project_Viewset _ v s]
  by (auto split: list.splits if_splits simp del: append.simps)

lemma app_urls_sound:
  "match_patterns accounts_urls s = Some v \<Longrightarrow> ''api/auth/'' @ s = reverse_url v \<and> route_args_ok v \<and> v \<noteq> Admin_Site"
  "match_patterns billing_urls s = Some v \<Longrightarrow> ''api/billing/'' @ s = reverse_url v \<and> route_args_ok v \<and> v \<noteq> Admin_Site"
  "match_patterns organizations_urls s = Some v \<Longrightarrow> ''api/'' @ s = reverse_url v \<and> route_args_ok v \<and> v \<noteq> Admin_Site"
  "match_patterns projects_urls s = Some v \<Longrightarrow> ''api/'' @ s = reverse_url v \<and> route_args_ok v \<and> v \<noteq> Admin_Site"
proof -
  show "match_patterns accounts_urls s = Some v \<Longrightarrow> ''api/auth/'' @ s = reverse_url v \<and> route_args_ok v \<and> v \<noteq> Admin_Site"
    "match_patterns billing_urls s = Some v \<Longrightarrow> ''api/billing/'' @ s = reverse_url v \<and> route_args_ok v \<and> v \<noteq> Admin_Site"
    by (auto simp: accounts_urls_def billing_urls_def split: if_splits)
  show "match_patterns organizations_urls s = Some v \<Longrightarrow> ''api/'' @ s = reverse_url v \<and> route_args_ok v \<and> v \<noteq> Admin_Site"
    using register_sound(1) [of s v]
    by (auto simp: organizations_urls_def simp del: match_pattern.simps(4) split: if_splits option.splits)
  show "match_patterns projects_urls s = Some v \<Longrightarrow> ''api/'' @ s = reverse_url v \<and> route_args_ok v \<and> v \<noteq> Admin_Site"
    using register_sound(2) [of s v]
    by (auto simp: projects_urls_def simp del: match_pattern.simps(4) split: option.splits)
qed

lemma resolve_sound:
  assumes "resolve s = Some v" "v \<noteq> Admin_Site"
  shows "s = reverse_url v \<and> route_args_ok v"
proof -
  have include_sound: "s = reverse_url v \<and> route_args_ok v \<and> v \<noteq> Admin_Site"
    if "match_pattern (Include p ps) s = Some v"
      and "\<And>r. match_patterns ps r = Some v \<Longrightarrow> p @ r = reverse_url v \<and> route_args_ok v \<and> v \<noteq> Admin_Site"
    for p ps
    using that by (auto simp: strip_prefix_iff split: option.splits)
  show ?thesis
    using assms include_sound [OF _ app_urls_sound(1)] include_sound [OF _ app_urls_sound(2)]
      include_sound [OF _ app_urls_sound(3)] include_sound [OF _ app_urls_sound(4)]
    unfolding resolve_def root_urls_def
    by (auto simp del: match_pattern.simps(3) append.simps split: option.splits if_splits)
qed

lemma resolve_complete: "route_args_ok v \<Longrightarrow> resolve (reverse_url v) = Some v"
proof -
  note defs = resolve_def root_urls_def accounts_urls_def organizations_urls_def billing_urls_def
    projects_urls_def router_match_def str_split_word str_split_append lookup_value_no_slash
  show "route_args_ok v \<Longrightarrow> resolve (reverse_url v) = Some v"
    by (cases v) (simp_all add: defs)
qed

text \<open>The routing table is unambiguous and complete: outside the admin site, a path resolves to a
  view exactly if it is that view's URL with well-formed arguments. No pattern shadows another
  across the four included URL configurations, and no view answers under a second path.\<close>

theorem url_names_view:
  assumes "v \<noteq> Admin_Site"
  shows "resolve path = Some v \<longleftrightarrow> path = reverse_url v \<and> route_args_ok v"
  using assms resolve_sound resolve_complete by blast

theorem url_names_view_witness:
  "resolve ''api/organizations/7/members/9'' = Some (Organization_Member ''7'' ''9'')"
proof -
  have "''api/organizations/7/members/9'' = reverse_url (Organization_Member ''7'' ''9'') \<and>
      route_args_ok (Organization_Member ''7'' ''9'')"
    by (simp add: lookup_value_def)
  then show ?thesis
    using url_names_view [of "Organization_Member ''7'' ''9''" "''api/organizations/7/members/9''"] by blast
qed

subsection \<open>Who gets through\<close>

definition library_views_ok :: "library_views \<Rightarrow> bool" where
  \<comment> \<open>the refresh view is public, the documentation views take the permissions they are given\<close>
  "library_views_ok lib \<longleftrightarrow> vc_permissions (lv_token_refresh lib) = [] \<and>
     (\<forall>ps. vc_permissions (lv_schema lib ps) = ps) \<and> (\<forall>ps. vc_permissions (lv_docs lib ps) = ps)"

definition public_views :: "bool \<Rightarrow> view set" where
  \<comment> \<open>the views open to anybody; the argument is \<open>DOCS_REQUIRE_AUTH\<close>\<close>
  "public_views docs_private =
     {Landing, Admin_Site, Healthz, Register_View, Verify_Email_View, Login_View, Refresh_View,
      Password_Reset_Request_View, Password_Reset_Confirm_View, Webhook_View} \<union>
     (if docs_private then {} else {Schema_View, Docs_View})"

named_theorems view_class_defs

declare scoped_view_def [view_class_defs] api_view_def [view_class_defs] routed_def [view_class_defs]
  RegisterView_def [view_class_defs] VerifyEmailView_def [view_class_defs] LoginView_def [view_class_defs]
  RefreshView_def [view_class_defs] PasswordResetRequestView_def [view_class_defs]
  PasswordResetConfirmView_def [view_class_defs] MeView_def [view_class_defs]
  PlansView_def [view_class_defs] SubscriptionView_def [view_class_defs]
  CheckoutView_def [view_class_defs] PortalView_def [view_class_defs] WebhookView_def [view_class_defs]
  InvitationAcceptView_def [view_class_defs] OrganizationViewSet_def [view_class_defs]
  ProjectViewSet_def [view_class_defs] class_of_def [view_class_defs]

lemmas permission_lists = tenant_permissions_def owner_permissions_def org_permissions_def
  project_permissions_def

lemma AllowAny_simps [simp]: "AllowAny d r = (True, r)"
  by (simp add: AllowAny_def)

lemma docs_class:
  "docs_permission_class (docs_permission env) =
     (if env_bool env ''DOCS_REQUIRE_AUTH'' False then IsAuthenticated else AllowAny)"
  by (simp add: docs_permission_class_def docs_permission_def)

lemma class_permissions_anonymous:
  "rq_user r = None \<Longrightarrow> class_permissions vc d r = check_permissions (vc_permissions vc) d r"
  by (cases r) (simp add: class_permissions_def)

lemma anonymous_class:
  assumes "library_views_ok lib" "class_of lib (docs_permission env) v = Some vc" "rq_user r = None"
  shows "class_permissions vc d r =
    (if v \<in> public_views (env_bool env ''DOCS_REQUIRE_AUTH'' False) then Inr r else Inl NotAuthenticated)"
  unfolding class_permissions_anonymous [OF assms(3)] using assms
  by (cases v) (auto simp: view_class_defs permission_lists docs_class public_views_def
      library_views_ok_def IsAuthenticated_def)

text \<open>C22. Anonymous access at the level of paths: whatever path and method an anonymous request has, it
  is turned away with \<open>NotAuthenticated\<close> exactly if the path belongs to a view outside the public
  list. The documentation views are on that list only while \<open>DOCS_REQUIRE_AUTH\<close> is off.\<close>

theorem anonymous_access:
  assumes "library_views_ok lib"
  shows "dispatch lib (docs_permission env) d path (fresh_request meth None h) = Inl NotAuthenticated \<longleftrightarrow>
     (\<exists>v. resolve path = Some v \<and> v \<notin> public_views (env_bool env ''DOCS_REQUIRE_AUTH'' False))"
proof (cases "resolve path")
  case None
  then show ?thesis by (simp add: dispatch_def)
next
  case path: (Some v)
  have u: "rq_user (fresh_request meth None h) = None" by (simp add: fresh_request_def)
  show ?thesis
  proof (cases "class_of lib (docs_permission env) v")
    case None
    then have "v \<in> {Landing, Admin_Site, Healthz}" by (cases v) (simp_all add: class_of_def)
    with None path show ?thesis
      by (auto simp: dispatch_def gate_def public_views_def require_GET_def guard_simps)
  next
    case (Some vc)
    with path anonymous_class [OF assms Some u, of d] show ?thesis
      by (simp add: dispatch_def gate_def bind_res_def)
  qed
qed

definition demo_library :: library_views where
  "demo_library = \<lparr>lv_token_refresh = \<lparr>vc_authenticates = False, vc_permissions = [],
     vc_throttle_scope = None, vc_handlers = [POST]\<rparr>,
     lv_schema = (\<lambda>ps. api_view ps [GET]), lv_docs = (\<lambda>ps. api_view ps [GET])\<rparr>"

lemma demo_library_ok: "library_views_ok demo_library"
  by (simp add: library_views_ok_def demo_library_def api_view_def)

theorem anonymous_access_witness:
  "dispatch demo_library (docs_permission (\<lambda>_. None)) demo_db ''api/organizations/1''
     (fresh_request DELETE None None) = Inl NotAuthenticated"
proof -
  have "resolve (reverse_url (Organization_Detail ''1'')) = Some (Organization_Detail ''1'')"
    by (rule resolve_complete) (simp add: lookup_value_def)
  then have "resolve ''api/organizations/1'' = Some (Organization_Detail ''1'')" by simp
  then show ?thesis
    unfolding anonymous_access [OF demo_library_ok] by (auto simp: public_views_def)
qed

subsection \<open>Throttle scopes\<close>

text \<open>The rate settings know every scope a view names, and every public view of an account has one.\<close>

lemma throttle_scopes_have_rates:
  assumes "load_settings env = Inr s"
    and "v \<in> {Register_View, Verify_Email_View, Login_View, Refresh_View,
      Password_Reset_Request_View, Password_Reset_Confirm_View}"
  shows "\<exists>vc. class_of lib docs v = Some vc \<and>
    (case vc_throttle_scope vc of None \<Rightarrow> False | Some scope \<Rightarrow> scope \<in> dom (map_of (THROTTLE_RATES s)))"
proof -
  have "THROTTLE_RATES s = throttle_rates env"
    using assms(1) by (auto simp: load_settings_def Let_def bind_res_Inr_iff split: prod.splits)
  with assms(2) show ?thesis by (auto simp: view_class_defs throttle_rates_def)
qed

subsection \<open>The gate and the handlers agree\<close>

text \<open>Where each call of the API arrives: its view, its method and the header it carries.\<close>

fun project_call_view :: "project_call \<Rightarrow> view \<times> http_method" where
  "project_call_view Project_List = (Project_List_View, GET)"
| "project_call_view (Project_Retrieve raw) = (Project_Detail_View raw, GET)"
| "project_call_view (Project_Create now body) = (Project_List_View, POST)"
| "project_call_view (Project_Update meth raw body) = (Project_Detail_View raw, meth)"
| "project_call_view (Project_Destroy raw) = (Project_Detail_View raw, DELETE)"

fun call_route :: "api_call \<Rightarrow> view \<times> http_method \<times> string option" where
  "call_route (Register _ _) = (Register_View, POST, None)"
| "call_route (Verify_Email _ _) = (Verify_Email_View, POST, None)"
| "call_route (Login _) = (Login_View, POST, None)"
| "call_route (Reset_Request _) = (Password_Reset_Request_View, POST, None)"
| "call_route (Reset_Confirm _ _) = (Password_Reset_Confirm_View, POST, None)"
| "call_route (Org_Create _ _) = (Organization_List, POST, None)"
| "call_route (Org_Update raw _) = (Organization_Detail raw, PATCH, None)"
| "call_route (Org_Destroy raw) = (Organization_Detail raw, DELETE, None)"
| "call_route (Member_Call meth raw mpk _) = (Organization_Member raw mpk, meth, None)"
| "call_route (Invitation_Create _ _ raw _) = (Organization_Invitations raw, POST, None)"
| "call_route (Invitation_Accept _ _) = (Invitation_Accept_View, POST, None)"
| "call_route (Project_Call call h) =
     (fst (project_call_view call), snd (project_call_view call), h)"
| "call_route (Checkout _ h) = (Checkout_View, POST, h)"
| "call_route (Webhook _ _ _) = (Webhook_View, POST, None)"

definition call_permissions :: "library_views \<Rightarrow> string \<Rightarrow> api_call \<Rightarrow> user option \<Rightarrow> db \<Rightarrow> exn + request" where
  \<comment> \<open>what the classes say of the call, before its handler\<close>
  "call_permissions lib docs call u d =
     (case call_route call of (v, meth, h) \<Rightarrow>
        (case class_of lib docs v of
           None \<Rightarrow> Inr (fresh_request meth u h)
         | Some vc \<Rightarrow> class_permissions vc d (fresh_request meth u h)))"

lemma IsAuthenticated_fresh [simp]:
  "IsAuthenticated d (fresh_request meth u h) = (u \<noteq> None, fresh_request meth u h)"
  by (simp add: IsAuthenticated_def fresh_request_def)

lemma org_get_object_anonymous [simp]: "org_get_object raw d None = Inl NotAuthenticated"
  by (simp add: org_get_object_def guard_simps)

text \<open>The model's handlers and the declared classes agree on what is refused.\<close>

lemma refused_project_step:
  assumes "check_permissions project_permissions d (fresh_request (snd (project_call_view call)) u h) = Inl e"
  shows "snd (project_step call u h d) = d"
  using assms
  by (cases call) (simp_all add: map_outcome_def project_create_def project_update_def
      project_destroy_def guard_simps)

lemma refused_api_step:
  assumes "call_permissions lib docs call u d = Inl e"
  shows "api_step sv call u d = d"
proof -
  note defs = call_permissions_def class_permissions_def view_class_defs
  show ?thesis
  proof (cases call)
    case (Project_Call pc h)
    have "check_permissions project_permissions d (fresh_request (snd (project_call_view pc)) u h) = Inl e"
      using assms Project_Call by (cases pc) (simp_all add: defs)
    with Project_Call refused_project_step show ?thesis by simp
  next
    case (Checkout body h)
    then have "check_permissions owner_permissions d (fresh_request POST u h) = Inl e"
      using assms by (simp add: defs)
    with Checkout show ?thesis by (simp add: checkout_view_def)
  qed (use assms in \<open>auto simp: defs org_permissions_def org_create_def org_update_def org_destroy_def
      member_action_def invitation_create_def invitation_accept_def guard_simps split: bool.splits\<close>)
qed

lemma project_call_view_private: "fst (project_call_view pc) \<notin> public_views b"
  by (cases pc) (simp_all add: public_views_def)

text \<open>Anonymous callers write through the public endpoints only.\<close>

lemma anonymous_writes:
  assumes "fst (call_route call) \<notin> public_views True"
  shows "api_step sv call None d = d"
proof -
  obtain v meth h where r: "call_route call = (v, meth, h)" by (cases "call_route call")
  let ?env = "\<lambda>_. None :: string option"
  have u: "rq_user (fresh_request meth None h) = None" by (simp add: fresh_request_def)
  have not_public: "v \<notin> public_views b" for b
    using assms r project_call_view_private [of _ b] by (cases call) (auto simp: public_views_def)
  from not_public obtain vc where vc: "class_of demo_library (docs_permission ?env) v = Some vc"
    by (cases v) (auto simp: public_views_def class_of_def)
  from anonymous_class [OF demo_library_ok vc u, of d] not_public r vc
  have "call_permissions demo_library (docs_permission ?env) call None d = Inl NotAuthenticated"
    by (simp add: call_permissions_def)
  then show ?thesis by (rule refused_api_step)
qed

end
