(* ===== verification/Deployment.thy ===== *)
theory Deployment
  imports Seeding
begin

section \<open>A deployment over time: API calls and management commands\<close>

text \<open>
  What can happen to the database of a running deployment: calls of the API, and the operator's
  commands (\<open>seed_plans\<close>, \<open>seed_demo\<close>, the backfill of a migration) in between. The invariant of the
  API survives the commands too, although \<open>seed_demo\<close> creates its organization before the Owner:
  \<open>rows_ok\<close> is the part that holds at every step, \<open>owned_but\<close> the part that holds outside one
  organization. Then an address that was registered with upper-case letters is followed through
  everything that can happen after.
\<close>

subsection \<open>What holds at every step of a command\<close>

definition rows_ok :: "db \<Rightarrow> bool" where
  "rows_ok d \<longleftrightarrow> keys_ok d \<and> refs_ok d \<and> unique_ok d \<and> statuses_ok d \<and> emails_lower d"

definition owned_but :: "key \<Rightarrow> db \<Rightarrow> bool" where
  \<comment> \<open>every organization but one has an Owner\<close>
  "owned_but k d \<longleftrightarrow>
     (\<forall>org \<in> set (tb_rows (db_orgs d)). o_id org \<noteq> k \<longrightarrow>
        (\<exists>m \<in> set (tb_rows (db_members d)). m_org m = o_id org \<and> m_role m = OWNER))"

definition has_owner :: "key \<Rightarrow> db \<Rightarrow> bool" where
  "has_owner k d \<longleftrightarrow> (\<exists>m \<in> set (tb_rows (db_members d)). m_org m = k \<and> m_role m = OWNER)"

lemma api_ok_rows: "api_ok d \<longleftrightarrow> rows_ok d \<and> owned d"
  by (auto simp: api_ok_def db_inv_def rows_ok_def)

lemma owned_but_one: "owned_but k d \<Longrightarrow> has_owner k d \<Longrightarrow> owned d"
  by (auto simp: owned_but_def has_owner_def owned_def)

lemma owned_owned_but: "owned d \<Longrightarrow> owned_but k d"
  by (simp add: owned_but_def owned_def)

lemma owned_but_mono:
  "owned_but k d \<Longrightarrow> db_orgs d' = db_orgs d \<Longrightarrow>
   set (tb_rows (db_members d)) \<subseteq> set (tb_rows (db_members d')) \<Longrightarrow> owned_but k d'"
  by (fastforce simp: owned_but_def)

lemma has_owner_mono:
  "has_owner k d \<Longrightarrow> set (tb_rows (db_members d)) \<subseteq> set (tb_rows (db_members d')) \<Longrightarrow> has_owner k d'"
  by (auto simp: has_owner_def)

named_theorems rows_parts
declare rows_ok_def [rows_parts] keys_ok_def [rows_parts] refs_ok_def [rows_parts]
  unique_ok_def [rows_parts] statuses_ok_def [rows_parts] emails_lower_def [rows_parts]
  org_keys_def [rows_parts]

lemma rows_insert_org:
  assumes "rows_ok d" "\<not> tbl_exists (\<lambda>x. o_slug x = o_slug org) (db_orgs d)"
  shows "rows_ok (d\<lparr>db_orgs := tbl_insert set_o_id org (db_orgs d)\<rparr>)"
  using assms by (auto simp: rows_parts intro!: slug_key.unique_insert)

lemma rows_insert_member:
  assumes "rows_ok d" "m_org m \<in> org_keys d"
    "\<not> tbl_exists (\<lambda>x. member_pair x = member_pair m) (db_members d)"
  shows "rows_ok (d\<lparr>db_members := tbl_insert set_m_id m (db_members d)\<rparr>)"
  using assms by (auto simp: rows_parts intro!: pair_key.unique_insert)

lemma rows_insert_user:
  assumes "rows_ok d" "\<not> tbl_exists (\<lambda>x. u_email x = u_email u) (db_users d)"
    "str_lower (u_email u) = u_email u"
  shows "rows_ok (d\<lparr>db_users := tbl_insert set_u_id u (db_users d)\<rparr>)"
  using assms by (auto simp: rows_parts intro!: email_key.unique_insert)

lemma rows_insert_project:
  assumes "rows_ok d" "pr_org p \<in> org_keys d"
  shows "rows_ok (d\<lparr>db_projects := tbl_insert set_pr_id p (db_projects d)\<rparr>)"
  using assms by (auto simp: rows_parts)

lemma rows_insert_sub:
  assumes "rows_ok d" "s_org s \<in> org_keys d" "s_status s \<in> STATUSES"
    "\<not> tbl_exists (\<lambda>x. s_org x = s_org s) (db_subs d)"
  shows "rows_ok (d\<lparr>db_subs := tbl_insert set_s_id s (db_subs d)\<rparr>)"
  using assms by (auto simp: rows_parts intro!: sub_key.unique_insert)

lemma rows_update_user:
  assumes "rows_ok d" "\<And>u. u_id (f u) = u_id u" "\<And>u. u_email (f u) = u_email u"
  shows "rows_ok (d\<lparr>db_users := tbl_update_where P f (db_users d)\<rparr>)"
  using assms by (auto simp: rows_parts intro!: email_key.unique_update user_t.wf_update)

lemma rows_update_org:
  assumes "rows_ok d" "\<And>x. o_id (f x) = o_id x" "\<And>x. o_slug (f x) = o_slug x"
  shows "rows_ok (d\<lparr>db_orgs := tbl_update_where P f (db_orgs d)\<rparr>)"
proof -
  have "org_keys (d\<lparr>db_orgs := tbl_update_where P f (db_orgs d)\<rparr>) = org_keys d"
    using update_image_key [of "db_orgs d" P o_id f] assms(2)
    by (simp add: org_keys_def del: tbl_rows_simps)
  with assms show ?thesis
    by (auto simp: rows_ok_def keys_ok_def refs_ok_def unique_ok_def statuses_ok_def emails_lower_def
        intro!: slug_key.unique_update org_t.wf_update)
qed

lemma rows_plan: "rows_ok d \<Longrightarrow> rows_ok (update_or_create_plan code name limits price d)"
  using fold_plans_frame(1) [of d code name limits price]
  by (auto simp: rows_ok_def update_or_create_plan_def refs_ok_def unique_ok_def statuses_ok_def
      emails_lower_def org_keys_def)

lemma rows_subscription:
  "rows_ok d \<Longrightarrow> k \<in> org_keys d \<Longrightarrow> rows_ok (get_or_create_subscription now k p d)"
  using rows_insert_sub [of d "new_subscription now k p"]
  by (auto simp: get_or_create_subscription_def new_subscription_def sub_of_org_None tbl_exists_iff
      STATUSES_def split: option.splits)

lemma seed_plans_rows:
  "rows_ok d \<Longrightarrow> rows_ok (seed_plans_command setting d)"
  "db_orgs (seed_plans_command setting d) = db_orgs d"
  "db_members (seed_plans_command setting d) = db_members d"
  by (simp_all add: seed_plans_command_def DEFAULT_PLANS_def rows_plan fold_plans_frame)

lemma backfill_rows:
  assumes "rows_ok d"
  shows "rows_ok (backfill now d) \<and> db_orgs (backfill now d) = db_orgs d \<and>
    db_members (backfill now d) = db_members d"
proof -
  have *: "rows_ok (fold (\<lambda>org. get_or_create_subscription now (o_id org) f) os d) \<and>
      db_orgs (fold (\<lambda>org. get_or_create_subscription now (o_id org) f) os d) = db_orgs d \<and>
      db_members (fold (\<lambda>org. get_or_create_subscription now (o_id org) f) os d) = db_members d"
    if "rows_ok d" "o_id ` set os \<subseteq> org_keys d" for os f d
    using that
  proof (induction os arbitrary: d)
    case (Cons org os)
    let ?d = "get_or_create_subscription now (o_id org) f d"
    have same: "db_orgs ?d = db_orgs d" "db_members ?d = db_members d"
      by (simp_all add: get_or_create_subscription_def split: option.splits)
    have "rows_ok ?d" using Cons.prems by (simp add: rows_subscription)
    moreover have "o_id ` set os \<subseteq> org_keys ?d" using Cons.prems same by (simp add: org_keys_def)
    ultimately show ?case using Cons.IH [of ?d] same by simp
  qed simp
  show ?thesis
    using * [OF assms, of "tbl_filter (\<lambda>org. sub_of_org (o_id org) d = None) (db_orgs d)"] assms
    by (auto simp: backfill_def org_keys_def tbl_filter_def split: option.splits)
qed

subsection \<open>The demo command\<close>

lemma get_or_create_org_rows:
  assumes "rows_ok d" and run: "get_or_create_org now slug name d = (Inr org, d')"
  shows "rows_ok d' \<and> o_id org \<in> org_keys d' \<and> db_members d' = db_members d \<and>
    (owned d \<longrightarrow> owned_but (o_id org) d') \<and>
    (d' = d \<or> (\<forall>m \<in> set (tb_rows (db_members d)). m_org m \<noteq> o_id org))"
proof (cases "tbl_first (\<lambda>x. o_slug x = slug) (db_orgs d)")
  case (Some x)
  with run have "d' = d" "x = org" by (simp_all add: get_or_create_org_def)
  with assms(1) tbl_first_Some [OF Some] show ?thesis
    by (auto simp: org_keys_def owned_owned_but)
next
  case None
  let ?row = "\<lparr>o_id = 0, o_name = name, o_slug = slug, o_created_by = None, o_created_at = now\<rparr>"
  let ?k = "tb_next (db_orgs d)"
  let ?d = "d\<lparr>db_orgs := tbl_insert set_o_id ?row (db_orgs d)\<rparr>"
  from None run have org: "org = set_o_id ?k ?row" "d' = create_free_subscription True now ?k ?d"
    and free: "\<not> tbl_exists (\<lambda>x. o_slug x = slug) (db_orgs d)"
    by (auto simp: get_or_create_org_def organization_insert_def bind_res_Inr_iff split: sum.splits if_splits)
  have "rows_ok ?d" using assms(1) free by (simp add: rows_insert_org)
  moreover have "?k \<in> org_keys ?d" by (simp add: org_keys_def)
  ultimately have "rows_ok d'"
    unfolding org by (auto simp: create_free_subscription_def rows_subscription split: option.splits)
  moreover have same: "db_orgs d' = db_orgs ?d" "db_members d' = db_members d"
    by (auto simp: org create_free_subscription_def get_or_create_subscription_def split: option.splits)
  moreover have "\<forall>m \<in> set (tb_rows (db_members d)). m_org m \<noteq> ?k"
    using assms(1) fresh_org_key [of d] by (auto simp: rows_ok_def refs_ok_def)
  moreover have "owned_but ?k d'" if "owned d"
    using that same by (auto simp: owned_but_def owned_def)
  ultimately show ?thesis using org(1) by (simp add: org_keys_def)
qed

lemma seed_user_rows:
  assumes ok: "rows_ok d" "k \<in> org_keys d" and low: "str_lower email = email"
    and g: "get_or_create_user now email name d = (Inr u, d1)"
    and r: "reset_demo_user hash u d1 = Inr d2"
    and m: "get_or_create_member now (u_id u) k role d2 = (m, d3)"
  shows "rows_ok d3 \<and> db_orgs d3 = db_orgs d \<and>
    (\<exists>new. tb_rows (db_members d3) = tb_rows (db_members d) @ new) \<and>
    (role = OWNER \<and> (\<forall>m \<in> set (tb_rows (db_members d)). m_org m \<noteq> k) \<longrightarrow> has_owner k d3)"
proof -
  have d1: "rows_ok d1 \<and> db_orgs d1 = db_orgs d \<and> db_members d1 = db_members d"
  proof (cases "tbl_first (\<lambda>x. u_email x = email) (db_users d)")
    case (Some x)
    with g ok show ?thesis by (simp add: get_or_create_user_def)
  next
    case None
    let ?row = "\<lparr>u_id = 0, u_password = [], u_last_login = None, u_is_superuser = False,
      u_first_name = fst (py_partition name), u_last_name = snd (py_partition name),
      u_is_staff = False, u_is_active = True, u_date_joined = now, u_email = email,
      u_is_email_verified = True\<rparr>"
    from None g have row: "d1 = d\<lparr>db_users := tbl_insert set_u_id ?row (db_users d)\<rparr>"
      by (auto simp: get_or_create_user_def user_insert_Inr split: sum.splits)
    moreover have "\<not> tbl_exists (\<lambda>x. u_email x = u_email ?row) (db_users d)"
      using None by (simp add: tbl_first_None tbl_exists_iff)
    ultimately show ?thesis using rows_insert_user [OF ok(1), of ?row] low by simp
  qed
  have d2: "rows_ok d2 \<and> db_orgs d2 = db_orgs d \<and> db_members d2 = db_members d"
    using r d1 by (auto simp: reset_demo_user_def bind_res_Inr_iff intro!: rows_update_user)
  show ?thesis
  proof (cases "find_membership (u_id u) k d2")
    case (Some x)
    then have "x \<in> set (tb_rows (db_members d))" "m_org x = k"
      using find_membership_Some [OF Some] d2 by simp_all
    with Some m d2 show ?thesis by (auto simp: get_or_create_member_def)
  next
    case None
    let ?m = "\<lparr>m_id = 0, m_user = u_id u, m_org = k, m_role = role, m_created_at = now\<rparr>"
    have d3: "d3 = d2\<lparr>db_members := tbl_insert set_m_id ?m (db_members d2)\<rparr>"
      using None m by (simp add: get_or_create_member_def Let_def)
    have "\<not> tbl_exists (\<lambda>x. member_pair x = member_pair ?m) (db_members d2)"
      using None by (simp add: find_membership_def tbl_first_None tbl_exists_iff member_pair_def)
    then have "rows_ok d3" unfolding d3 using d2 ok(2)
      by (intro rows_insert_member) (simp_all add: org_keys_def)
    with d2 show ?thesis by (auto simp: d3 has_owner_def)
  qed
qed

lemma seed_users_rows:
  assumes "rows_ok d" "k \<in> org_keys d" "\<forall>(email, name, role) \<in> set us. str_lower email = email"
    and "seed_users now hashes k us d = (Inr users, d')"
  shows "rows_ok d' \<and> db_orgs d' = db_orgs d \<and>
    (\<exists>new. tb_rows (db_members d') = tb_rows (db_members d) @ new) \<and>
    (us \<noteq> [] \<and> snd (snd (hd us)) = OWNER \<and> (\<forall>m \<in> set (tb_rows (db_members d)). m_org m \<noteq> k) \<longrightarrow>
      has_owner k d')"
  using assms
proof (induction us arbitrary: d users)
  case (Cons a us)
  obtain email name role where a: "a = (email, name, role)" by (cases a)
  with Cons.prems obtain u d1 d2 users' where
    g: "get_or_create_user now email name d = (Inr u, d1)"
    and r: "reset_demo_user (hashes email) u d1 = Inr d2"
    and s: "seed_users now hashes k us (snd (get_or_create_member now (u_id u) k role d2)) =
      (Inr users', d')"
    by (auto split: sum.splits prod.splits)
  obtain m d3 where m: "get_or_create_member now (u_id u) k role d2 = (m, d3)" by fastforce
  have low: "str_lower email = email" using Cons.prems(3) a by simp
  note step = seed_user_rows [OF Cons.prems(1,2) low g r m]
  from s m have s: "seed_users now hashes k us d3 = (Inr users', d')" by simp
  have "k \<in> org_keys d3" using step Cons.prems(2) by (simp add: org_keys_def)
  from Cons.IH [OF _ this _ s] step Cons.prems(3)
  have ih: "rows_ok d' \<and> db_orgs d' = db_orgs d3 \<and>
      (\<exists>new. tb_rows (db_members d') = tb_rows (db_members d3) @ new)" by simp
  with step show ?case unfolding a by (auto simp: has_owner_def)
qed simp

lemma seed_projects_rows:
  "rows_ok d \<Longrightarrow> k \<in> org_keys d \<Longrightarrow> seed_projects now k owner names d = (Inr (), d') \<Longrightarrow>
   rows_ok d' \<and> db_orgs d' = db_orgs d \<and> db_members d' = db_members d"
proof (induction names arbitrary: d)
  case (Cons name names)
  let ?found = "tbl_filter (\<lambda>p. pr_org p = k \<and> pr_name p = name) (db_projects d)"
  let ?p = "\<lparr>pr_id = 0, pr_org = k, pr_name = name, pr_description = ''Demo project.'',
    pr_created_by = Some owner, pr_created_at = now\<rparr>"
  let ?d = "d\<lparr>db_projects := tbl_insert set_pr_id ?p (db_projects d)\<rparr>"
  consider "?found = []" | p where "?found = [p]" | p q ps where "?found = p # q # ps"
    by (metis list.exhaust)
  then show ?case
  proof cases
    case 1
    have "rows_ok ?d" using Cons.prems by (intro rows_insert_project) simp_all
    moreover have "seed_projects now k owner names ?d = (Inr (), d')"
      using Cons.prems 1 by (auto simp: project_insert_def bind_res_def split: sum.splits)
    ultimately show ?thesis using Cons.IH [of ?d] Cons.prems(2) by (simp add: org_keys_def)
  qed (use Cons in auto)
qed simp

lemma claim_org_rows:
  assumes "rows_ok d"
  shows "rows_ok (claim_org k owner d)" "org_keys (claim_org k owner d) = org_keys d"
    "owned (claim_org k owner d) = owned d"
proof -
  show "rows_ok (claim_org k owner d)" unfolding claim_org_def using assms by (rule rows_update_org) simp_all
  have keys: "o_id ` set (tb_rows (db_orgs (claim_org k owner d))) = o_id ` set (tb_rows (db_orgs d))"
    unfolding claim_org_def
    using update_image_key [of "db_orgs d" "\<lambda>x. o_id x = k \<and> o_created_by x = None" o_id
        "\<lambda>x. x\<lparr>o_created_by := Some owner\<rparr>"]
    by (simp del: tbl_rows_simps)
  then show "org_keys (claim_org k owner d) = org_keys d" by (simp add: org_keys_def)
  have owned_keys: "owned x \<longleftrightarrow> (\<forall>j \<in> o_id ` set (tb_rows (db_orgs x)). has_owner j x)" for x
    by (simp add: owned_def has_owner_def)
  show "owned (claim_org k owner d) = owned d"
    unfolding owned_keys keys by (simp add: has_owner_def claim_org_def)
qed

lemma seed_demo_api_ok:
  assumes ok: "api_ok d"
  shows "api_ok (snd (seed_demo setting now hashes d))"
proof (cases "fst (seed_demo setting now hashes d)")
  case (Inl e)
  then have "snd (seed_demo setting now hashes d) = d"
    by (auto simp: seed_demo_def atomic_def split: sum.splits prod.splits)
  with ok show ?thesis by simp
next
  case (Inr org)
  obtain d' where "seed_demo setting now hashes d = (Inr org, d')"
    using Inr by (metis prod.collapse)
  note run = this [unfolded seed_demo_def atomic_commit]
  let ?d0 = "seed_plans_command setting d"
  obtain r1 d1 where g0: "get_or_create_org now ''acme-inc'' ''Acme Inc'' ?d0 = (r1, d1)" by fastforce
  with run obtain o1 where r1: "r1 = Inr o1" by (cases r1) auto
  obtain r2 d2 where u0: "seed_users now hashes (o_id o1) DEMO_USERS d1 = (r2, d2)" by fastforce
  with run g0 r1 obtain users where r2: "r2 = Inr users" by (cases r2) auto
  from run g0 r1 u0 r2 obtain owner where owner: "map_of users OWNER = Some owner"
    by (cases "map_of users OWNER") auto
  let ?d3 = "claim_org (o_id o1) (u_id owner) d2"
  obtain r3 d3 where p0: "seed_projects now (o_id o1) (u_id owner) DEMO_PROJECTS ?d3 = (r3, d3)" by fastforce
  with run g0 r1 u0 r2 owner have r3: "r3 = Inr ()" "d3 = d'" by (cases r3; simp)+
  let ?k = "o_id o1"
  have "rows_ok ?d0" "owned ?d0"
    using ok seed_plans_rows by (simp_all add: api_ok_rows owned_def)
  note g = get_or_create_org_rows [OF this(1) g0 [unfolded r1]]
  have low: "\<forall>(email, name, role) \<in> set DEMO_USERS. str_lower email = email"
    "DEMO_USERS \<noteq> [] \<and> snd (snd (hd DEMO_USERS)) = OWNER"
    by (simp_all add: DEMO_USERS_def str_lower_def lower_char_def is_upper_def code_point_def)
  note u = seed_users_rows [OF _ _ low(1) u0 [unfolded r2]]
  have d1: "rows_ok d1" "?k \<in> org_keys d1" "owned_but ?k d1" using g \<open>owned ?d0\<close> by simp_all
  note u = u [OF d1(1,2)]
  then have grows: "set (tb_rows (db_members d1)) \<subseteq> set (tb_rows (db_members d2))" by auto
  have d2: "rows_ok d2" "?k \<in> org_keys d2" "owned_but ?k d2"
    using u d1 owned_but_mono [OF d1(3) _ grows] by (simp_all add: org_keys_def)
  have "has_owner ?k d2"
  proof (cases "d1 = ?d0")
    case True
    with g \<open>owned ?d0\<close> have "has_owner ?k d1" by (auto simp: owned_def org_keys_def has_owner_def)
    then show ?thesis using grows by (rule has_owner_mono)
  next
    case False
    with g u low(2) show ?thesis by auto
  qed
  with d2(3) have owned: "owned d2" by (rule owned_but_one)
  have d3: "rows_ok ?d3" "?k \<in> org_keys ?d3" "owned ?d3"
    using claim_org_rows [OF d2(1)] d2(2) owned by simp_all
  from seed_projects_rows [OF d3(1,2) p0 [unfolded r3]] d3(3) have "api_ok d'"
    by (simp add: api_ok_rows owned_def)
  with \<open>seed_demo setting now hashes d = (Inr org, d')\<close> show ?thesis by simp
qed

subsection \<open>A deployment and what it can reach\<close>

datatype deployment_event =
    Api api_call "user option"
  | Seed_Plans
  | Seed_Demo time "string \<Rightarrow> string" \<comment> \<open>the hash of the demo password for each user\<close>
  | Backfill time

fun deployment_step :: "services \<Rightarrow> (string \<Rightarrow> string) \<Rightarrow> deployment_event \<Rightarrow> db \<Rightarrow> db" where
  \<comment> \<open>the second argument: the settings the commands read\<close>
  "deployment_step sv setting (Api call u) d = api_step sv call u d"
| "deployment_step sv setting Seed_Plans d = seed_plans_command setting d"
| "deployment_step sv setting (Seed_Demo now hashes) d = snd (seed_demo setting now hashes d)"
| "deployment_step sv setting (Backfill now) d = backfill now d"

lemma deployment_step_ok:
  assumes "api_ok d" "jwt_ok (sv_jwt_validate sv)"
  shows "api_ok (deployment_step sv setting ev d)"
proof (cases ev)
  case (Api call u)
  with assms show ?thesis by (simp add: api_step_ok)
next
  case (Backfill now)
  with assms(1) backfill_rows [of d now] show ?thesis by (simp add: api_ok_rows owned_def)
qed (use assms(1) seed_plans_rows in \<open>simp_all add: api_ok_rows owned_def seed_demo_api_ok [unfolded api_ok_rows owned_def]\<close>)

interpretation deployment: invariant_system fresh_deployment
  "\<lambda>d d'. jwt_ok (sv_jwt_validate sv) \<and> (\<exists>ev. d' = deployment_step sv setting ev d)" api_ok
  for sv setting
  by unfold_locales (auto simp: fresh_api_ok intro: deployment_step_ok)

definition run_deployment :: "services \<Rightarrow> (string \<Rightarrow> string) \<Rightarrow> deployment_event list \<Rightarrow> db" where
  "run_deployment sv setting evs = fold (deployment_step sv setting) evs (seed_plans_migration empty_db)"

lemma run_deployment_reaches:
  assumes "jwt_ok (sv_jwt_validate sv)"
  shows "(\<lambda>d d'. jwt_ok (sv_jwt_validate sv) \<and> (\<exists>ev. d' = deployment_step sv setting ev d))\<^sup>*\<^sup>* d
    (fold (deployment_step sv setting) evs d)"
proof (induction evs arbitrary: d)
  case (Cons ev evs)
  have "jwt_ok (sv_jwt_validate sv) \<and>
      (\<exists>e. deployment_step sv setting ev d = deployment_step sv setting e d)" using assms by blast
  from converse_rtranclp_into_rtranclp [of _ d, OF this Cons.IH] show ?case by simp
qed simp

lemma events_ok:
  "jwt_ok (sv_jwt_validate sv) \<Longrightarrow> api_ok d \<Longrightarrow> api_ok (fold (deployment_step sv setting) evs d)"
  using deployment.steps_inv [OF run_deployment_reaches] by blast

text \<open>C7. The system as a whole: starting from a fresh deployment, after any sequence of calls to any
  writing endpoint, by anybody and with any input, and of the operator's commands in between,
  every organization has an Owner, primary keys, references to organizations and unique columns are
  intact, every subscription has a known status, and every address is in lower case.\<close>

theorem deployment_invariant:
  assumes "jwt_ok (sv_jwt_validate sv)"
  shows "(let d = run_deployment sv setting evs
    in owned d \<and> keys_ok d \<and> refs_ok d \<and> unique_ok d \<and> statuses_ok d \<and> emails_lower d)"
proof -
  have "api_ok (run_deployment sv setting evs)"
    using deployment.reachable_inv [OF _ run_deployment_reaches [OF assms]]
    unfolding run_deployment_def by (simp add: fresh_deployment_def)
  then show ?thesis by (simp add: api_ok_def db_inv_def Let_def)
qed

theorem deployment_invariant_witness:
  "owned (run_deployment demo_services (\<lambda>_. [])
     [Seed_Demo 1 demo_hashes, Api (Org_Destroy ''1'') (Some olivia), Seed_Plans,
      Api (Org_Create 2 (Inr ''Nova'')) (Some nora), Seed_Demo 3 demo_hashes, Backfill 4])"
  using deployment_invariant [OF demo_jwt_ok] by (simp add: Let_def)

subsection \<open>An outsider's session\<close>

lemma outsider_kept:
  assumes "outsider u k d" and kept: "tenant_kept T k d d'"
  shows "outsider u k d'"
proof -
  have members: "set (for_org m_org k (db_members d')) = set (for_org m_org k (db_members d))"
    and invites: "list_all2 (ran_out T) (for_org i_org k (db_invites d)) (for_org i_org k (db_invites d'))"
    using kept by (simp_all add: tenant_kept_def)
  have "str_lower (i_email j) \<noteq> str_lower (u_email u)"
    if "j \<in> set (tb_rows (db_invites d'))" "i_org j = k" "i_status j = PENDING" for j
  proof -
    have "j \<in> set (for_org i_org k (db_invites d'))" using that by (simp add: for_org_iff)
    then obtain i where "i \<in> set (for_org i_org k (db_invites d))" "ran_out T i j"
      using invites by (metis in_set_conv_nth list_all2_conv_all_nth)
    with that(3) assms(1) show ?thesis by (auto simp: outsider_def for_org_iff ran_out_def)
  qed
  moreover have "m_user m \<noteq> u_id u" if "m \<in> set (tb_rows (db_members d'))" "m_org m = k" for m
  proof -
    have "m \<in> set (for_org m_org k (db_members d))" using that members [symmetric] by (simp add: for_org_iff)
    with assms(1) show ?thesis by (simp add: outsider_def for_org_iff)
  qed
  ultimately show ?thesis by (simp add: outsider_def)
qed

lemma org_key_kept:
  "tenant_kept T k d d' \<Longrightarrow> k \<in> org_keys d \<Longrightarrow> k \<in> org_keys d'"
proof -
  assume same: "tenant_kept T k d d'" and k: "k \<in> org_keys d"
  have "set (for_org o_id k (db_orgs d')) = set (for_org o_id k (db_orgs d))"
    using same by (simp add: tenant_kept_def)
  with k show ?thesis by (auto simp: org_keys_def for_org_iff image_iff set_eq_iff)
qed

fun is_webhook :: "api_call \<Rightarrow> bool" where
  "is_webhook (Webhook _ _ _) = True"
| "is_webhook _ = False"

subsection \<open>Addresses and their case\<close>

definition exact_login :: "(string \<Rightarrow> string \<Rightarrow> db \<Rightarrow> (user \<times> claims) outcome) \<Rightarrow> bool" where
  \<comment> \<open>\<open>authenticate\<close> finds the account by \<open>get_by_natural_key\<close>: the stored address equals the given one\<close>
  "exact_login f \<longleftrightarrow>
     (\<forall>e p d u c d'. f e p d = (Inr (u, c), d') \<longrightarrow>
        u_email u = e \<and> (\<exists>v \<in> set (tb_rows (db_users d)). u_email v = u_email u))"

text \<open>C39. Registration folds the case of an address, login does not: who registers with an upper-case
  letter in the address is registered, and cannot log in with the address as it was typed, now or
  after anything that happens later, with whatever password.\<close>

theorem mixed_case_cannot_log_in:
  assumes jwt: "jwt_ok (sv_jwt_validate sv)" "exact_login (sv_jwt_validate sv)" and ok: "api_ok d"
    and reg: "register_view ne pw collate now (Inr (email, password, name)) d = (Inr out, d1)"
    and mixed: "str_lower email \<noteq> email"
  shows "\<exists>e. fst (login_view (sv_jwt_validate sv) verified (Inr (email, any_password))
    (fold (deployment_step sv setting) evs d1)) = Inl e"
proof -
  let ?d = "fold (deployment_step sv setting) evs d1"
  have "api_ok d1"
    using register_api_ok [OF ok, of ne pw collate now "Inr (email, password, name)"] reg by simp
  with jwt(1) have "api_ok ?d" by (rule events_ok)
  then have lower: "u_email v \<noteq> email" if "v \<in> set (tb_rows (db_users ?d))" for v
    using that mixed by (auto simp: api_ok_def emails_lower_def)
  obtain res d2 where step: "sv_jwt_validate sv email any_password ?d = (res, d2)" by fastforce
  show ?thesis
  proof (cases res)
    case (Inl e)
    with step show ?thesis by (simp add: login_view_eq)
  next
    case (Inr x)
    obtain u c where "x = (u, c)" by (cases x)
    with Inr step have "sv_jwt_validate sv email any_password ?d = (Inr (u, c), d2)" by simp
    with jwt(2) have "\<exists>v \<in> set (tb_rows (db_users ?d)). u_email v = email"
      unfolding exact_login_def by metis
    with lower show ?thesis by blast
  qed
qed

definition demo_login :: "string \<Rightarrow> string \<Rightarrow> db \<Rightarrow> (user \<times> claims) outcome" where
  "demo_login e p d =
     (case tbl_first (\<lambda>u. u_email u = e \<and> u_password u = pw_make demo_passwords (Some p)) (db_users d) of
        Some u \<Rightarrow> (Inr (u, get_token (\<lambda>_. []) u), d)
      | None \<Rightarrow> (Inl (PermissionDenied ''No active account found.''), d))"

lemma demo_login_ok: "jwt_ok demo_login" "exact_login demo_login"
proof -
  have "\<exists>P t tk bl. d = d\<lparr>db_users := tbl_update_where P (\<lambda>u. u\<lparr>u_last_login := t\<rparr>) (db_users d),
      db_tokens := tk, db_blacklist := bl\<rparr>" for d :: db
    by (intro exI [of _ "\<lambda>_. False"] exI [of _ None] exI [of _ "db_tokens d"] exI [of _ "db_blacklist d"])
      (simp add: tbl_update_where_def)
  then show "jwt_ok demo_login" by (simp add: jwt_ok_def demo_login_def split: option.split)
  show "exact_login demo_login"
    by (auto simp: exact_login_def demo_login_def dest: tbl_first_Some split: option.splits)
qed

definition registered_zoe :: db where
  "registered_zoe = snd (register_view id demo_passwords (\<lambda>_. 0) 5
     (Inr (''Zoe@New.test'', ''longpassword'', ''Zoe'')) demo_db)"

theorem mixed_case_cannot_log_in_witness:
  "isl (fst (login_view demo_login False (Inr (''Zoe@New.test'', ''longpassword'')) registered_zoe)) \<and>
   \<not> isl (fst (login_view demo_login False (Inr (''zoe@new.test'', ''longpassword'')) registered_zoe))"
proof
  let ?sv = "demo_services\<lparr>sv_jwt_validate := demo_login\<rparr>"
  obtain res d1 where reg: "register_view id demo_passwords (\<lambda>_. 0) 5
      (Inr (''Zoe@New.test'', ''longpassword'', ''Zoe'')) demo_db = (res, d1)" by fastforce
  have "\<not> isl (fst (register_view id demo_passwords (\<lambda>_. 0) 5
      (Inr (''Zoe@New.test'', ''longpassword'', ''Zoe'')) demo_db))" by code_simp
  with reg obtain out where res: "res = Inr out" by (cases res) auto
  have sv: "jwt_ok (sv_jwt_validate ?sv)" "exact_login (sv_jwt_validate ?sv)"
    using demo_login_ok by simp_all
  have "str_lower ''Zoe@New.test'' \<noteq> ''Zoe@New.test''" by code_simp
  from mixed_case_cannot_log_in [OF sv demo_api_ok reg [unfolded res] this,
      where verified = False and any_password = "''longpassword''" and evs = "[]" and setting = "\<lambda>_. []"]
  show "isl (fst (login_view demo_login False (Inr (''Zoe@New.test'', ''longpassword'')) registered_zoe))"
    using reg by (auto simp: registered_zoe_def)
  show "\<not> isl (fst (login_view demo_login False (Inr (''zoe@new.test'', ''longpassword'')) registered_zoe))"
    by code_simp
qed

end
