(* ===== verification/Reads.thy ===== *)
theory Reads
  imports Lifecycle
begin

section \<open>What a user can learn\<close>

text \<open>
  Isolation of reads over the whole API, stated with two databases that are equal but for what one
  organization owns: to a user who is no member of it every reading endpoint answers the same on
  both. \<open>eq_but\<close> is that relation; each lookup a view makes is shown not to see the difference.
\<close>

definition rows_but :: "('r \<Rightarrow> key) \<Rightarrow> key \<Rightarrow> 'r tbl \<Rightarrow> 'r list" where
  "rows_but org_of k t = filter (\<lambda>r. org_of r \<noteq> k) (tb_rows t)"

definition eq_but :: "key \<Rightarrow> db \<Rightarrow> db \<Rightarrow> bool" where
  \<comment> \<open>equal users and plans, and equal rows outside organization \<open>k\<close>\<close>
  "eq_but k d d' \<longleftrightarrow>
     db_users d = db_users d' \<and> db_plans d = db_plans d' \<and>
     rows_but o_id k (db_orgs d) = rows_but o_id k (db_orgs d') \<and>
     rows_but m_org k (db_members d) = rows_but m_org k (db_members d') \<and>
     rows_but i_org k (db_invites d) = rows_but i_org k (db_invites d') \<and>
     rows_but s_org k (db_subs d) = rows_but s_org k (db_subs d') \<and>
     rows_but pr_org k (db_projects d) = rows_but pr_org k (db_projects d')"

definition nonmember :: "user \<Rightarrow> key \<Rightarrow> db \<Rightarrow> bool" where
  "nonmember u k d \<longleftrightarrow> (\<forall>m \<in> set (tb_rows (db_members d)). m_org m = k \<longrightarrow> m_user m \<noteq> u_id u)"

lemma eq_but_refl: "eq_but k d d"
  by (simp add: eq_but_def)

lemma eq_but_sym: "eq_but k d d' \<Longrightarrow> eq_but k d' d"
  by (simp add: eq_but_def)

lemma eq_but_trans: "eq_but k d d' \<Longrightarrow> eq_but k d' d'' \<Longrightarrow> eq_but k d d''"
  by (simp add: eq_but_def)

subsection \<open>Lookups\<close>

lemma find_filter: "(\<And>x. x \<in> set xs \<Longrightarrow> P x \<Longrightarrow> Q x) \<Longrightarrow> find P xs = find P (filter Q xs)"
  by (induction xs) auto

lemma for_org_rows_but: "j \<noteq> k \<Longrightarrow> for_org f j t = filter (\<lambda>r. f r = j) (rows_but f k t)"
  by (auto simp: for_org_def tbl_filter_def rows_but_def intro: filter_cong)

lemma first_rows_but:
  "(\<And>r. r \<in> set (tb_rows t) \<Longrightarrow> P r \<Longrightarrow> f r \<noteq> k) \<Longrightarrow> tbl_first P t = find P (rows_but f k t)"
  unfolding tbl_first_def rows_but_def by (rule find_filter)

lemma filter_rows_but:
  "(\<And>r. r \<in> set (tb_rows t) \<Longrightarrow> P r \<Longrightarrow> f r \<noteq> k) \<Longrightarrow> tbl_filter P t = filter P (rows_but f k t)"
  by (auto simp: tbl_filter_def rows_but_def intro!: filter_cong)

lemma eq_but_for_org:
  assumes "eq_but k d d'" "j \<noteq> k"
  shows "for_org m_org j (db_members d) = for_org m_org j (db_members d')"
    "for_org i_org j (db_invites d) = for_org i_org j (db_invites d')"
    "for_org pr_org j (db_projects d) = for_org pr_org j (db_projects d')"
    "sub_of_org j d = sub_of_org j d'" "tbl_get o_id j (db_orgs d) = tbl_get o_id j (db_orgs d')"
proof -
  note first = first_rows_but [where k = k]
  show "for_org m_org j (db_members d) = for_org m_org j (db_members d')"
    "for_org i_org j (db_invites d) = for_org i_org j (db_invites d')"
    "for_org pr_org j (db_projects d) = for_org pr_org j (db_projects d')"
    using assms by (simp_all add: for_org_rows_but [of j k] eq_but_def)
  show "sub_of_org j d = sub_of_org j d'"
    unfolding sub_of_org_def using assms
      first [of "db_subs d" "\<lambda>s. s_org s = j" s_org] first [of "db_subs d'" "\<lambda>s. s_org s = j" s_org]
    by (auto simp: eq_but_def)
  show "tbl_get o_id j (db_orgs d) = tbl_get o_id j (db_orgs d')"
    using assms first [of "db_orgs d" "\<lambda>s. o_id s = j" o_id] first [of "db_orgs d'" "\<lambda>s. o_id s = j" o_id]
    by (auto simp: eq_but_def tbl_first_def tbl_get_def)
qed

lemma eq_but_membership:
  assumes "eq_but k d d'" "nonmember u k d" "nonmember u k d'"
  shows "find_membership (u_id u) j d = find_membership (u_id u) j d'"
proof -
  have "tbl_first (\<lambda>m. m_user m = u_id u \<and> m_org m = j) (db_members x) =
      find (\<lambda>m. m_user m = u_id u \<and> m_org m = j) (rows_but m_org k (db_members x))"
    if "nonmember u k x" for x
    using that by (intro first_rows_but) (auto simp: nonmember_def)
  with assms show ?thesis by (simp add: find_membership_def eq_but_def)
qed

lemma nonmember_membership: "nonmember u k d \<Longrightarrow> find_membership (u_id u) k d = None"
  by (auto simp: nonmember_def find_membership_def tbl_first_None)

lemma eq_but_queryset:
  assumes "eq_but k d d'" "nonmember u k d" "nonmember u k d'"
  shows "org_queryset u d = org_queryset u d'"
proof -
  let ?P = "\<lambda>d org. \<exists>m. find_membership (u_id u) (o_id org) d = Some m"
  have *: "org_queryset u x = filter (?P x) (rows_but o_id k (db_orgs x))" if "nonmember u k x" for x
    unfolding org_queryset_def find_membership_ex using nonmember_membership [OF that]
    by (intro filter_rows_but) auto
  show ?thesis
    unfolding * [OF assms(2)] * [OF assms(3)] eq_but_membership [OF assms]
    using assms(1) by (simp add: eq_but_def)
qed

lemma eq_but_get_object:
  assumes "eq_but k d d'" "nonmember u k d" "nonmember u k d'"
  shows "org_get_object raw d (Some u) = org_get_object raw d' (Some u)"
  by (simp add: org_get_object_def caller_role_def guard_simps eq_but_queryset [OF assms]
      eq_but_membership [OF assms])

lemma get_object_other:
  assumes "nonmember u k d" "org_get_object raw d (Some u) = Inr (usr, org, role)"
  shows "o_id org \<noteq> k" "usr = u"
  using org_get_object_access [OF assms(2)] nonmember_membership [OF assms(1)]
  by (auto simp: org_access_def)

subsection \<open>The permission chain\<close>

lemma eq_but_resolves:
  assumes "eq_but k d d'" "nonmember u k d" "nonmember u k d'" "rq_user r = Some u"
  shows "resolves d r usr org m \<longleftrightarrow> resolves d' r usr org m"
proof (cases "o_id org = k")
  case True
  with assms show ?thesis by (auto simp: resolves_def nonmember_membership)
next
  case False
  from assms(4) eq_but_membership [OF assms(1-3)] eq_but_for_org(5) [OF assms(1) False]
  show ?thesis by (auto simp: resolves_def)
qed

lemma eq_but_permissions:
  assumes "eq_but k d d'" "nonmember u k d" "nonmember u k d'" "rq_user r = Some u"
  shows "check_permissions tenant_permissions d r = check_permissions tenant_permissions d' r"
    "check_permissions owner_permissions d r = check_permissions owner_permissions d' r"
    "check_permissions project_permissions d r = check_permissions project_permissions d' r"
proof -
  note res = eq_but_resolves [OF assms]
  show t: "check_permissions tenant_permissions d r = check_permissions tenant_permissions d' r"
  proof (cases "check_permissions tenant_permissions d r")
    case (Inl e)
    with res show ?thesis using tenant_permissions_Inl [of d r e] tenant_permissions_Inl [of d' r e]
      by metis
  next
    case (Inr r')
    with res show ?thesis using tenant_permissions_Inr [of d r r'] tenant_permissions_Inr [of d' r r']
      by metis
  qed
  show "check_permissions owner_permissions d r = check_permissions owner_permissions d' r"
    by (simp add: owner_permissions_chain t)
  show "check_permissions project_permissions d r = check_permissions project_permissions d' r"
    by (simp add: project_permissions_eq t)
qed

lemma passed_other:
  assumes "nonmember u k d" "rq_user r = Some u" "check_permissions tenant_permissions d r = Inr r'"
  shows "\<exists>org. rq_organization r' = Some org \<and> o_id org \<noteq> k"
proof -
  from assms(3) obtain usr org m where r: "resolves d r usr org m"
    "r' = r\<lparr>rq_organization := Some org, rq_membership := Some m\<rparr>"
    by (auto simp: tenant_permissions_Inr)
  with assms(1,2) have "o_id org \<noteq> k"
    using nonmember_membership [OF assms(1)] by (auto simp: resolves_def)
  with r(2) show ?thesis by simp
qed

lemma owner_passed: "check_permissions owner_permissions d r = Inr r' \<Longrightarrow> check_permissions tenant_permissions d r = Inr r'"
  by (auto simp: owner_permissions_chain bind_res_Inr_iff split: if_splits)

subsection \<open>The reading endpoints\<close>

lemma eq_but_org_reads:
  assumes eq: "eq_but k d d'" and out: "nonmember u k d" "nonmember u k d'"
  shows "org_list collate d (Some u) = org_list collate d' (Some u)"
    "org_retrieve raw d (Some u) = org_retrieve raw d' (Some u)"
    "members_list raw d (Some u) = members_list raw d' (Some u)"
    "invitations_list raw d (Some u) = invitations_list raw d' (Some u)"
proof -
  note lookups = eq_but_queryset [OF assms] eq_but_membership [OF assms] eq_but_get_object [OF assms]
  have users: "membership_repr d = membership_repr d'"
    using eq by (simp add: membership_repr_def eq_but_def fun_eq_iff)
  have repr: "org_repr r (Some u) org d = org_repr r (Some u) org d'" for r org
    by (simp add: org_repr_def get_role_def lookups split: option.split)
  show "org_list collate d (Some u) = org_list collate d' (Some u)"
    by (simp add: org_list_def guard_simps lookups repr caller_role_def)
  show "org_retrieve raw d (Some u) = org_retrieve raw d' (Some u)"
  proof (cases "org_get_object raw d' (Some u)")
    case (Inr x)
    obtain usr org role where x: "x = (usr, org, role)" by (cases x)
    with Inr have "usr = u" using get_object_other(2) [OF out(2)] by blast
    with Inr x show ?thesis by (simp add: org_retrieve_def lookups guard_simps repr)
  qed (simp add: org_retrieve_def lookups guard_simps)
  show "members_list raw d (Some u) = members_list raw d' (Some u)"
    "invitations_list raw d (Some u) = invitations_list raw d' (Some u)"
    using get_object_other(1) [OF out(2)] eq_but_for_org(1,2) [OF eq]
    by (cases "org_get_object raw d' (Some u)";
      auto simp: members_list_def invitations_list_def lookups guard_simps users)+
qed

lemma eq_but_me:
  assumes eq: "eq_but k d d'" and out: "nonmember u k d" "nonmember u k d'"
  shows "me_view collate d (Some u) = me_view collate d' (Some u)"
proof -
  let ?line = "\<lambda>d m. case tbl_get o_id (m_org m) (db_orgs d) of
            None \<Rightarrow> []
          | Some org \<Rightarrow> [(collate (o_name org), (m_org m, o_name org, o_slug org, m_role m))]"
  have mine: "tbl_filter (\<lambda>m. m_user m = u_id u) (db_members x) =
      filter (\<lambda>m. m_user m = u_id u) (rows_but m_org k (db_members x))" if "nonmember u k x" for x
    using that by (intro filter_rows_but) (auto simp: nonmember_def)
  have same: "tbl_filter (\<lambda>m. m_user m = u_id u) (db_members d) =
      tbl_filter (\<lambda>m. m_user m = u_id u) (db_members d')"
    using eq by (simp add: mine [OF out(1)] mine [OF out(2)] eq_but_def)
  have "map (?line d) (tbl_filter (\<lambda>m. m_user m = u_id u) (db_members d')) =
      map (?line d') (tbl_filter (\<lambda>m. m_user m = u_id u) (db_members d'))"
    using out(2) eq_but_for_org(5) [OF eq]
    by (intro map_cong) (auto simp: tbl_filter_def nonmember_def)
  then have "user_repr collate d u = user_repr collate d' u"
    unfolding user_repr_def get_organizations_def same by (rule arg_cong)
  then show ?thesis by (simp add: me_view_def guard_simps)
qed

lemma eq_but_tenant_reads:
  assumes eq: "eq_but k d d'" and out: "nonmember u k d" "nonmember u k d'" and r: "rq_user r = Some u"
  shows "subscription_view d r = subscription_view d' r" "portal_view st d r = portal_view st d' r"
    "project_list d r = project_list d' r" "project_retrieve raw d r = project_retrieve raw d' r"
proof -
  note perms = eq_but_permissions [OF assms]
  have plans: "subscription_repr d s = subscription_repr d' s" for s
    using eq by (simp add: subscription_repr_def eq_but_def)
  note other = passed_other [OF out(2) r] passed_other [OF out(2) r owner_passed]
  show "subscription_view d r = subscription_view d' r"
    using other(1) eq_but_for_org(4) [OF eq] plans
    by (cases "check_permissions tenant_permissions d' r")
      (fastforce simp: subscription_view_def perms guard_simps fun_eq_iff intro!: option.map_cong)+
  show "portal_view st d r = portal_view st d' r"
    using other(2) eq_but_for_org(4) [OF eq]
    by (cases "check_permissions owner_permissions d' r")
      (fastforce simp: portal_view_def perms guard_simps)+
  have scoped: "scoped_queryset pr_org r' (db_projects d) = scoped_queryset pr_org r' (db_projects d')"
    if "check_permissions project_permissions d' r = Inr r'" for r'
    using other(1) [of r'] that eq_but_for_org(3) [OF eq]
    by (auto simp: project_permissions_eq scoped_queryset_def for_org_def)
  show "project_list d r = project_list d' r" "project_retrieve raw d r = project_retrieve raw d' r"
    using scoped
    by (cases "check_permissions project_permissions d' r";
      simp add: project_list_def project_retrieve_def project_get_object_def perms guard_simps)+
qed

text \<open>C6. Nobody learns anything about an organization they are no member of: change whatever it owns
  (its row, members, projects, subscription, invitations) in any way that keeps the user out, and
  every reading endpoint gives the user the reply it gave before, errors included.\<close>

theorem nonmember_learns_nothing:
  assumes "eq_but k d d'" and "nonmember u k d" "nonmember u k d'"
  shows "org_list collate d (Some u) = org_list collate d' (Some u) \<and>
    org_retrieve raw d (Some u) = org_retrieve raw d' (Some u) \<and>
    members_list raw d (Some u) = members_list raw d' (Some u) \<and>
    invitations_list raw d (Some u) = invitations_list raw d' (Some u) \<and>
    me_view collate d (Some u) = me_view collate d' (Some u) \<and>
    (let r = fresh_request meth (Some u) h
     in plans_view d r = plans_view d' r \<and> subscription_view d r = subscription_view d' r \<and>
        portal_view st d r = portal_view st d' r \<and> project_list d r = project_list d' r \<and>
        project_retrieve raw d r = project_retrieve raw d' r)"
proof -
  let ?r = "fresh_request meth (Some u) h"
  have r: "rq_user ?r = Some u" by (simp add: fresh_request_def)
  have "plans_view d ?r = plans_view d' ?r"
    using assms(1) by (simp add: plans_view_def IsAuthenticated_def eq_but_def r)
  with eq_but_org_reads [OF assms] eq_but_me [OF assms] eq_but_tenant_reads [OF assms r]
  show ?thesis by (simp add: Let_def)
qed

theorem nonmember_learns_nothing_witness:
  "me_view (\<lambda>_. 0) (organization_delete 2 demo_db) (Some olivia) = me_view (\<lambda>_. 0) demo_db (Some olivia) \<and>
   members_list ''2'' (organization_delete 2 demo_db) (Some olivia) = members_list ''2'' demo_db (Some olivia)"
proof -
  have "eq_but 2 demo_db (organization_delete 2 demo_db)"
    by (simp add: eq_but_def rows_but_def organization_delete_def demo_defs)
  moreover have "nonmember olivia 2 demo_db" "nonmember olivia 2 (organization_delete 2 demo_db)"
    by (simp_all add: nonmember_def organization_delete_def demo_defs)
  ultimately show ?thesis
    using nonmember_learns_nothing [of 2 demo_db "organization_delete 2 demo_db" olivia "\<lambda>_. 0" "''2''"]
    by simp
qed

end
