(* ===== verification/Typing.thy ===== *)
theory Typing
  imports Migrations Deployment
begin

section \<open>The database as an instance of the migrated schema\<close>

text \<open>
  What it means for rows to be legal under the schema the migrations build: every row has exactly the
  stored columns, every cell has its column's type (width, choices, \<open>NULL\<close> only where allowed), the
  unique columns and constraints hold, and every foreign key finds its row. \<open>rows_of\<close> renders a
  database as such tables. The typing theorem says that the API, called by stored users, never leaves
  the legal instances; \<open>typed\<close> is the flat condition its proof carries from call to call.
\<close>

subsection \<open>Cells, rows and legal instances\<close>

datatype cell =
    Null
  | Text string
  | Flag bool
  | Number int
  | Moment time
  | Document "(string \<times> int option) list"

type_synonym row = "(string \<times> cell) list"

fun has_type :: "field_type \<Rightarrow> cell \<Rightarrow> bool" where
  "has_type BigAutoField (Number _) = True"
| "has_type (CharField n) (Text s) = (length s \<le> n)"
| "has_type (EmailField n) (Text s) = (length s \<le> n)"
| "has_type (SlugField n) (Text s) = (length s \<le> n)"
| "has_type (TextField _) (Text _) = True"
| "has_type BooleanField (Flag _) = True"
| "has_type (DateTimeField _) (Moment _) = True"
| "has_type JSONField (Document _) = True"
| "has_type (ForeignKey _ _) (Number _) = True"
| "has_type (OneToOneField _ _) (Number _) = True"
| "has_type _ _ = False"

definition cell_ok :: "field \<Rightarrow> cell \<Rightarrow> bool" where
  "cell_ok f v =
     (if v = Null then fd_null f
      else has_type (fd_type f) v \<and>
        (fd_choices f = [] \<or> v \<in> set (map (Text \<circ> fst) (fd_choices f))))"

definition stored :: "field_type \<Rightarrow> bool" where
  \<comment> \<open>a many-to-many relation is a table of its own\<close>
  "stored t = (case t of ManyToManyField _ \<Rightarrow> False | _ \<Rightarrow> True)"

definition row_ok :: "model \<Rightarrow> row \<Rightarrow> bool" where
  "row_ok m r \<longleftrightarrow> list_all2 (\<lambda>(c, f) (c', v). c = c' \<and> cell_ok f v)
     (filter (\<lambda>(_, f). stored (fd_type f)) (md_fields m)) r"

definition values_of :: "string list \<Rightarrow> row \<Rightarrow> cell option list" where
  "values_of cs r = map (map_of r) cs"

definition unique_columns :: "string list \<Rightarrow> row list \<Rightarrow> bool" where
  \<comment> \<open>rows with a \<open>NULL\<close> among the columns never clash\<close>
  "unique_columns cs rows \<longleftrightarrow>
     distinct (filter (\<lambda>k. Some Null \<notin> set k) (map (values_of cs) rows))"

fun lowered :: "cell option \<Rightarrow> cell option" where
  "lowered (Some (Text s)) = Some (Text (str_lower s))"
| "lowered v = v"

fun constraint_ok :: "constraint \<Rightarrow> row list \<Rightarrow> bool" where
  "constraint_ok (Unique_Together _ cs) rows = unique_columns cs rows"
| "constraint_ok (Unique_Lower _ c) rows = distinct (map (\<lambda>r. lowered (map_of r c)) rows)"

definition is_unique_field :: "field \<Rightarrow> bool" where
  "is_unique_field f \<longleftrightarrow> fd_unique f \<or> fd_primary_key f \<or>
     (case fd_type f of OneToOneField _ _ \<Rightarrow> True | _ \<Rightarrow> False)"

type_synonym tables = "(string \<times> row list) list"

definition table_rows :: "tables \<Rightarrow> string \<Rightarrow> row list" where
  "table_rows inst t = (case map_of inst t of None \<Rightarrow> [] | Some rows \<Rightarrow> rows)"

definition reference_ok :: "tables \<Rightarrow> row list \<Rightarrow> string \<times> field \<Rightarrow> bool" where
  "reference_ok inst rows cf =
     (case cf of (c, f) \<Rightarrow>
       (if \<not> stored (fd_type f) then True
        else case relation_target (fd_type f) of
          None \<Rightarrow> True
        | Some t \<Rightarrow> list_all (\<lambda>r. map_of r c = Some Null \<or>
            map_of r c \<in> set (map (\<lambda>x. map_of x ''id'') (table_rows inst t))) rows))"

definition table_ok :: "tables \<Rightarrow> string \<times> model \<Rightarrow> bool" where
  "table_ok inst nm =
     (case nm of (name, m) \<Rightarrow>
       (let rows = table_rows inst name
        in list_all (row_ok m) rows \<and>
           list_all (\<lambda>(c, f). is_unique_field f \<longrightarrow> unique_columns [c] rows) (md_fields m) \<and>
           list_all (\<lambda>k. constraint_ok k rows) (md_constraints m) \<and>
           list_all (reference_ok inst rows) (md_fields m)))"

definition legal :: "schema \<Rightarrow> tables \<Rightarrow> bool" where
  "legal sch inst \<longleftrightarrow> list_all (table_ok inst) sch \<and> list_all (\<lambda>(t, _). map_of sch t \<noteq> None) inst"

subsection \<open>Rendering the rows\<close>

definition optional :: "('a \<Rightarrow> cell) \<Rightarrow> 'a option \<Rightarrow> cell" where
  "optional f v = (case v of None \<Rightarrow> Null | Some x \<Rightarrow> f x)"

definition user_cells :: "user \<Rightarrow> row" where
  "user_cells u =
     [(''id'', Number (u_id u)), (''password'', Text (u_password u)),
      (''last_login'', optional Moment (u_last_login u)),
      (''is_superuser'', Flag (u_is_superuser u)), (''first_name'', Text (u_first_name u)),
      (''last_name'', Text (u_last_name u)), (''is_staff'', Flag (u_is_staff u)),
      (''is_active'', Flag (u_is_active u)), (''date_joined'', Moment (u_date_joined u)),
      (''email'', Text (u_email u)), (''is_email_verified'', Flag (u_is_email_verified u))]"

definition organization_cells :: "organization \<Rightarrow> row" where
  "organization_cells x =
     [(''id'', Number (o_id x)), (''name'', Text (o_name x)), (''slug'', Text (o_slug x)),
      (''created_at'', Moment (o_created_at x)), (''created_by'', optional Number (o_created_by x))]"

definition membership_cells :: "membership \<Rightarrow> row" where
  "membership_cells m =
     [(''id'', Number (m_id m)), (''role'', Text (m_role m)), (''created_at'', Moment (m_created_at m)),
      (''user'', Number (m_user m)), (''organization'', Number (m_org m))]"

definition invitation_cells :: "invitation \<Rightarrow> row" where
  "invitation_cells i =
     [(''id'', Number (i_id i)), (''email'', Text (i_email i)), (''role'', Text (i_role i)),
      (''token'', Text (i_token i)), (''status'', Text (i_status i)),
      (''created_at'', Moment (i_created_at i)), (''expires_at'', Moment (i_expires_at i)),
      (''invited_by'', optional Number (i_invited_by i)), (''organization'', Number (i_org i))]"

definition plan_cells :: "plan \<Rightarrow> row" where
  "plan_cells p =
     [(''id'', Number (p_id p)), (''code'', Text (p_code p)), (''name'', Text (p_name p)),
      (''stripe_price_id'', Text (p_stripe_price_id p)), (''limits'', Document (p_limits p)),
      (''is_active'', Flag (p_is_active p))]"

definition subscription_cells :: "subscription \<Rightarrow> row" where
  "subscription_cells s =
     [(''id'', Number (s_id s)), (''stripe_customer_id'', Text (s_stripe_customer_id s)),
      (''stripe_subscription_id'', Text (s_stripe_subscription_id s)), (''status'', Text (s_status s)),
      (''current_period_end'', optional Moment (s_current_period_end s)),
      (''updated_at'', Moment (s_updated_at s)), (''organization'', Number (s_org s)),
      (''plan'', Number (s_plan s))]"

definition event_cells :: "webhook_event \<Rightarrow> row" where
  "event_cells w =
     [(''id'', Number (w_id w)), (''stripe_event_id'', Text (w_stripe_event_id w)),
      (''type'', Text (w_type w)), (''processed_at'', Moment (w_processed_at w))]"

definition project_cells :: "project \<Rightarrow> row" where
  "project_cells p =
     [(''id'', Number (pr_id p)), (''name'', Text (pr_name p)),
      (''description'', Text (pr_description p)), (''created_at'', Moment (pr_created_at p)),
      (''created_by'', optional Number (pr_created_by p)), (''organization'', Number (pr_org p))]"

definition rows_of :: "db \<Rightarrow> tables" where
  "rows_of d =
     [(''accounts.user'', map user_cells (tb_rows (db_users d))),
      (''organizations.organization'', map organization_cells (tb_rows (db_orgs d))),
      (''organizations.membership'', map membership_cells (tb_rows (db_members d))),
      (''organizations.invitation'', map invitation_cells (tb_rows (db_invites d))),
      (''billing.plan'', map plan_cells (tb_rows (db_plans d))),
      (''billing.subscription'', map subscription_cells (tb_rows (db_subs d))),
      (''billing.webhookevent'', map event_cells (tb_rows (db_events d))),
      (''projects.project'', map project_cells (tb_rows (db_projects d)))]"

lemmas cells_defs =
  user_cells_def organization_cells_def membership_cells_def invitation_cells_def plan_cells_def
  subscription_cells_def event_cells_def project_cells_def

subsection \<open>The flat condition\<close>

definition all_rows :: "('r \<Rightarrow> bool) \<Rightarrow> 'r tbl \<Rightarrow> bool" where
  "all_rows P t \<longleftrightarrow> (\<forall>r \<in> set (tb_rows t). P r)"

definition user_keys :: "db \<Rightarrow> key set" where
  "user_keys d = u_id ` set (tb_rows (db_users d))"

definition plan_keys :: "db \<Rightarrow> key set" where
  "plan_keys d = p_id ` set (tb_rows (db_plans d))"

definition user_fits :: "user \<Rightarrow> bool" where
  "user_fits u \<longleftrightarrow> length (u_password u) \<le> 128 \<and> length (u_first_name u) \<le> 150 \<and>
     length (u_last_name u) \<le> 150 \<and> length (u_email u) \<le> 254"

definition org_fits :: "key set \<Rightarrow> organization \<Rightarrow> bool" where
  "org_fits U x \<longleftrightarrow> length (o_name x) \<le> 255 \<and> length (o_slug x) \<le> 255 \<and>
     set_option (o_created_by x) \<subseteq> U"

definition member_fits :: "key set \<Rightarrow> membership \<Rightarrow> bool" where
  "member_fits U m \<longleftrightarrow> m_role m \<in> set Role_choices \<and> m_user m \<in> U"

definition invite_fits :: "key set \<Rightarrow> invitation \<Rightarrow> bool" where
  "invite_fits U i \<longleftrightarrow> length (i_email i) \<le> 254 \<and> length (i_token i) \<le> 255 \<and>
     i_role i \<in> set Role_choices \<and> i_status i \<in> {PENDING, ACCEPTED, REVOKED, EXPIRED} \<and>
     set_option (i_invited_by i) \<subseteq> U"

definition plan_fits :: "plan \<Rightarrow> bool" where
  "plan_fits p \<longleftrightarrow> length (p_code p) \<le> 32 \<and> length (p_name p) \<le> 64 \<and>
     length (p_stripe_price_id p) \<le> 255"

definition sub_fits :: "key set \<Rightarrow> subscription \<Rightarrow> bool" where
  "sub_fits P s \<longleftrightarrow> length (s_stripe_customer_id s) \<le> 255 \<and>
     length (s_stripe_subscription_id s) \<le> 255 \<and> s_status s \<in> STATUSES \<and> s_plan s \<in> P"

definition event_fits :: "webhook_event \<Rightarrow> bool" where
  "event_fits w \<longleftrightarrow> length (w_stripe_event_id w) \<le> 255 \<and> length (w_type w) \<le> 64"

definition project_fits :: "key set \<Rightarrow> project \<Rightarrow> bool" where
  "project_fits U p \<longleftrightarrow> length (pr_name p) \<le> 255 \<and> set_option (pr_created_by p) \<subseteq> U"

definition typed :: "db \<Rightarrow> bool" where
  "typed d \<longleftrightarrow>
     all_rows user_fits (db_users d) \<and> all_rows (org_fits (user_keys d)) (db_orgs d) \<and>
     all_rows (member_fits (user_keys d)) (db_members d) \<and>
     all_rows (invite_fits (user_keys d)) (db_invites d) \<and> all_rows plan_fits (db_plans d) \<and>
     all_rows (sub_fits (plan_keys d)) (db_subs d) \<and> all_rows event_fits (db_events d) \<and>
     all_rows (project_fits (user_keys d)) (db_projects d) \<and> tbl_unique p_code (db_plans d)"

lemmas fits_defs =
  user_fits_def org_fits_def member_fits_def invite_fits_def plan_fits_def sub_fits_def
  event_fits_def project_fits_def

interpretation code_key: unique_key p_id set_p_id p_code by unfold_locales simp

subsection \<open>Typed databases are legal instances\<close>

lemma distinct_key_rows:
  assumes "tbl_wf pk t" "tbl_unique key t" "\<And>x y. K x = K y \<Longrightarrow> key x = key y"
  shows "distinct (map K (tb_rows t))"
proof -
  have "inj_on K (set (tb_rows t))"
  proof (rule inj_onI)
    fix x y assume "x \<in> set (tb_rows t)" "y \<in> set (tb_rows t)" "K x = K y"
    with assms(3) [of x y] show "x = y" using tbl_uniqueD [OF assms(2)] by blast
  qed
  with tbl_wf_distinct_rows [OF assms(1)] show ?thesis by (simp add: distinct_map)
qed

lemma unique_key_columns:
  assumes "tbl_wf pk t" "tbl_unique key t"
    and "\<And>x y. values_of cs (cells x) = values_of cs (cells y) \<Longrightarrow> key x = key y"
  shows "unique_columns cs (map cells (tb_rows t))"
proof -
  have "distinct (map (\<lambda>x. values_of cs (cells x)) (tb_rows t))"
    using assms by (rule distinct_key_rows)
  then show ?thesis by (simp add: unique_columns_def comp_def distinct_filter)
qed

lemma unique_id_columns:
  assumes "tbl_wf pk t" and "\<And>x y. values_of cs (cells x) = values_of cs (cells y) \<Longrightarrow> pk x = pk y"
  shows "unique_columns cs (map cells (tb_rows t))"
proof (rule unique_key_columns [of pk _ pk])
  show "tbl_unique pk t" using tbl_wfD_inj [OF assms(1)] by (simp add: tbl_unique_def)
qed (use assms in blast)+

lemma cell_ok_simps:
  "cell_ok f Null \<longleftrightarrow> fd_null f"
  "v \<noteq> Null \<Longrightarrow> cell_ok f v \<longleftrightarrow> has_type (fd_type f) v \<and>
     (fd_choices f = [] \<or> v \<in> set (map (Text \<circ> fst) (fd_choices f)))"
  by (simp_all add: cell_ok_def)

lemma cell_ok_optional:
  "cell_ok f (optional g v) \<longleftrightarrow> (case v of None \<Rightarrow> fd_null f | Some x \<Rightarrow> cell_ok f (g x))"
  by (simp add: optional_def cell_ok_def split: option.splits)

lemma optional_cell [simp]: "optional Number v = Null \<longleftrightarrow> v = None" "optional Number v = Number k \<longleftrightarrow> v = Some k"
  by (simp_all add: optional_def split: option.splits)

lemma number_ref: "Some (Number k) \<in> (\<lambda>x. Some (Number (key x))) ` X \<longleftrightarrow> k \<in> key ` X"
  by auto

lemma optional_ref:
  "v = None \<or> Some (optional Number v) \<in> (\<lambda>x. Some (Number (key x))) ` X \<longleftrightarrow> set_option v \<subseteq> key ` X"
  by (cases v) (auto simp: optional_def)

lemma rows_of_simps [simp]:
  "table_rows (rows_of d) ''accounts.user'' = map user_cells (tb_rows (db_users d))"
  "table_rows (rows_of d) ''organizations.organization'' = map organization_cells (tb_rows (db_orgs d))"
  "table_rows (rows_of d) ''organizations.membership'' = map membership_cells (tb_rows (db_members d))"
  "table_rows (rows_of d) ''organizations.invitation'' = map invitation_cells (tb_rows (db_invites d))"
  "table_rows (rows_of d) ''billing.plan'' = map plan_cells (tb_rows (db_plans d))"
  "table_rows (rows_of d) ''billing.subscription'' = map subscription_cells (tb_rows (db_subs d))"
  "table_rows (rows_of d) ''billing.webhookevent'' = map event_cells (tb_rows (db_events d))"
  "table_rows (rows_of d) ''projects.project'' = map project_cells (tb_rows (db_projects d))"
  by (simp_all add: table_rows_def rows_of_def)

lemmas table_eval =
  table_ok_def Let_def list_all_iff row_ok_def stored_def is_unique_field_def reference_ok_def
  relation_target_def cell_ok_simps cell_ok_optional comp_def image_image number_ref optional_ref

lemma typed_rows:
  assumes "typed d"
  shows "u \<in> set (tb_rows (db_users d)) \<Longrightarrow> user_fits u"
    "x \<in> set (tb_rows (db_orgs d)) \<Longrightarrow> org_fits (user_keys d) x"
    "m \<in> set (tb_rows (db_members d)) \<Longrightarrow> member_fits (user_keys d) m"
    "i \<in> set (tb_rows (db_invites d)) \<Longrightarrow> invite_fits (user_keys d) i"
    "p \<in> set (tb_rows (db_plans d)) \<Longrightarrow> plan_fits p"
    "s \<in> set (tb_rows (db_subs d)) \<Longrightarrow> sub_fits (plan_keys d) s"
    "w \<in> set (tb_rows (db_events d)) \<Longrightarrow> event_fits w"
    "q \<in> set (tb_rows (db_projects d)) \<Longrightarrow> project_fits (user_keys d) q"
  using assms by (auto simp: typed_def all_rows_def)

lemma choice_widths:
  "r \<in> set Role_choices \<Longrightarrow> length r \<le> 16"
  "st \<in> {PENDING, ACCEPTED, REVOKED, EXPIRED} \<Longrightarrow> length st \<le> 16"
  "su \<in> STATUSES \<Longrightarrow> length su \<le> 32"
  by (auto simp: Role_choices_def STATUSES_def OWNER_def ADMIN_def MEMBER_def PENDING_def
      ACCEPTED_def REVOKED_def EXPIRED_def ACTIVE_def PAST_DUE_def CANCELED_def INCOMPLETE_def)

text \<open>Looking up columns without unfolding the whole schema.\<close>

definition created_model :: "migration \<Rightarrow> nat \<Rightarrow> model" where
  "created_model mg i = (case mg_operations mg ! i of CreateModel n m \<Rightarrow> m | RunPython f \<Rightarrow> no_model)"

lemma created_models_eq:
  "created_models =
     [(''accounts.user'', created_model accounts_0001 0),
      (''organizations.organization'', created_model organizations_0001 0),
      (''organizations.membership'', created_model organizations_0001 1),
      (''organizations.invitation'', created_model organizations_0002 0),
      (''billing.plan'', created_model billing_0001 0),
      (''billing.webhookevent'', created_model billing_0001 1),
      (''billing.subscription'', created_model billing_0001 2),
      (''projects.project'', created_model projects_0001 0)]"
  by (simp add: created_models_def migration_defs created_model_def)

lemma created_lookup:
  "map_of created_models ''accounts.user'' = Some (created_model accounts_0001 0)"
  "map_of created_models ''organizations.organization'' = Some (created_model organizations_0001 0)"
  "map_of created_models ''organizations.membership'' = Some (created_model organizations_0001 1)"
  "map_of created_models ''organizations.invitation'' = Some (created_model organizations_0002 0)"
  "map_of created_models ''billing.plan'' = Some (created_model billing_0001 0)"
  "map_of created_models ''billing.webhookevent'' = Some (created_model billing_0001 1)"
  "map_of created_models ''billing.subscription'' = Some (created_model billing_0001 2)"
  "map_of created_models ''projects.project'' = Some (created_model projects_0001 0)"
  by (simp_all add: created_models_eq)

lemma column_simps [simp]:
  "fd_type (column t) = t" "fd_editable (column t)" "\<not> fd_null (column t)"
  "fd_default (column t) = No_Default" "\<not> fd_unique (column t)" "\<not> fd_primary_key (column t)"
  "fd_choices (column t) = []" "fd_choices (related n t) = []"
  "fd_type (related n t) = t" "fd_editable (related n t)" "\<not> fd_null (related n t)"
  "fd_default (related n t) = No_Default" "\<not> fd_unique (related n t)" "\<not> fd_primary_key (related n t)"
  by (simp_all add: column_def related_def)

lemmas lookup_eval =
  created_lookup created_model_def accounts_0001_def organizations_0001_def organizations_0002_def
  billing_0001_def projects_0001_def big_auto_id_def

abbreviation created_table_ok :: "db \<Rightarrow> string \<Rightarrow> bool" where
  "created_table_ok d t \<equiv> \<forall>m. map_of created_models t = Some m \<longrightarrow> table_ok (rows_of d) (t, m)"

lemma user_table_ok:
  assumes "api_ok d" "typed d"
  shows "created_table_ok d ''accounts.user''"
proof -
  let ?rows = "map user_cells (tb_rows (db_users d))"
  have wf: "tbl_wf u_id (db_users d)" and u: "tbl_unique u_email (db_users d)" and l: "emails_lower d"
    using assms(1) by (simp_all add: api_ok_def db_inv_def keys_ok_def unique_ok_def)
  have low: "tbl_unique (\<lambda>u. str_lower (u_email u)) (db_users d)"
    using u l by (auto simp: tbl_unique_def inj_on_def emails_lower_def)
  have "distinct (map (\<lambda>x. lowered (map_of (user_cells x) ''email'')) (tb_rows (db_users d)))"
    by (rule distinct_key_rows [OF wf low]) (simp add: user_cells_def)
  moreover have "unique_columns [''email''] ?rows"
    by (rule unique_key_columns [OF wf u]) (simp add: user_cells_def values_of_def)
  moreover have "unique_columns [''id''] ?rows"
    by (rule unique_id_columns [OF wf]) (simp add: user_cells_def values_of_def)
  ultimately show ?thesis
    by (simp add: lookup_eval table_eval user_cells_def)
      (use typed_rows(1) [OF assms(2)] in \<open>auto simp: user_fits_def cell_ok_simps split: option.splits\<close>)
qed

lemma organization_table_ok:
  assumes "api_ok d" "typed d"
  shows "created_table_ok d ''organizations.organization''"
proof -
  let ?rows = "map organization_cells (tb_rows (db_orgs d))"
  have wf: "tbl_wf o_id (db_orgs d)" and u: "tbl_unique o_slug (db_orgs d)"
    using assms(1) by (simp_all add: api_ok_def db_inv_def keys_ok_def unique_ok_def)
  have "unique_columns [''slug''] ?rows"
    by (rule unique_key_columns [OF wf u]) (simp add: organization_cells_def values_of_def)
  moreover have "unique_columns [''id''] ?rows"
    by (rule unique_id_columns [OF wf]) (simp add: organization_cells_def values_of_def)
  ultimately show ?thesis
    by (simp add: lookup_eval table_eval organization_cells_def user_cells_def)
      (use typed_rows(2) [OF assms(2)] in
        \<open>auto simp: org_fits_def user_keys_def cell_ok_simps split: option.splits\<close>)
qed

lemma membership_table_ok:
  assumes "api_ok d" "typed d"
  shows "created_table_ok d ''organizations.membership''"
proof -
  let ?rows = "map membership_cells (tb_rows (db_members d))"
  have wf: "tbl_wf m_id (db_members d)" and u: "tbl_unique member_pair (db_members d)"
    and r: "\<And>m. m \<in> set (tb_rows (db_members d)) \<Longrightarrow> m_org m \<in> org_keys d"
    using assms(1) by (simp_all add: api_ok_def db_inv_def keys_ok_def unique_ok_def refs_ok_def)
  have "unique_columns [''user'', ''organization''] ?rows"
    by (rule unique_key_columns [OF wf u]) (simp add: membership_cells_def values_of_def member_pair_def)
  moreover have "unique_columns [''id''] ?rows"
    by (rule unique_id_columns [OF wf]) (simp add: membership_cells_def values_of_def)
  ultimately show ?thesis
    using typed_rows(3) [OF assms(2)] choice_widths(1) r
    by (simp add: lookup_eval table_eval membership_cells_def user_cells_def organization_cells_def
        member_fits_def)
      (auto simp: user_keys_def org_keys_def Role_choices_def OWNER_def ADMIN_def MEMBER_def)
qed

lemma invitation_table_ok:
  assumes "api_ok d" "typed d"
  shows "created_table_ok d ''organizations.invitation''"
proof -
  let ?rows = "map invitation_cells (tb_rows (db_invites d))"
  have wf: "tbl_wf i_id (db_invites d)" and u: "tbl_unique i_token (db_invites d)"
    and r: "\<And>i. i \<in> set (tb_rows (db_invites d)) \<Longrightarrow> i_org i \<in> org_keys d"
    using assms(1) by (simp_all add: api_ok_def db_inv_def keys_ok_def unique_ok_def refs_ok_def)
  have "unique_columns [''token''] ?rows"
    by (rule unique_key_columns [OF wf u]) (simp add: invitation_cells_def values_of_def)
  moreover have "unique_columns [''id''] ?rows"
    by (rule unique_id_columns [OF wf]) (simp add: invitation_cells_def values_of_def)
  ultimately show ?thesis
    using typed_rows(4) [OF assms(2)] choice_widths(1,2) r
    by (simp add: lookup_eval table_eval invitation_cells_def user_cells_def organization_cells_def
        invite_fits_def)
      (auto simp: user_keys_def org_keys_def Role_choices_def OWNER_def ADMIN_def MEMBER_def
        PENDING_def ACCEPTED_def REVOKED_def EXPIRED_def cell_ok_simps split: option.splits)
qed

lemma plan_table_ok:
  assumes "api_ok d" "typed d"
  shows "created_table_ok d ''billing.plan''"
proof -
  let ?rows = "map plan_cells (tb_rows (db_plans d))"
  have wf: "tbl_wf p_id (db_plans d)" and u: "tbl_unique p_code (db_plans d)"
    using assms by (simp_all add: api_ok_def db_inv_def keys_ok_def typed_def)
  have "unique_columns [''code''] ?rows"
    by (rule unique_key_columns [OF wf u]) (simp add: plan_cells_def values_of_def)
  moreover have "unique_columns [''id''] ?rows"
    by (rule unique_id_columns [OF wf]) (simp add: plan_cells_def values_of_def)
  ultimately show ?thesis
    using typed_rows(5) [OF assms(2)]
    by (simp add: lookup_eval table_eval plan_cells_def plan_fits_def)
qed

lemma subscription_table_ok:
  assumes "api_ok d" "typed d"
  shows "created_table_ok d ''billing.subscription''"
proof -
  let ?rows = "map subscription_cells (tb_rows (db_subs d))"
  have wf: "tbl_wf s_id (db_subs d)" and u: "tbl_unique s_org (db_subs d)"
    and r: "\<And>s. s \<in> set (tb_rows (db_subs d)) \<Longrightarrow> s_org s \<in> org_keys d"
    using assms(1) by (simp_all add: api_ok_def db_inv_def keys_ok_def unique_ok_def refs_ok_def)
  have "unique_columns [''organization''] ?rows"
    by (rule unique_key_columns [OF wf u]) (simp add: subscription_cells_def values_of_def)
  moreover have "unique_columns [''id''] ?rows"
    by (rule unique_id_columns [OF wf]) (simp add: subscription_cells_def values_of_def)
  ultimately show ?thesis
    using typed_rows(6) [OF assms(2)] choice_widths(3) r
    by (simp add: lookup_eval table_eval subscription_cells_def plan_cells_def organization_cells_def
        sub_fits_def)
      (auto simp: plan_keys_def org_keys_def STATUSES_def ACTIVE_def PAST_DUE_def CANCELED_def
        INCOMPLETE_def cell_ok_simps split: option.splits)
qed

lemma event_table_ok:
  assumes "api_ok d" "typed d"
  shows "created_table_ok d ''billing.webhookevent''"
proof -
  let ?rows = "map event_cells (tb_rows (db_events d))"
  have wf: "tbl_wf w_id (db_events d)" and u: "tbl_unique w_stripe_event_id (db_events d)"
    using assms(1) by (simp_all add: api_ok_def db_inv_def keys_ok_def unique_ok_def)
  have "unique_columns [''stripe_event_id''] ?rows"
    by (rule unique_key_columns [OF wf u]) (simp add: event_cells_def values_of_def)
  moreover have "unique_columns [''id''] ?rows"
    by (rule unique_id_columns [OF wf]) (simp add: event_cells_def values_of_def)
  ultimately show ?thesis
    using typed_rows(7) [OF assms(2)]
    by (simp add: lookup_eval table_eval event_cells_def event_fits_def)
qed

lemma project_table_ok:
  assumes "api_ok d" "typed d"
  shows "created_table_ok d ''projects.project''"
proof -
  let ?rows = "map project_cells (tb_rows (db_projects d))"
  have wf: "tbl_wf pr_id (db_projects d)"
    and r: "\<And>p. p \<in> set (tb_rows (db_projects d)) \<Longrightarrow> pr_org p \<in> org_keys d"
    using assms(1) by (simp_all add: api_ok_def db_inv_def keys_ok_def refs_ok_def)
  have "unique_columns [''id''] ?rows"
    by (rule unique_id_columns [OF wf]) (simp add: project_cells_def values_of_def)
  then show ?thesis
    using typed_rows(8) [OF assms(2)] r
    by (simp add: lookup_eval table_eval project_cells_def user_cells_def organization_cells_def
        project_fits_def)
      (auto simp: user_keys_def org_keys_def cell_ok_simps split: option.splits)
qed

lemma created_names:
  "map fst created_models =
     [''accounts.user'', ''organizations.organization'', ''organizations.membership'',
      ''organizations.invitation'', ''billing.plan'', ''billing.webhookevent'',
      ''billing.subscription'', ''projects.project'']"
  by (simp add: created_models_eq)

lemma typed_legal:
  assumes "api_ok d" "typed d"
  shows "legal created_models (rows_of d)"
proof -
  have distinct: "distinct (map fst created_models)" unfolding created_names by simp
  have "table_ok (rows_of d) (t, m)" if "(t, m) \<in> set created_models" for t m
  proof -
    have "map_of created_models t = Some m" using that distinct by (simp add: map_of_is_SomeI)
    moreover have "t \<in> set (map fst created_models)" using that by force
    ultimately show ?thesis unfolding created_names
      using user_table_ok [OF assms] organization_table_ok [OF assms] membership_table_ok [OF assms]
        invitation_table_ok [OF assms] plan_table_ok [OF assms] subscription_table_ok [OF assms]
        event_table_ok [OF assms] project_table_ok [OF assms]
      by auto
  qed
  moreover have "map_of created_models t \<noteq> None" if "(t, rows) \<in> set (rows_of d)" for t rows
  proof -
    have "t \<in> set (map fst created_models)" using that unfolding created_names by (auto simp: rows_of_def)
    then show ?thesis by (metis map_of_eq_None_iff list.set_map)
  qed
  ultimately show ?thesis unfolding legal_def by (auto simp: list_all_iff)
qed

end
