(* ===== verification/Preservation.thy ===== *)
theory Preservation
  imports Typing
begin

section \<open>Every step keeps the database well-typed\<close>

text \<open>
  Preservation of \<open>typed\<close>, table by table (\<open>typed_tables\<close>, \<open>typed_users\<close>), endpoint by endpoint and
  command by command, and the typing theorem: whatever stored users and anonymous callers ask of the
  API, and whatever the operator's commands do in between, the database is a legal instance of the
  schema the migrations build.
\<close>

subsection \<open>Every call keeps the rows typed\<close>

text \<open>The caller of a request is a stored user: authentication loads it by its key.\<close>

definition authentic :: "db \<Rightarrow> user option \<Rightarrow> bool" where
  "authentic d caller \<longleftrightarrow> (\<forall>u. caller = Some u \<longrightarrow> u_id u \<in> user_keys d)"

lemma all_rows_insert [simp]:
  "all_rows P (tbl_insert sp r t) \<longleftrightarrow> all_rows P t \<and> P (sp (tb_next t) r)"
  by (auto simp: all_rows_def)

lemma all_rows_update:
  "all_rows P t \<Longrightarrow> (\<And>r. r \<in> set (tb_rows t) \<Longrightarrow> Q r \<Longrightarrow> P r \<Longrightarrow> P (f r)) \<Longrightarrow>
   all_rows P (tbl_update_where Q f t)"
  by (auto simp: all_rows_def)

lemma all_rows_delete [simp]: "all_rows P t \<Longrightarrow> all_rows P (tbl_delete_where Q t)"
  by (auto simp: all_rows_def)

lemma typed_frame [simp]:
  "typed (d\<lparr>db_queue := q\<rparr>) = typed d" "typed (d\<lparr>db_tokens := tk\<rparr>) = typed d"
  "typed (d\<lparr>db_blacklist := b\<rparr>) = typed d" "typed (enqueue t d) = typed d"
  by (simp_all add: typed_def user_keys_def plan_keys_def enqueue_def)

lemma typed_tables:
  assumes "typed d"
  shows "all_rows (org_fits (user_keys d)) orgs \<Longrightarrow> typed (d\<lparr>db_orgs := orgs\<rparr>)"
    "all_rows (member_fits (user_keys d)) members \<Longrightarrow> typed (d\<lparr>db_members := members\<rparr>)"
    "all_rows (invite_fits (user_keys d)) invites \<Longrightarrow> typed (d\<lparr>db_invites := invites\<rparr>)"
    "all_rows (sub_fits (plan_keys d)) subs \<Longrightarrow> typed (d\<lparr>db_subs := subs\<rparr>)"
    "all_rows event_fits events \<Longrightarrow> typed (d\<lparr>db_events := events\<rparr>)"
    "all_rows (project_fits (user_keys d)) projects \<Longrightarrow> typed (d\<lparr>db_projects := projects\<rparr>)"
  using assms by (simp_all add: typed_def user_keys_def plan_keys_def)

lemma typed_parts:
  assumes "typed d"
  shows "all_rows (org_fits (user_keys d)) (db_orgs d)" "all_rows (member_fits (user_keys d)) (db_members d)"
    "all_rows (invite_fits (user_keys d)) (db_invites d)" "all_rows (sub_fits (plan_keys d)) (db_subs d)"
    "all_rows event_fits (db_events d)" "all_rows (project_fits (user_keys d)) (db_projects d)"
  using assms by (simp_all add: typed_def)

lemma fits_mono:
  assumes "U \<subseteq> V"
  shows "org_fits U x \<Longrightarrow> org_fits V x" "member_fits U m \<Longrightarrow> member_fits V m"
    "invite_fits U i \<Longrightarrow> invite_fits V i" "project_fits U p \<Longrightarrow> project_fits V p"
  using assms by (auto simp: fits_defs intro: subset_trans)

lemma typed_users:
  assumes "typed d" "all_rows user_fits t" "user_keys d \<subseteq> u_id ` set (tb_rows t)"
  shows "typed (d\<lparr>db_users := t\<rparr>)"
proof -
  let ?d = "d\<lparr>db_users := t\<rparr>"
  have keys: "user_keys d \<subseteq> user_keys ?d" "plan_keys ?d = plan_keys d"
    using assms(3) by (simp_all add: user_keys_def plan_keys_def)
  have "all_rows (org_fits (user_keys ?d)) (db_orgs d)"
    "all_rows (member_fits (user_keys ?d)) (db_members d)"
    "all_rows (invite_fits (user_keys ?d)) (db_invites d)"
    "all_rows (project_fits (user_keys ?d)) (db_projects d)"
    using typed_parts [OF assms(1)] fits_mono [OF keys(1)] by (simp_all add: all_rows_def)
  with assms(1,2) keys(2) show ?thesis by (simp add: typed_def)
qed

lemma typed_update_user:
  assumes "typed d" "\<And>u. u_id (f u) = u_id u" "\<And>u. user_fits u \<Longrightarrow> user_fits (f u)"
  shows "typed (d\<lparr>db_users := tbl_update_where P f (db_users d)\<rparr>)"
  using assms update_image_key [of "db_users d" P u_id f]
  by (intro typed_users all_rows_update) (simp_all add: typed_def user_keys_def del: tbl_rows_simps)

lemma typed_user_insert:
  assumes "typed d" "user_insert u d = Inr (v, d')"
  shows "typed d'"
  using assms by (auto simp: user_insert_Inr user_keys_def user_fits_def typed_def [of d] intro!: typed_users)

lemma register_typed:
  assumes "typed d"
  shows "typed (snd (register_view ne pw co now body d))"
proof -
  have "typed d'" if "register_create ne pw now v d = Inr (u, d')" for v u d'
    using that assms typed_user_insert
    by (cases v) (auto simp: register_create_def create_user_def create_user_row_def bind_res_Inr_iff
        split: if_splits)
  with assms show ?thesis
    by (auto simp: register_view_def bind_res_Inr_iff split: sum.splits prod.splits)
qed

lemma login_typed:
  assumes "typed d" "jwt_ok f"
  shows "typed (snd (login_view f rv body d))"
proof -
  have *: "typed (snd (f e p d))" for e p
  proof -
    obtain P t tk bl where s: "snd (f e p d) = d\<lparr>db_users := tbl_update_where P
        (\<lambda>u. u\<lparr>u_last_login := t\<rparr>) (db_users d), db_tokens := tk, db_blacklist := bl\<rparr>"
      using assms(2) unfolding jwt_ok_def by meson
    show ?thesis unfolding s typed_frame
      using assms(1) by (rule typed_update_user) (simp_all add: user_fits_def)
  qed
  have "snd (login_view f rv body d) = (case body of Inl e \<Rightarrow> d | Inr (e, p) \<Rightarrow> snd (f e p d))"
    by (auto simp: login_view_eq split: sum.splits prod.splits)
  with * assms(1) show ?thesis by (auto split: sum.splits prod.splits)
qed

lemma reset_confirm_typed:
  assumes "typed d"
  shows "typed (snd (password_reset_confirm_view c pw timeout now body d))"
proof -
  have frame: "typed (snd (revoke_all_refresh_tokens k x))" if "typed x" for k x
    using that by (auto simp: revoke_all_refresh_tokens_def split: prod.splits)
  have pw_ok: "typed y" if "set_user_password u h x = Inr y" "typed x" for u h x y
    using that
    by (auto simp: set_user_password_def bind_res_Inr_iff char_field_def user_fits_def
        split: if_splits intro!: typed_update_user)
  show ?thesis using assms frame pw_ok
    by (auto simp: password_reset_confirm_view_eq split: sum.splits prod.splits) (metis snd_conv)+
qed

lemma typed_free_subscription:
  assumes "typed d"
  shows "typed (create_free_subscription c now k d)"
proof -
  have "sub_fits (plan_keys d) (set_s_id j (new_subscription now k (p_id p)))"
    if "free_plan d = Some p" for p j
    using that
    by (auto simp: free_plan_def sub_fits_def new_subscription_def plan_keys_def dest!: tbl_first_Some)
  with assms show ?thesis
    by (auto simp: create_free_subscription_def get_or_create_subscription_def typed_parts
        split: option.splits intro!: typed_tables)
qed

lemma org_create_typed:
  assumes "db_inv d" "typed d" "authentic d u"
  shows "typed (snd (org_create sl now (\<lambda>_ x. x) body d u))"
proof -
  have "typed (with_new_org now user name slug d)"
    if "u = Some user" "length name \<le> 255" "length slug \<le> 255" for user name slug
  proof -
    let ?k = "tb_next (db_orgs d)"
    let ?d1 = "d\<lparr>db_orgs := tbl_insert set_o_id (org_row now user name slug 0) (db_orgs d)\<rparr>"
    let ?d2 = "?d1\<lparr>db_members := tbl_insert set_m_id (owner_row now user ?k) (db_members d)\<rparr>"
    have key: "u_id user \<in> user_keys d" using assms(3) that(1) by (simp add: authentic_def)
    have "typed ?d1" using assms(2) key that
      by (intro typed_tables) (simp_all add: typed_parts org_fits_def org_row_def)
    moreover have "all_rows (member_fits (user_keys ?d1)) (db_members ?d2)"
      using typed_parts(2) [OF assms(2)] key
      by (simp add: member_fits_def owner_row_def Role_choices_def user_keys_def)
    ultimately have "typed ?d2" using typed_tables(2) by simp
    then show ?thesis by (simp add: with_new_org_def Let_def typed_free_subscription)
  qed
  then have *: "typed (snd (create_org_with_owner sl now (\<lambda>_ x. x) user name d))" if "u = Some user" for user name
    using that assms(2) by (simp add: create_org_eq [OF assms(1)] Let_def not_less)
  show ?thesis
  proof (cases "bind_res (require_user d u) (\<lambda>user.
           bind_res body (\<lambda>name. bind_res (validate_name name) (\<lambda>name. Inr (user, name))))")
    case (Inl e)
    with assms(2) show ?thesis by (simp add: org_create_def)
  next
    case (Inr x)
    then have "u = Some (fst x)" by (cases u) (auto simp: bind_res_Inr_iff)
    from * [OF this, of "snd x"] Inr show ?thesis
      by (cases x; cases "create_org_with_owner sl now (\<lambda>_ x. x) (fst x) (snd x) d")
        (auto simp: org_create_def split: sum.splits)
  qed
qed

lemma org_update_typed:
  assumes "typed d"
  shows "typed (snd (org_update raw body d u))"
proof -
  have "typed (d\<lparr>db_orgs := tbl_update_where P (\<lambda>x. x\<lparr>o_name := n\<rparr>) (db_orgs d)\<rparr>)"
    if "char_field 255 n = Inr ()" for P n
    using that assms typed_parts [OF assms]
    by (intro typed_tables all_rows_update) (auto simp: org_fits_def char_field_def split: if_splits)
  with assms show ?thesis
    by (auto simp: org_update_def Let_def split: sum.splits prod.splits)
qed

lemma org_destroy_typed:
  assumes "typed d"
  shows "typed (snd (org_destroy raw d u))"
proof -
  have "typed (organization_delete k d)" for k
    using typed_parts [OF assms] assms
    by (simp add: typed_def organization_delete_def user_keys_def plan_keys_def)
  with assms show ?thesis by (auto simp: org_destroy_def split: sum.splits prod.splits)
qed

lemma member_typed:
  assumes "typed d"
  shows "typed (snd (member_action meth raw mraw body d u))"
  using typed_parts(2) [OF assms] assms
  by (cases rule: member_cases [of meth raw mraw body d u])
    (auto simp: delete_member_row_def save_member_role_def member_fits_def
      intro!: typed_tables all_rows_update)

lemma invite_typed:
  assumes "typed d" "authentic d u"
  shows "typed (snd (invitation_create now days token raw body d u))"
proof (cases rule: invitation_create_cases [of now days token raw body d u])
  case (refused e)
  with assms show ?thesis by simp
next
  case (created usr org m email role d1)
  have "u = Some usr" using created(1) by (simp add: org_access_def)
  then have "u_id usr \<in> user_keys d" using assms(2) by (simp add: authentic_def)
  then have "invite_fits (user_keys d) (set_i_id k (new_invite now days token usr org email role 0))" for k
    using created(4,12,13) by (simp add: invite_fits_def new_invite_def)
  then have "typed d1" unfolding created(10)
    using assms(1) typed_parts(3) [OF assms(1)] by (intro typed_tables) simp_all
  with created(11) show ?thesis by simp
qed

lemma accept_typed:
  assumes "db_inv d" "typed d" "authentic d u"
  shows "typed (snd (invitation_accept now body d u))"
proof -
  have status: "typed (set_invite_status i st x)"
    if "typed x" "st \<in> {PENDING, ACCEPTED, REVOKED, EXPIRED}" for i st x
    using that typed_parts(3) [OF that(1)] unfolding set_invite_status_def
    by (intro typed_tables all_rows_update) (auto simp: invite_fits_def)
  have "tbl_unique i_token (db_invites d)" using assms(1) by (simp add: db_inv_def unique_ok_def)
  then show ?thesis
  proof (cases rule: accept_cases [of d now body u])
    case (refused e)
    with assms show ?thesis by simp
  next
    case (expired v token i)
    with status [OF assms(2), of EXPIRED i] show ?thesis by simp
  next
    case (accepted v token i m d1)
    have "m_role m \<in> set Role_choices" "m_user m \<in> user_keys d" if "m = \<lparr>m_id = k, m_user = u_id v,
        m_org = i_org i, m_role = i_role i, m_created_at = now\<rparr>" for k
      using that typed_rows(4) [OF assms(2) accepted(3)] assms(3) accepted(1)
      by (simp_all add: invite_fits_def authentic_def)
    then have "typed d1"
      using get_or_create_member_spec [OF accepted(8)] assms(2) typed_parts(2) [OF assms(2)]
      by (auto simp: member_fits_def all_rows_def intro!: typed_tables)
    with status [of d1 ACCEPTED i] accepted(9) show ?thesis by simp
  qed
qed

lemma project_typed:
  assumes "typed d" "authentic d u"
  shows "typed (snd (project_step call u h d))"
proof -
  obtain res d' where step: "project_step call u h d = (res, d')" by fastforce
  from step have "typed d'"
  proof (cases rule: project_step_cases)
    case same
    with assms show ?thesis by simp
  next
    case (create usr org m p)
    have "project_fits (user_keys d) (set_pr_id k p)" for k
      using create(5,6) assms(2) by (cases u) (auto simp: project_fits_def authentic_def)
    with create(4) assms(1) typed_parts(6) [OF assms(1)] show ?thesis by (auto intro!: typed_tables)
  next
    case (update usr org m obj obj')
    have "project_fits (user_keys d) obj'"
      using update(7,8) typed_rows(8) [OF assms(1) update(2)] by (simp add: project_fits_def)
    with update(6) assms(1) typed_parts(6) [OF assms(1)] show ?thesis
      by (auto intro!: typed_tables all_rows_update)
  next
    case (delete usr org m obj)
    with assms(1) typed_parts(6) [OF assms(1)] show ?thesis by (auto intro!: typed_tables)
  qed
  with step show ?thesis by simp
qed

lemma checkout_typed:
  assumes "typed d"
  shows "typed (snd (checkout_view st body d r))"
  using checkout_effect [OF prod.collapse [symmetric], of d st body r] assms typed_parts(4) [OF assms]
  by (auto simp: customer_effect_def sub_fits_def intro!: typed_tables all_rows_update)

lemma sub_effect_typed:
  assumes "keys_ok d" "typed d" "sub_effect d d'"
  shows "typed d'"
proof (cases rule: sub_effect_cases [OF assms(3)])
  case 1
  with assms(2) show ?thesis by simp
next
  case (2 s f)
  have key: "r = s" if "r \<in> set (tb_rows (db_subs d))" "s_id r = s_id s" for r
    using that 2(1) assms(1) by (auto simp: keys_ok_def dest!: tbl_wfD_inj dest: inj_onD)
  have "sub_fits (plan_keys d) s" using typed_rows(6) [OF assms(2) 2(1)] .
  with 2(3) have "sub_fits (plan_keys d) (f s)"
    by (auto simp: sub_fits_def sub_write_ok_def plan_keys_def)
  then show ?thesis unfolding 2(4)
    using assms(2) typed_parts(4) [OF assms(2)] key
    by (intro typed_tables all_rows_update) auto
qed

lemma webhook_typed:
  assumes "db_inv d" "typed d"
  shows "typed (snd (webhook_post sc secret ps now payload sg d))"
proof -
  obtain res d' where step: "webhook_post sc secret ps now payload sg d = (res, d')" by fastforce
  from step have "typed d'"
  proof (cases rule: webhook_cases)
    case (processed event i t)
    have "keys_ok (record_event now i t d)"
      using db_invD(1) [OF inv_record_event [OF assms(1) processed(3)]] .
    moreover have "typed (record_event now i t d)" unfolding record_event_def
      using assms(2) typed_parts(5) [OF assms(2)] processed(6,7)
      by (intro typed_tables) (simp_all add: event_fits_def)
    ultimately show ?thesis using dispatcher.effect [OF processed(5)] sub_effect_typed by blast
  qed (use assms(2) in simp_all)
  with step show ?thesis by simp
qed

lemma api_step_typed:
  assumes ok: "api_ok d" and typed: "typed d" and auth: "authentic d u"
    and jwt: "jwt_ok (sv_jwt_validate sv)"
  shows "typed (api_step sv call u d)"
proof (cases call)
  case (Verify_Email now body)
  have "typed (d\<lparr>db_users := tbl_update_where P (\<lambda>u. u\<lparr>u_is_email_verified := True\<rparr>) (db_users d)\<rparr>)" for P
    using typed by (rule typed_update_user) (simp_all add: user_fits_def)
  with typed Verify_Email show ?thesis by (auto simp: verify_email_view_eq split: sum.splits)
next
  case (Reset_Request body)
  with typed show ?thesis
    by (auto simp: password_reset_request_view_eq Let_def split: sum.splits option.splits)
qed (use ok typed auth jwt in \<open>simp_all add: api_ok_def register_typed login_typed reset_confirm_typed
  org_create_typed org_update_typed org_destroy_typed member_typed invite_typed accept_typed
  project_typed checkout_typed webhook_typed\<close>)

subsection \<open>The operator's commands\<close>

definition settings_fit :: "(string \<Rightarrow> string) \<Rightarrow> bool" where
  \<comment> \<open>the configured price ids fit their column\<close>
  "settings_fit setting \<longleftrightarrow> (\<forall>(code, var) \<in> set PRICE_ENV. length (setting var) \<le> 255)"

lemma plan_typed:
  assumes "typed d" "length code \<le> 32" "length name \<le> 64" "length price \<le> 255"
  shows "typed (update_or_create_plan code name limits price d)"
proof (cases "tbl_exists (\<lambda>p. p_code p = code) (db_plans d)")
  case True
  let ?f = "\<lambda>p. p\<lparr>p_name := name, p_limits := limits, p_is_active := True,
      p_stripe_price_id := (if truthy price then price else p_stripe_price_id p)\<rparr>"
  let ?t = "tbl_update_where (\<lambda>p. p_code p = code) ?f (db_plans d)"
  have "p_id ` set (tb_rows ?t) = plan_keys d"
    using update_image_key [of "db_plans d" "\<lambda>p. p_code p = code" p_id ?f]
    by (simp add: plan_keys_def del: tbl_rows_simps)
  moreover have "tbl_unique p_code ?t"
    using assms(1) by (intro code_key.unique_update) (simp_all add: typed_def)
  moreover have "all_rows plan_fits ?t"
    using assms by (intro all_rows_update) (auto simp: typed_def plan_fits_def)
  ultimately show ?thesis using assms(1) True
    by (simp add: update_or_create_plan_def typed_def user_keys_def plan_keys_def del: tbl_rows_simps)
next
  case False
  let ?p = "\<lparr>p_id = 0, p_code = code, p_name = name, p_stripe_price_id = price, p_limits = limits,
      p_is_active = True\<rparr>"
  have "all_rows (sub_fits (insert (tb_next (db_plans d)) (plan_keys d))) (db_subs d)"
    using typed_parts(4) [OF assms(1)] by (simp add: all_rows_def sub_fits_def)
  moreover have "tbl_unique p_code (tbl_insert set_p_id ?p (db_plans d))"
    using assms(1) False by (intro code_key.unique_insert) (simp_all add: typed_def)
  ultimately show ?thesis using assms False
    by (simp add: update_or_create_plan_def typed_def user_keys_def plan_keys_def plan_fits_def)
qed

lemma seed_plans_typed: "typed d \<Longrightarrow> settings_fit setting \<Longrightarrow> typed (seed_plans_command setting d)"
  unfolding seed_plans_command_def DEFAULT_PLANS_def
  by (simp add: plan_typed settings_fit_def PRICE_ENV_def)

lemma typed_subscription:
  assumes "typed d" "p \<in> plan_keys d"
  shows "typed (get_or_create_subscription now k p d)"
  using assms
  by (auto simp: get_or_create_subscription_def sub_fits_def new_subscription_def typed_parts
      split: option.splits intro!: typed_tables)

lemma backfill_typed:
  assumes "typed d"
  shows "typed (backfill now d)"
proof -
  have "typed (fold (\<lambda>org. get_or_create_subscription now (o_id org) p) os d)"
    if "typed d" "p \<in> plan_keys d" for os p d
    using that
  proof (induction os arbitrary: d)
    case (Cons org os)
    then show ?case using typed_subscription [of d p now "o_id org"] by (simp add: plan_keys_def)
  qed simp
  then show ?thesis using assms
    by (auto simp: backfill_def plan_keys_def split: option.splits dest!: tbl_first_Some)
qed

lemma get_or_create_org_typed:
  assumes "typed d" "get_or_create_org now slug name d = (Inr org, d')"
  shows "typed d' \<and> db_users d' = db_users d"
proof (cases "tbl_first (\<lambda>x. o_slug x = slug) (db_orgs d)")
  case (Some x)
  with assms show ?thesis by (simp add: get_or_create_org_def)
next
  case None
  let ?row = "\<lparr>o_id = 0, o_name = name, o_slug = slug, o_created_by = None, o_created_at = now\<rparr>"
  have w: "length name \<le> 255" "length slug \<le> 255"
    using None assms(2) by (auto simp: get_or_create_org_def organization_insert_def bind_res_Inr_iff
        char_field_def split: sum.splits if_splits)
  have "typed (d\<lparr>db_orgs := tbl_insert set_o_id ?row (db_orgs d)\<rparr>)"
    using assms(1) w by (intro typed_tables) (simp_all add: typed_parts org_fits_def)
  with None assms(2) w show ?thesis
    by (auto simp: get_or_create_org_def organization_insert_def char_field_def typed_free_subscription
        split: if_splits)
qed

lemma seed_user_typed:
  assumes "typed d" "role \<in> set Role_choices"
    and g: "get_or_create_user now email name d = (Inr u, d1)"
    and r: "reset_demo_user hash u d1 = Inr d2"
    and m: "get_or_create_member now (u_id u) k role d2 = (m, d3)"
  shows "typed d3 \<and> user_keys d \<subseteq> user_keys d3 \<and> u_id u \<in> user_keys d3"
proof -
  have d1: "typed d1 \<and> user_keys d \<subseteq> user_keys d1 \<and> u_id u \<in> user_keys d1"
  proof (cases "tbl_first (\<lambda>x. u_email x = email) (db_users d)")
    case (Some x)
    with g assms(1) tbl_first_Some [OF Some] show ?thesis
      by (auto simp: get_or_create_user_def user_keys_def)
  next
    case None
    with g obtain v where v: "user_insert v d = Inr (u, d1)"
      by (auto simp: get_or_create_user_def split: sum.splits)
    with typed_user_insert [OF assms(1) v] show ?thesis by (auto simp: user_insert_Inr user_keys_def)
  qed
  let ?f = "\<lambda>x. x\<lparr>u_password := hash, u_is_email_verified := True\<rparr>"
  have d2: "d2 = d1\<lparr>db_users := tbl_update_where (\<lambda>x. u_id x = u_id u) ?f (db_users d1)\<rparr>"
    and w: "length hash \<le> 128"
    using r by (auto simp: reset_demo_user_def bind_res_Inr_iff char_field_def split: if_splits)
  have t2: "typed d2" unfolding d2 using d1 w by (intro typed_update_user) (simp_all add: user_fits_def)
  have k2: "user_keys d2 = user_keys d1" unfolding d2
    using update_image_key [of "db_users d1" "\<lambda>x. u_id x = u_id u" u_id ?f]
    by (simp add: user_keys_def del: tbl_rows_simps)
  have "typed d3"
    using get_or_create_member_spec [OF m] t2 typed_parts(2) [OF t2] d1 k2 assms(2)
    by (auto simp: member_fits_def all_rows_def intro!: typed_tables)
  moreover have "user_keys d3 = user_keys d2"
    using get_or_create_member_spec [OF m] by (auto simp: user_keys_def)
  ultimately show ?thesis using d1 k2 by simp
qed

lemma seed_users_typed:
  assumes "typed d" "\<forall>(email, name, role) \<in> set us. role \<in> set Role_choices"
    and "seed_users now hashes k us d = (Inr users, d')"
  shows "typed d' \<and> user_keys d \<subseteq> user_keys d' \<and> (\<forall>(role, u) \<in> set users. u_id u \<in> user_keys d')"
  using assms
proof (induction us arbitrary: d users)
  case (Cons a us)
  obtain email name role where a: "a = (email, name, role)" by (cases a)
  with Cons.prems obtain u d1 d2 users' where
    g: "get_or_create_user now email name d = (Inr u, d1)"
    and r: "reset_demo_user (hashes email) u d1 = Inr d2" and us: "users = (role, u) # users'"
    and s: "seed_users now hashes k us (snd (get_or_create_member now (u_id u) k role d2)) =
      (Inr users', d')"
    by (auto split: sum.splits prod.splits)
  obtain m d3 where m: "get_or_create_member now (u_id u) k role d2 = (m, d3)" by fastforce
  have step: "typed d3 \<and> user_keys d \<subseteq> user_keys d3 \<and> u_id u \<in> user_keys d3"
    using seed_user_typed [OF Cons.prems(1) _ g r m] Cons.prems(2) a by simp
  with Cons.IH [of d3 users'] s m Cons.prems(2) us show ?case by auto
qed simp

lemma seed_projects_typed:
  "typed d \<Longrightarrow> owner \<in> user_keys d \<Longrightarrow> seed_projects now k owner names d = (Inr (), d') \<Longrightarrow> typed d'"
proof (induction names arbitrary: d)
  case (Cons name names)
  let ?found = "tbl_filter (\<lambda>p. pr_org p = k \<and> pr_name p = name) (db_projects d)"
  let ?p = "\<lparr>pr_id = 0, pr_org = k, pr_name = name, pr_description = ''Demo project.'',
    pr_created_by = Some owner, pr_created_at = now\<rparr>"
  let ?d = "d\<lparr>db_projects := tbl_insert set_pr_id ?p (db_projects d)\<rparr>"
  consider "?found = []" | p where "?found = [p]" | p q ps where "?found = p # q # ps"
    by (metis list.exhaust)
  then show ?case
  proof cases
    case 1
    with Cons.prems have w: "length name \<le> 255" "seed_projects now k owner names ?d = (Inr (), d')"
      by (auto simp: project_insert_def char_field_def bind_res_def split: sum.splits if_splits)
    have "typed ?d" using Cons.prems w(1)
      by (intro typed_tables) (simp_all add: typed_parts project_fits_def)
    with Cons.IH [of ?d] Cons.prems(2) w(2) show ?thesis by (simp add: user_keys_def)
  qed (use Cons in auto)
qed simp

lemma seed_demo_typed:
  assumes "typed d" "settings_fit setting"
  shows "typed (snd (seed_demo setting now hashes d))"
proof (cases "fst (seed_demo setting now hashes d)")
  case (Inl e)
  then have "snd (seed_demo setting now hashes d) = d"
    by (auto simp: seed_demo_def atomic_def split: sum.splits prod.splits)
  with assms show ?thesis by simp
next
  case (Inr org)
  obtain d' where d': "seed_demo setting now hashes d = (Inr org, d')" using Inr by (metis prod.collapse)
  note run = this [unfolded seed_demo_def atomic_commit]
  let ?d0 = "seed_plans_command setting d"
  obtain r1 d1 where g0: "get_or_create_org now ''acme-inc'' ''Acme Inc'' ?d0 = (r1, d1)" by fastforce
  with run obtain o1 where r1: "r1 = Inr o1" by (cases r1) auto
  obtain r2 d2 where u0: "seed_users now hashes (o_id o1) DEMO_USERS d1 = (r2, d2)" by fastforce
  with run g0 r1 obtain users where r2: "r2 = Inr users" by (cases r2) auto
  from run g0 r1 u0 r2 obtain owner where owner: "map_of users OWNER = Some owner"
    by (cases "map_of users OWNER") auto
  let ?d3 = "claim_org (o_id o1) (u_id owner) d2"
  obtain r3 d3 where p0: "seed_projects now (o_id o1) (u_id owner) DEMO_PROJECTS ?d3 = (r3, d3)" by fastforce
  with run g0 r1 u0 r2 owner have r3: "r3 = Inr ()" "d3 = d'" by (cases r3; simp)+
  have "typed d1" using get_or_create_org_typed [OF seed_plans_typed [OF assms] g0 [unfolded r1]] by simp
  then have d2: "typed d2" "\<forall>(role, u) \<in> set users. u_id u \<in> user_keys d2"
    using seed_users_typed [OF _ _ u0 [unfolded r2]] by (simp_all add: DEMO_USERS_def Role_choices_def)
  then have key: "u_id owner \<in> user_keys d2" using map_of_SomeD [OF owner] by auto
  have "typed ?d3" unfolding claim_org_def
    using d2(1) typed_parts(1) [OF d2(1)] key
    by (intro typed_tables all_rows_update) (auto simp: org_fits_def)
  moreover have "u_id owner \<in> user_keys ?d3" using key by (simp add: claim_org_def user_keys_def)
  ultimately have "typed d'" using seed_projects_typed p0 r3 by simp
  with d' show ?thesis by simp
qed

subsection \<open>The typing theorem\<close>

fun admissible :: "db \<Rightarrow> deployment_event \<Rightarrow> bool" where
  "admissible d (Api call u) = authentic d u"
| "admissible d ev = True"

inductive served :: "services \<Rightarrow> (string \<Rightarrow> string) \<Rightarrow> db \<Rightarrow> bool" for sv setting where
  served_fresh: "fresh_deployment d \<Longrightarrow> served sv setting d"
| served_step: "served sv setting d \<Longrightarrow> admissible d ev \<Longrightarrow> served sv setting (deployment_step sv setting ev d)"

lemma fresh_typed: "fresh_deployment d \<Longrightarrow> typed d"
proof -
  have "typed empty_db"
    by (simp add: typed_def all_rows_def empty_db_def tbl_unique_def)
  then show "fresh_deployment d \<Longrightarrow> typed d"
    using seed_plans_typed [of empty_db "\<lambda>_. []"]
    by (simp add: fresh_deployment_def migration_is_command settings_fit_def)
qed

lemma deployment_step_typed:
  assumes "api_ok d" "typed d" "admissible d ev" "jwt_ok (sv_jwt_validate sv)" "settings_fit setting"
  shows "typed (deployment_step sv setting ev d)"
  using assms by (cases ev) (simp_all add: api_step_typed seed_plans_typed seed_demo_typed backfill_typed)

lemma served_typed:
  assumes "served sv setting d" "jwt_ok (sv_jwt_validate sv)" "settings_fit setting"
  shows "api_ok d \<and> typed d"
  using assms(1)
proof induction
  case (served_fresh d)
  then show ?case by (simp add: fresh_api_ok fresh_typed)
next
  case (served_step d ev)
  then show ?case using assms(2,3) by (simp add: deployment_step_ok deployment_step_typed)
qed

text \<open>C5. Type soundness of the database: whatever stored users and anonymous callers ask of the API,
  with the operator's commands in between, every table is a legal instance of the schema the
  migrations create. Every cell has its column's type and width and is \<open>NULL\<close> only where allowed,
  roles and statuses are among their choices, unique columns and constraints hold (addresses also up
  to case), and every foreign key finds its row.\<close>

theorem database_legal:
  assumes "jwt_ok (sv_jwt_validate sv)" "settings_fit setting" and "served sv setting d"
  shows "legal created_models (rows_of d)"
  using served_typed [OF assms(3,1,2)] by (simp add: typed_legal)

theorem database_legal_witness:
  "legal created_models (rows_of
     (deployment_step demo_services (\<lambda>_. []) (Api (Org_Create 2 (Inr ''Nova'')) (Some (nora\<lparr>u_id := 1\<rparr>)))
     (deployment_step demo_services (\<lambda>_. []) (Api (Register 1 (Inr (''n@x.io'', ''longpassword'', ''N''))) None)
        (seed_plans_migration empty_db))))"
proof -
  let ?d0 = "seed_plans_migration empty_db"
  let ?d1 = "deployment_step demo_services (\<lambda>_. [])
    (Api (Register 1 (Inr (''n@x.io'', ''longpassword'', ''N''))) None) ?d0"
  have "1 \<in> set (map u_id (tb_rows (db_users ?d1)))" by code_simp
  then have "1 \<in> user_keys ?d1" by (simp add: user_keys_def)
  then have "served demo_services (\<lambda>_. []) (deployment_step demo_services (\<lambda>_. [])
      (Api (Org_Create 2 (Inr ''Nova'')) (Some (nora\<lparr>u_id := 1\<rparr>))) ?d1)"
    by (intro served_step served_fresh) (simp_all add: fresh_deployment_def authentic_def)
  from database_legal [OF demo_jwt_ok _ this] show ?thesis by (simp add: settings_fit_def)
qed

end
