(* ===== verification/Access_Spec.thy ===== *)
theory Access_Spec
  imports Lifecycle
begin

section \<open>Who may change roles: an abstract specification and its refinement\<close>

text \<open>
  The access rights of the whole system, without tables, requests and strings: which organizations
  exist, who has which role in which, and which invitations are open. \<open>access_step\<close> says which changes
  an actor may make, with guards over the linear order of the roles; \<open>access_of\<close> reads the abstract state
  off a database. Every call of the API is one abstract step of its caller (or none), so what is
  proved of the steps (where roles come from, who can take them away) holds of the API.
\<close>

subsection \<open>The abstract system\<close>

type_synonym actor = "key \<times> string" \<comment> \<open>a user's key and address\<close>

record access =
  ac_orgs :: "key set"
  ac_roles :: "(key \<times> key \<times> arole) set" \<comment> \<open>user, organization, role\<close>
  ac_pending :: "(key \<times> key \<times> string \<times> arole) set" \<comment> \<open>invitation, organization, address, role\<close>

definition dissolved :: "key \<Rightarrow> access \<Rightarrow> access" where
  "dissolved k s = \<lparr>ac_orgs = ac_orgs s - {k}, ac_roles = {(u, j, r) \<in> ac_roles s. j \<noteq> k},
     ac_pending = {(i, j, e, r) \<in> ac_pending s. j \<noteq> k}\<rparr>"

definition another_owner :: "key \<Rightarrow> key \<Rightarrow> access \<Rightarrow> bool" where
  "another_owner t k s \<longleftrightarrow> (\<exists>u. u \<noteq> t \<and> (u, k, AOwner) \<in> ac_roles s)"

inductive access_step :: "actor option \<Rightarrow> access \<Rightarrow> access \<Rightarrow> bool" where
  stutter: "access_step a s s"
| found:
    "k \<notin> ac_orgs s \<Longrightarrow>
     s' = s\<lparr>ac_orgs := insert k (ac_orgs s), ac_roles := insert (u, k, AOwner) (ac_roles s)\<rparr> \<Longrightarrow>
     access_step (Some (u, e)) s s'"
| dissolve:
    "(u, k, AOwner) \<in> ac_roles s \<Longrightarrow> s' = dissolved k s \<Longrightarrow> access_step (Some (u, e)) s s'"
| expel:
    "(u, k, r) \<in> ac_roles s \<Longrightarrow> AAdmin \<le> r \<Longrightarrow> (t, k, q) \<in> ac_roles s \<Longrightarrow> q \<le> r \<Longrightarrow>
     (q = AOwner \<Longrightarrow> another_owner t k s) \<Longrightarrow>
     s' = s\<lparr>ac_roles := ac_roles s - {(t, k, q)}\<rparr> \<Longrightarrow> access_step (Some (u, e)) s s'"
| regrade:
    "(u, k, r) \<in> ac_roles s \<Longrightarrow> AAdmin \<le> r \<Longrightarrow> (t, k, q) \<in> ac_roles s \<Longrightarrow> q \<le> r \<Longrightarrow> q' \<le> r \<Longrightarrow>
     (q = AOwner \<Longrightarrow> q' \<noteq> AOwner \<Longrightarrow> another_owner t k s) \<Longrightarrow>
     s' = s\<lparr>ac_roles := insert (t, k, q') (ac_roles s - {(t, k, q)})\<rparr> \<Longrightarrow>
     access_step (Some (u, e)) s s'"
| invite:
    "(u, k, r) \<in> ac_roles s \<Longrightarrow> AAdmin \<le> r \<Longrightarrow> q \<le> r \<Longrightarrow>
     (\<And>j e' q'. (i, j, e', q') \<notin> ac_pending s) \<Longrightarrow>
     (\<And>j e' q'. (j, k, e', q') \<in> ac_pending s \<Longrightarrow> str_lower e' \<noteq> str_lower address) \<Longrightarrow>
     s' = s\<lparr>ac_pending := insert (i, k, address, q) (ac_pending s)\<rparr> \<Longrightarrow>
     access_step (Some (u, e)) s s'"
| accept:
    "(i, k, address, q) \<in> ac_pending s \<Longrightarrow> str_lower e = str_lower address \<Longrightarrow>
     roles' = (if \<exists>r. (u, k, r) \<in> ac_roles s then ac_roles s else insert (u, k, q) (ac_roles s)) \<Longrightarrow>
     s' = s\<lparr>ac_roles := roles', ac_pending := ac_pending s - {(i, k, address, q)}\<rparr> \<Longrightarrow>
     access_step (Some (u, e)) s s'"
| lapse:
    "(i, k, address, q) \<in> ac_pending s \<Longrightarrow> s' = s\<lparr>ac_pending := ac_pending s - {(i, k, address, q)}\<rparr> \<Longrightarrow>
     access_step (Some (u, e)) s s'"

inductive_cases access_step_anonymous: "access_step None s s'"
inductive_cases access_step_actor: "access_step (Some (u, e)) s s'"

subsection \<open>What the abstract system promises\<close>

lemma role_below_owner: "r \<noteq> AOwner \<Longrightarrow> q \<le> r \<Longrightarrow> q \<noteq> AOwner"
  by (cases r; cases q) (simp_all add: less_eq_arole_def)

lemma gained_role:
  assumes "access_step a s s'" and new: "(t, k, q) \<in> ac_roles s'" "(t, k, q) \<notin> ac_roles s"
  shows "(\<exists>e. a = Some (t, e)) \<and> k \<notin> ac_orgs s \<and> q = AOwner \<or>
    (\<exists>e i address. a = Some (t, e) \<and> (i, k, address, q) \<in> ac_pending s \<and>
       str_lower e = str_lower address \<and> (\<nexists>r. (t, k, r) \<in> ac_roles s)) \<or>
    (\<exists>u e r old. a = Some (u, e) \<and> (u, k, r) \<in> ac_roles s \<and> AAdmin \<le> r \<and> q \<le> r \<and>
       (t, k, old) \<in> ac_roles s \<and> old \<le> r)"
  using assms(1)
proof cases
  case (accept i j address q' e roles' u)
  with new show ?thesis by (auto split: if_splits)
next
  case (regrade u j r t' q1 q2 e)
  with new show ?thesis by auto
qed (use new in \<open>auto simp: dissolved_def\<close>)

lemma lost_role:
  assumes "access_step a s s'" and lost: "(t, k, q) \<in> ac_roles s" "(t, k, q) \<notin> ac_roles s'"
  shows "\<exists>u e r. a = Some (u, e) \<and> (u, k, r) \<in> ac_roles s \<and> AAdmin \<le> r \<and> q \<le> r \<and>
    (k \<notin> ac_orgs s' \<and> r = AOwner \<or> q \<noteq> AOwner \<or> another_owner t k s)"
  using assms(1)
proof cases
  case (dissolve u j e)
  moreover have "q \<le> AOwner" "AAdmin \<le> AOwner" by (cases q; simp add: less_eq_arole_def)+
  ultimately show ?thesis using lost by (auto simp: dissolved_def)
next
  case (accept i j address q' e roles' u)
  with lost show ?thesis by (auto split: if_splits)
qed (use lost in \<open>auto\<close>)

definition owners :: "key \<Rightarrow> access \<Rightarrow> key set" where
  "owners k s = {u. (u, k, AOwner) \<in> ac_roles s}"

definition no_owner_invited :: "key \<Rightarrow> access \<Rightarrow> bool" where
  "no_owner_invited k s \<longleftrightarrow> (\<forall>i e. (i, k, e, AOwner) \<notin> ac_pending s)"

lemma owners_closed_step:
  assumes step: "access_step a s s'" and k: "k \<in> ac_orgs s" and "no_owner_invited k s"
    and others: "\<And>u e. a = Some (u, e) \<Longrightarrow> u \<notin> owners k s"
  shows "owners k s' = owners k s \<and> k \<in> ac_orgs s' \<and> no_owner_invited k s'"
  using step
proof cases
  case (found j u e)
  with k assms(3) show ?thesis by (auto simp: owners_def no_owner_invited_def)
next
  case (dissolve u j e)
  with others have "j \<noteq> k" by (auto simp: owners_def)
  with dissolve k assms(3) show ?thesis by (auto simp: owners_def no_owner_invited_def dissolved_def)
next
  case (expel u j r t q e)
  have "q \<noteq> AOwner" if "j = k"
    using that expel others role_below_owner [of r q] by (auto simp: owners_def)
  with expel k assms(3) show ?thesis by (auto simp: owners_def no_owner_invited_def)
next
  case (regrade u j r t q q' e)
  have "q \<noteq> AOwner \<and> q' \<noteq> AOwner" if "j = k"
    using that regrade others role_below_owner [of r q] role_below_owner [of r q']
    by (auto simp: owners_def)
  with regrade k assms(3) show ?thesis by (auto simp: owners_def no_owner_invited_def)
next
  case (invite u j r q i address e)
  have "q \<noteq> AOwner" if "j = k"
    using that invite others role_below_owner [of r q] by (auto simp: owners_def)
  with invite k assms(3) show ?thesis by (auto simp: owners_def no_owner_invited_def)
qed (use k assms(3) in \<open>auto simp: owners_def no_owner_invited_def\<close>)

subsection \<open>The abstraction\<close>

definition actor_of :: "user \<Rightarrow> actor" where
  "actor_of u = (u_id u, u_email u)"

definition arole_of :: "string \<Rightarrow> arole" where
  "arole_of r = (if r = OWNER then AOwner else if r = ADMIN then AAdmin else AMember)"

definition role_entry :: "membership \<Rightarrow> key \<times> key \<times> arole" where
  "role_entry m = (m_user m, m_org m, arole_of (m_role m))"

definition invite_entry :: "invitation \<Rightarrow> key \<times> key \<times> string \<times> arole" where
  "invite_entry i = (i_id i, i_org i, i_email i, arole_of (i_role i))"

definition pending_rows :: "db \<Rightarrow> invitation set" where
  "pending_rows d = {i \<in> set (tb_rows (db_invites d)). i_status i = PENDING}"

definition access_of :: "db \<Rightarrow> access" where
  "access_of d = \<lparr>ac_orgs = org_keys d, ac_roles = role_entry ` set (tb_rows (db_members d)),
     ac_pending = invite_entry ` pending_rows d\<rparr>"

lemma access_of_simps [simp]:
  "ac_orgs (access_of d) = org_keys d" "ac_roles (access_of d) = role_entry ` set (tb_rows (db_members d))"
  "ac_pending (access_of d) = invite_entry ` pending_rows d"
  by (simp_all add: access_of_def)

lemma access_frame:
  "org_keys d' = org_keys d \<Longrightarrow> db_members d' = db_members d \<Longrightarrow> db_invites d' = db_invites d \<Longrightarrow>
   access_of d' = access_of d"
  by (simp add: access_of_def pending_rows_def)

lemma arole_of_simps [simp]:
  "arole_of OWNER = AOwner" "arole_of ADMIN = AAdmin" "arole_of MEMBER = AMember"
  "arole_of r = AOwner \<longleftrightarrow> r = OWNER"
  by (simp_all add: arole_of_def)

lemma role_guards:
  "can_manage_member a r \<Longrightarrow> AAdmin \<le> arole_of a \<and> arole_of r \<le> arole_of a"
  "can_assign_role a r \<Longrightarrow> AAdmin \<le> arole_of a \<and> arole_of r \<le> arole_of a"
  by (auto simp: guard_simps arole_of_def less_eq_arole_def split: if_splits)

lemma role_entry_inj:
  assumes "db_inv d"
  shows "inj_on role_entry (set (tb_rows (db_members d)))"
proof -
  have "inj_on member_pair (set (tb_rows (db_members d)))"
    using db_invD(4) [OF assms] by (simp add: unique_ok_def tbl_unique_def)
  then show ?thesis by (auto simp: inj_on_def role_entry_def member_pair_def)
qed

lemma invite_entry_inj:
  assumes "db_inv d"
  shows "inj_on invite_entry (pending_rows d)"
  using db_invD(1) [OF assms]
  by (auto simp: keys_ok_def inj_on_def invite_entry_def pending_rows_def dest!: tbl_wfD_inj dest: inj_onD)

lemma access_delete_member:
  assumes "db_inv d" "t \<in> set (tb_rows (db_members d))"
  shows "access_of (delete_member_row t d) =
    (access_of d)\<lparr>ac_roles := ac_roles (access_of d) - {role_entry t}\<rparr>"
proof -
  have "set (tb_rows (db_members (delete_member_row t d))) = set (tb_rows (db_members d)) - {t}"
    using member_t.delete_row_set [OF _ assms(2)] db_invD(1) [OF assms(1)]
    by (simp add: delete_member_row_def keys_ok_def)
  moreover have "role_entry ` (set (tb_rows (db_members d)) - {t}) =
      role_entry ` set (tb_rows (db_members d)) - {role_entry t}"
    using inj_on_image_set_diff [OF role_entry_inj [OF assms(1)], of _ "{t}"] assms(2) by auto
  ultimately show ?thesis
    by (simp add: access_of_def) (simp add: delete_member_row_def org_keys_def pending_rows_def)
qed

lemma access_set_role:
  assumes "db_inv d" "t \<in> set (tb_rows (db_members d))"
  shows "access_of (save_member_role t r d) =
    (access_of d)\<lparr>ac_roles := insert (m_user t, m_org t, arole_of r)
       (ac_roles (access_of d) - {role_entry t})\<rparr>"
proof -
  have "set (tb_rows (db_members (save_member_role t r d))) =
      insert (t\<lparr>m_role := r\<rparr>) (set (tb_rows (db_members d)) - {t})"
    using member_t.update_row_Un [OF _ assms(2), of "\<lambda>x. x\<lparr>m_role := r\<rparr>"] db_invD(1) [OF assms(1)]
    by (simp add: save_member_role_def keys_ok_def)
  moreover have "role_entry ` (set (tb_rows (db_members d)) - {t}) =
      role_entry ` set (tb_rows (db_members d)) - {role_entry t}"
    using inj_on_image_set_diff [OF role_entry_inj [OF assms(1)], of _ "{t}"] assms(2) by auto
  ultimately show ?thesis
    by (simp add: access_of_def role_entry_def)
      (simp add: save_member_role_def org_keys_def pending_rows_def)
qed

lemma access_close_invite:
  assumes "db_inv d" "i \<in> pending_rows d" "st \<noteq> PENDING"
  shows "access_of (set_invite_status i st d) =
    (access_of d)\<lparr>ac_pending := ac_pending (access_of d) - {invite_entry i}\<rparr>"
proof -
  have i: "i \<in> set (tb_rows (db_invites d))" "i_status i = PENDING"
    using assms(2) by (simp_all add: pending_rows_def)
  have changed: "i\<lparr>i_status := st\<rparr> \<noteq> i"
  proof
    assume "i\<lparr>i_status := st\<rparr> = i"
    then have "i_status (i\<lparr>i_status := st\<rparr>) = i_status i" by (rule arg_cong)
    with i(2) assms(3) show False by simp
  qed
  have "set (tb_rows (db_invites (set_invite_status i st d))) =
      insert (i\<lparr>i_status := st\<rparr>) (set (tb_rows (db_invites d)) - {i})"
    using invite_t.update_row_Un [OF _ i(1), of "\<lambda>x. x\<lparr>i_status := st\<rparr>"] db_invD(1) [OF assms(1)]
    by (simp add: set_invite_status_def keys_ok_def)
  then have "pending_rows (set_invite_status i st d) = pending_rows d - {i}"
    using assms(3) changed by (auto simp: pending_rows_def)
  moreover have "invite_entry ` (pending_rows d - {i}) = invite_entry ` pending_rows d - {invite_entry i}"
    using inj_on_image_set_diff [OF invite_entry_inj [OF assms(1)], of _ "{i}"] assms(2) by auto
  ultimately show ?thesis
    by (simp add: access_of_def) (simp add: set_invite_status_def org_keys_def)
qed

lemma access_role:
  "org_access d caller raw u org m \<Longrightarrow>
   caller = Some u \<and> (u_id u, o_id org, arole_of (m_role m)) \<in> ac_roles (access_of d)"
proof -
  assume a: "org_access d caller raw u org m"
  then have "role_entry m = (u_id u, o_id org, arole_of (m_role m))" "m \<in> set (tb_rows (db_members d))"
    using org_access_row [OF a] by (simp_all add: role_entry_def)
  with a show ?thesis unfolding access_of_simps org_access_def by (metis imageI)
qed

subsection \<open>Every call is a step of its caller\<close>

lemma org_create_access:
  assumes "db_inv d"
  shows "access_step (map_option actor_of u) (access_of d)
    (access_of (snd (org_create sl now (\<lambda>_ x. x) body d u)))"
proof -
  have "access_step (Some (actor_of user)) (access_of d) (access_of (with_new_org now user name slug d))"
    for user name slug
    unfolding actor_of_def
    by (rule found [of "tb_next (db_orgs d)"], use fresh_org_key [OF db_invD(1) [OF assms]] in simp)
      (simp add: access_of_def with_new_org_def Let_def org_keys_def pending_rows_def role_entry_def
        org_row_def owner_row_def)
  then show ?thesis using org_create_effect [OF assms, of sl now body u]
    by (auto intro: stutter)
qed

lemma org_update_access:
  "access_step a (access_of d) (access_of (snd (org_update raw body d u)))"
proof -
  have "org_keys (d\<lparr>db_orgs := tbl_update_where P (\<lambda>x. x\<lparr>o_name := n\<rparr>) (db_orgs d)\<rparr>) = org_keys d" for P n
    using update_image_key [of "db_orgs d" P o_id "\<lambda>x. x\<lparr>o_name := n\<rparr>"]
    by (simp add: org_keys_def del: tbl_rows_simps)
  then have "access_of (snd (org_update raw body d u)) = access_of d"
    using org_update_effect [of raw body d u] by (auto intro!: access_frame)
  then show ?thesis by (simp add: stutter)
qed

lemma org_destroy_access:
  "access_step (map_option actor_of u) (access_of d) (access_of (snd (org_destroy raw d u)))"
proof -
  have "access_of (organization_delete k d) = dissolved k (access_of d)" for k
    by (auto simp: access_of_def dissolved_def organization_delete_def org_keys_def role_entry_def
        pending_rows_def invite_entry_def image_iff)
  moreover have "access_step (Some (actor_of user)) (access_of d) (dissolved (o_id org) (access_of d))"
    if "org_access d u raw user org m" "m_role m = OWNER" for user org m
    using access_role [OF that(1)] that(2) unfolding actor_of_def by (intro dissolve) simp_all
  ultimately show ?thesis
    using org_destroy_effect [of raw d u] by (auto simp: org_access_def intro: stutter)
qed

lemma owner_left:
  assumes "db_inv d" "t \<in> set (tb_rows (db_members d))" "m_role t = OWNER" "\<not> is_last_owner t d"
  shows "another_owner (m_user t) (m_org t) (access_of d)"
proof -
  obtain x where x: "x \<in> set (tb_rows (db_members d))" "x \<noteq> t" "m_org x = m_org t" "m_role x = OWNER"
    using api_guard.another_owner [OF db_invD(1) [OF assms(1)] assms(2-4)] by blast
  then have "m_user x \<noteq> m_user t"
    using tbl_uniqueD [of member_pair "db_members d" x t] db_invD(4) [OF assms(1)] assms(2)
    by (auto simp: unique_ok_def member_pair_def)
  with x show ?thesis
    by (auto simp: another_owner_def role_entry_def image_iff intro!: exI [of _ "m_user x"] bexI [of _ x])
qed

lemma member_access:
  assumes inv: "db_inv d"
  shows "access_step (map_option actor_of caller) (access_of d)
    (access_of (snd (member_action meth raw mraw body d caller)))"
proof (cases rule: member_cases [of meth raw mraw body d caller])
  case (refused e)
  then show ?thesis by (simp add: stutter)
next
  case (removed u org m t)
  note actor = access_role [OF removed(1)]
  have "access_step (Some (actor_of u)) (access_of d) (access_of (delete_member_row t d))"
    unfolding access_delete_member [OF inv removed(2)] actor_of_def
  proof (rule expel [of "u_id u" "o_id org" "arole_of (m_role m)" _ "m_user t" "arole_of (m_role t)"])
    show "(m_user t, o_id org, arole_of (m_role t)) \<in> ac_roles (access_of d)"
      using removed(2,3) by (auto simp: role_entry_def image_iff)
    show "another_owner (m_user t) (o_id org) (access_of d)" if "arole_of (m_role t) = AOwner"
      using owner_left [OF inv removed(2)] that removed(3,6) by simp
  qed (use actor role_guards(1) [OF removed(5)] removed(3) in \<open>simp_all add: role_entry_def\<close>)
  with removed(8) actor show ?thesis by simp
next
  case (changed u org m t r)
  note actor = access_role [OF changed(1)]
  have "access_step (Some (actor_of u)) (access_of d) (access_of (save_member_role t r d))"
    unfolding access_set_role [OF inv changed(2)] actor_of_def
  proof (rule regrade [of "u_id u" "o_id org" "arole_of (m_role m)" _ "m_user t" "arole_of (m_role t)" "arole_of r"])
    show "(m_user t, o_id org, arole_of (m_role t)) \<in> ac_roles (access_of d)"
      using changed(2,3) by (auto simp: role_entry_def image_iff)
    show "another_owner (m_user t) (o_id org) (access_of d)"
      if "arole_of (m_role t) = AOwner" "arole_of r \<noteq> AOwner"
      using owner_left [OF inv changed(2)] changed(8) that changed(3) by simp
  qed (use actor role_guards(1) [OF changed(5)] role_guards(2) [OF changed(6)] changed(3)
      in \<open>simp_all add: role_entry_def\<close>)
  with changed(10) actor show ?thesis by simp
qed

lemma invite_access:
  assumes inv: "db_inv d"
  shows "access_step (map_option actor_of caller) (access_of d)
    (access_of (snd (invitation_create now days token raw body d caller)))"
proof (cases rule: invitation_create_cases [of now days token raw body d caller])
  case (refused e)
  then show ?thesis by (simp add: stutter)
next
  case (created u org m email role d1)
  note actor = access_role [OF created(1)]
  let ?i = "tb_next (db_invites d)"
  have fresh: "i_id x \<noteq> ?i" if "x \<in> set (tb_rows (db_invites d))" for x
    using that db_invD(1) [OF inv] by (auto simp: keys_ok_def tbl_wf_def)
  have "access_step (Some (actor_of u)) (access_of d) (access_of d1)" unfolding actor_of_def
  proof (rule invite [of "u_id u" "o_id org" "arole_of (m_role m)" _ "arole_of role" ?i email])
    show "AAdmin \<le> arole_of (m_role m)" "arole_of role \<le> arole_of (m_role m)"
      using role_guards(2) [OF created(3)] by simp_all
    show "(?i, j, e', q') \<notin> ac_pending (access_of d)" for j e' q'
      using fresh by (auto simp: pending_rows_def invite_entry_def image_iff) metis
    show "str_lower e' \<noteq> str_lower email" if "(j, o_id org, e', q') \<in> ac_pending (access_of d)" for j e' q'
      using that created(7)
      by (auto simp: pending_rows_def invite_entry_def is_pending_email_def tbl_exists_iff iexact_def)
    have "pending_rows d1 = insert (set_i_id ?i (new_invite now days token u org email role 0)) (pending_rows d)"
      by (auto simp: created(10) pending_rows_def new_invite_def)
    then show "access_of d1 = (access_of d)\<lparr>ac_pending :=
        insert (?i, o_id org, email, arole_of role) (ac_pending (access_of d))\<rparr>"
      by (simp add: access_of_def invite_entry_def new_invite_def) (simp add: created(10) org_keys_def)
  qed (use actor in simp)
  moreover have "access_of (enqueue t d1) = access_of d1" for t
    by (rule access_frame) (simp_all add: org_keys_def)
  ultimately show ?thesis using created(11) actor by simp
qed

lemma accept_access:
  assumes inv: "db_inv d"
  shows "access_step (map_option actor_of caller) (access_of d)
    (access_of (snd (invitation_accept now body d caller)))"
proof -
  have "tbl_unique i_token (db_invites d)" using inv by (simp add: db_inv_def unique_ok_def)
  then show ?thesis
  proof (cases rule: accept_cases [of d now body caller])
    case (refused e)
    then show ?thesis by (simp add: stutter)
  next
    case (expired u token i)
    have i: "i \<in> pending_rows d" using expired(3,5) by (simp add: pending_rows_def)
    then have "(i_id i, i_org i, i_email i, arole_of (i_role i)) \<in> ac_pending (access_of d)"
      by (auto simp: invite_entry_def image_iff)
    then have "access_step (Some (actor_of u)) (access_of d) (access_of (set_invite_status i EXPIRED d))"
      unfolding actor_of_def
      by (rule lapse) (simp add: access_close_invite [OF inv i] invite_entry_def)
    with expired(1,7) show ?thesis by simp
  next
    case (accepted u token i m d1)
    have inv1: "db_inv d1"
      using get_or_create_member_inv [OF inv _ accepted(8)] accepted(3) db_invD(3) [OF inv]
      by (simp add: refs_ok_def)
    have same: "db_invites d1 = db_invites d" "db_orgs d1 = db_orgs d"
      using get_or_create_member_spec [OF accepted(8)] by auto
    have i: "i \<in> pending_rows d1" using accepted(3,5) same by (simp add: pending_rows_def)
    have "access_step (Some (actor_of u)) (access_of d) (access_of (set_invite_status i ACCEPTED d1))"
      unfolding actor_of_def access_close_invite [OF inv1 i status_distinct(2)]
    proof (rule accept [OF _ _ refl])
      show "(i_id i, i_org i, i_email i, arole_of (i_role i)) \<in> ac_pending (access_of d)"
        using accepted(3,5) by (auto simp: pending_rows_def invite_entry_def image_iff)
      have "(\<exists>r. (u_id u, i_org i, r) \<in> ac_roles (access_of d)) \<longleftrightarrow>
          find_membership (u_id u) (i_org i) d \<noteq> None"
        by (simp add: find_membership_def role_entry_def image_iff tbl_first_None) metis
      then have "ac_roles (access_of d1) =
        (if \<exists>r. (u_id u, i_org i, r) \<in> ac_roles (access_of d) then ac_roles (access_of d)
         else insert (u_id u, i_org i, arole_of (i_role i)) (ac_roles (access_of d)))"
        using get_or_create_member_spec [OF accepted(8)] by (auto simp: role_entry_def)
      then show "(access_of d1)\<lparr>ac_pending := ac_pending (access_of d1) - {invite_entry i}\<rparr> =
        (access_of d)\<lparr>ac_roles := if \<exists>r. (u_id u, i_org i, r) \<in> ac_roles (access_of d)
             then ac_roles (access_of d)
             else insert (u_id u, i_org i, arole_of (i_role i)) (ac_roles (access_of d)),
           ac_pending := ac_pending (access_of d) - {(i_id i, i_org i, i_email i, arole_of (i_role i))}\<rparr>"
        using same by (simp add: access_of_def org_keys_def pending_rows_def invite_entry_def)
    qed (use accepted(7) in simp)
    with accepted(1,9) show ?thesis by simp
  qed
qed

lemma tenants_access: "same_tenants d d' \<Longrightarrow> access_of d' = access_of d"
  by (rule access_frame) (simp_all add: same_tenants_def org_keys_def)

lemma project_access: "access_of (snd (project_step call u h d)) = access_of d"
proof -
  obtain res d' where step: "project_step call u h d = (res, d')" by fastforce
  from step have "access_of d' = access_of d"
    by (cases rule: project_step_cases) (auto intro!: access_frame simp: org_keys_def)
  with step show ?thesis by simp
qed

lemma checkout_access: "access_of (snd (checkout_view st body d r)) = access_of d"
  using checkout_effect [OF prod.collapse [symmetric], of d st body r]
  by (auto simp: customer_effect_def org_keys_def intro!: access_frame)

lemma webhook_access:
  assumes "api_ok d"
  shows "access_of (snd (webhook_post sc secret ps now payload sg d)) = access_of d"
  using webhook_keeps [OF _ _ prod.collapse [symmetric], of d sc secret ps now payload sg] assms
  by (intro access_frame) (simp_all add: api_ok_def org_keys_def)

lemma api_refines_step:
  assumes ok: "api_ok d" and jwt: "jwt_ok (sv_jwt_validate sv)"
  shows "access_step (map_option actor_of caller) (access_of d) (access_of (api_step sv call caller d))"
proof (cases "is_public call")
  case True
  then show ?thesis using tenants_access [OF public_frame [OF _ jwt]] by (simp add: stutter)
next
  case False
  have inv: "db_inv d" using ok by (simp add: api_ok_def)
  show ?thesis using False
    by (cases call) (simp_all add: inv ok stutter org_create_access org_update_access org_destroy_access
      member_access invite_access accept_access project_access checkout_access webhook_access)
qed

text \<open>C4. Refinement of the access specification: whatever endpoint is called, by whom and with whatever
  input, what happens to organizations, roles and open invitations is one step the caller may make
  in the abstract system (nothing at all, for an anonymous caller and for Stripe's webhook).\<close>

theorem api_refines_access:
  assumes "api_ok d" and "jwt_ok (sv_jwt_validate sv)"
  shows "access_step (map_option actor_of caller) (access_of d) (access_of (api_step sv call caller d))"
  using assms by (rule api_refines_step)

theorem api_refines_access_witness:
  "access_step (Some (1, ''owner@acme.test'')) (access_of demo_db)
     (access_of (api_step demo_services (Org_Destroy ''1'') (Some olivia) demo_db))"
  using api_refines_access [OF demo_api_ok demo_jwt_ok, of "Some olivia" "Org_Destroy ''1''"]
  by (simp add: actor_of_def olivia_def demo_user_def)

end
