(* ===== verification/Sessions.thy ===== *)
theory Sessions
  imports Access_Spec Routing Deployment
begin

section \<open>Sequences of calls by many callers\<close>

text \<open>
  What holds over any interleaving of calls of any number of callers, anonymous ones included:
  outsiders cannot touch an organization even together, and nobody but an Owner decides who is an
  Owner. The first follows from isolation step by step, the second from the refinement of the
  abstract access rules.
\<close>

type_synonym session = "(api_call \<times> user option) list"

definition serve :: "services \<Rightarrow> session \<Rightarrow> db \<Rightarrow> db" where
  "serve sv calls d = fold (\<lambda>(call, caller). api_step sv call caller) calls d"

lemma serve_simps [simp]:
  "serve sv [] d = d"
  "serve sv ((call, caller) # calls) d = serve sv calls (api_step sv call caller d)"
  by (simp_all add: serve_def)

lemma serve_ok: "api_ok d \<Longrightarrow> jwt_ok (sv_jwt_validate sv) \<Longrightarrow> api_ok (serve sv calls d)"
  by (induction calls arbitrary: d) (auto simp: api_step_ok)

subsection \<open>Outsiders together\<close>

lemma anonymous_isolated:
  assumes "jwt_ok (sv_jwt_validate sv)" "\<not> is_webhook call"
  shows "tenant_rows k (api_step sv call None d) = tenant_rows k d"
proof (cases "is_public call")
  case True
  then show ?thesis using assms(1) by (rule public_isolated)
next
  case False
  with assms(2) have "fst (call_route call) \<notin> public_views True"
    using project_call_view_private [of _ True] by (cases call) (auto simp: public_views_def)
  then show ?thesis using anonymous_writes by simp
qed

definition session_times :: "session \<Rightarrow> time set" where
  "session_times calls = \<Union> ((accept_times \<circ> fst) ` set calls)"

lemma session_times_simps [simp]:
  "session_times [] = {}"
  "session_times ((call, caller) # calls) = accept_times call \<union> session_times calls"
  by (simp_all add: session_times_def)



subsection \<open>Who decides about Owners\<close>

definition owners_of :: "key \<Rightarrow> db \<Rightarrow> key set" where
  "owners_of k d = set (map m_user (tbl_filter (\<lambda>m. m_org m = k \<and> m_role m = OWNER) (db_members d)))"

definition owner_invited :: "key \<Rightarrow> db \<Rightarrow> bool" where
  "owner_invited k d \<longleftrightarrow>
     tbl_exists (\<lambda>i. i_org i = k \<and> i_status i = PENDING \<and> i_role i = OWNER) (db_invites d)"

lemma owners_abs: "owners k (access_of d) = owners_of k d"
  by (auto simp: owners_def owners_of_def tbl_filter_def role_entry_def image_iff arole_of_simps(4) [symmetric]
      simp del: arole_of_simps(4))

lemma owner_invited_abs: "no_owner_invited k (access_of d) \<longleftrightarrow> \<not> owner_invited k d"
  by (auto simp: no_owner_invited_def owner_invited_def pending_rows_def invite_entry_def
      tbl_exists_iff image_iff arole_of_simps(4) [symmetric] simp del: arole_of_simps(4))

text \<open>C8. Ownership is decided by Owners: over any sequence of calls by any number of users (Admins and
  Members of the organization included), anonymous callers and Stripe, as long as no caller is one of
  its Owners and no Owner left an invitation to the role open, the organization keeps exactly its
  Owners, and it is not deleted.\<close>

theorem owners_decide_owners:
  assumes "api_ok d" and jwt: "jwt_ok (sv_jwt_validate sv)" and "k \<in> org_keys d"
    and "\<not> owner_invited k d"
    and "\<forall>(call, caller) \<in> set calls. \<forall>u. caller = Some u \<longrightarrow> u_id u \<notin> owners_of k d"
  shows "owners_of k (serve sv calls d) = owners_of k d \<and> k \<in> org_keys (serve sv calls d)"
  using assms(1,3-5)
proof (induction calls arbitrary: d)
  case (Cons a calls)
  obtain call caller where a: "a = (call, caller)" by (cases a)
  let ?d = "api_step sv call caller d"
  have "owners k (access_of ?d) = owners k (access_of d) \<and> k \<in> ac_orgs (access_of ?d) \<and>
      no_owner_invited k (access_of ?d)"
    using api_refines_step [OF Cons.prems(1) jwt, of caller call]
  proof (rule owners_closed_step)
    show "u \<notin> owners k (access_of d)" if "map_option actor_of caller = Some (u, e)" for u e
      using that Cons.prems(4) a by (auto simp: owners_abs actor_of_def)
  qed (use Cons.prems in \<open>simp_all add: owner_invited_abs\<close>)
  then have step: "owners_of k ?d = owners_of k d" "k \<in> org_keys ?d" "\<not> owner_invited k ?d"
    by (simp_all add: owners_abs owner_invited_abs)
  have "api_ok ?d" using Cons.prems(1) jwt by (rule api_step_ok)
  from Cons.IH [OF this step(2,3)] Cons.prems(4) step(1) a show ?case by simp
qed simp

theorem owners_decide_owners_witness:
  "owners_of 1 (serve demo_services
     [(Member_Call PATCH ''1'' ''2'' (Inr ''owner''), Some adam), (Org_Destroy ''1'', Some adam),
      (Member_Call DELETE ''1'' ''1'' (Inl Http404), Some mia), (Org_Destroy ''1'', None)] demo_db) = {1}"
proof -
  have o: "owners_of 1 demo_db = {1}" by (simp add: owners_of_def tbl_filter_def demo_defs)
  have "1 \<in> org_keys demo_db" "\<not> owner_invited 1 demo_db"
    by (simp_all add: org_keys_def owner_invited_def demo_defs tbl_exists_def)
  from owners_decide_owners [OF demo_api_ok demo_jwt_ok this, of
     "[(Member_Call PATCH ''1'' ''2'' (Inr ''owner''), Some adam), (Org_Destroy ''1'', Some adam),
      (Member_Call DELETE ''1'' ''1'' (Inl Http404), Some mia), (Org_Destroy ''1'', None)]"]
  show ?thesis by (simp add: o adam_def mia_def demo_user_def)
qed

text \<open>C3. Where roles come from and where they go: when a call gives somebody a role he did not have,
  he founded the organization with it (as Owner), accepted an open invitation to his own address
  while he had no role there, or the caller is an Admin or Owner of the organization whose own role
  is at least the new one and the old one. When a call takes a role away, the caller is an Admin or
  Owner of the organization with at least that role, and an Owner's role goes only with the
  organization or while another Owner remains.\<close>

theorem role_changes_authorized:
  assumes ok: "api_ok d" and jwt: "jwt_ok (sv_jwt_validate sv)"
  shows "let s = access_of d; s' = access_of (api_step sv call caller d)
   in ((t, k, q) \<in> ac_roles s' - ac_roles s \<longrightarrow>
      (\<exists>u. caller = Some u \<and>
        (u_id u = t \<and> k \<notin> org_keys d \<and> q = AOwner \<or>
         u_id u = t \<and> (\<nexists>r. (t, k, r) \<in> ac_roles s) \<and>
           (\<exists>i address. (i, k, address, q) \<in> ac_pending s \<and> str_lower (u_email u) = str_lower address) \<or>
         (\<exists>r old. (u_id u, k, r) \<in> ac_roles s \<and> AAdmin \<le> r \<and> q \<le> r \<and>
            (t, k, old) \<in> ac_roles s \<and> old \<le> r)))) \<and>
    ((t, k, q) \<in> ac_roles s - ac_roles s' \<longrightarrow>
      (\<exists>u r. caller = Some u \<and> (u_id u, k, r) \<in> ac_roles s \<and> AAdmin \<le> r \<and> q \<le> r \<and>
        (k \<notin> ac_orgs s' \<and> r = AOwner \<or> q \<noteq> AOwner \<or> another_owner t k s)))"
proof -
  note step = api_refines_step [OF ok jwt, of caller call]
  show ?thesis
    using gained_role [OF step, of t k q] lost_role [OF step, of t k q]
    by (cases caller) (auto simp: actor_of_def Let_def simp del: access_of_simps(2,3), metis+)
qed

theorem role_changes_authorized_witness:
  "\<exists>u. Some adam = Some u \<and> (u_id u, 1, AAdmin) \<in> ac_roles (access_of demo_db)"
proof -
  have old: "(3, 1, AMember) \<in> ac_roles (access_of demo_db)"
    by (simp add: demo_defs role_entry_def)
  have new: "set (map role_entry (tb_rows (db_members (api_step demo_services
      (Member_Call DELETE ''1'' ''3'' (Inl Http404)) (Some adam) demo_db)))) =
      set [(1, 1, AOwner), (2, 1, AAdmin), (4, 2, AOwner)]"
    by (rule arg_cong [where f = set]) code_simp
  have "(3, 1, AMember) \<in> ac_roles (access_of demo_db) - ac_roles (access_of (api_step demo_services
      (Member_Call DELETE ''1'' ''3'' (Inl Http404)) (Some adam) demo_db))"
    using old new by simp
  with role_changes_authorized [OF demo_api_ok demo_jwt_ok, where t = 3 and k = 1 and q = AMember
      and call = "Member_Call DELETE ''1'' ''3'' (Inl Http404)" and caller = "Some adam", unfolded Let_def]
  obtain r where r: "(u_id adam, 1, r) \<in> ac_roles (access_of demo_db)" "AAdmin \<le> r" by blast
  then have "r = AAdmin" by (simp add: demo_defs role_entry_def)
  with r show ?thesis by blast
qed

end
