(* ===== verification/Admin.thy ===== *)
theory Admin
  imports Typing
begin

section \<open>The admin site (the apps' \<open>admin.py\<close>)\<close>

text \<open>
  The registered \<open>ModelAdmin\<close> classes as the options the framework reads, checked against the migrated
  schema by the rules of its documented system checks, and which columns the forms they declare have.
  How the framework saves a form is not modelled; what it does to memberships around
  \<open>Membership.clean\<close> and \<open>Membership.delete\<close> is in \<open>Org_Models\<close>.
\<close>

subsection \<open>The options\<close>

record admin_inline =
  in_model :: string
  in_extra :: nat
  in_autocomplete_fields :: "string list"
  in_readonly_fields :: "string list"

record model_admin =
  ma_list_display :: "string list"
  ma_list_filter :: "string list"
  ma_search_fields :: "string list"
  ma_autocomplete_fields :: "string list"
  ma_readonly_fields :: "string list"
  ma_ordering :: "string list"
  ma_inlines :: "admin_inline list"
  ma_fieldsets :: "(string \<times> string list) list" \<comment> \<open>none: every field of the form\<close>
  ma_add_fieldsets :: "(string \<times> string list) list"

definition ModelAdmin :: model_admin where
  \<comment> \<open>the framework's defaults\<close>
  "ModelAdmin = \<lparr>ma_list_display = [], ma_list_filter = [], ma_search_fields = [],
     ma_autocomplete_fields = [], ma_readonly_fields = [], ma_ordering = [], ma_inlines = [],
     ma_fieldsets = [], ma_add_fieldsets = []\<rparr>"

definition UserAdmin :: model_admin where
  "UserAdmin = ModelAdmin\<lparr>
     ma_ordering := [''email''],
     ma_list_display :=
       [''email'', ''first_name'', ''last_name'', ''is_email_verified'', ''is_staff'', ''is_active''],
     ma_list_filter := [''is_staff'', ''is_superuser'', ''is_active'', ''is_email_verified''],
     ma_search_fields := [''email'', ''first_name'', ''last_name''],
     ma_readonly_fields := [''last_login'', ''date_joined''],
     ma_fieldsets :=
       [('''', [''email'', ''password'']), (''Personal info'', [''first_name'', ''last_name'']),
        (''Email verification'', [''is_email_verified'']),
        (''Permissions'',
          [''is_active'', ''is_staff'', ''is_superuser'', ''groups'', ''user_permissions'']),
        (''Important dates'', [''last_login'', ''date_joined''])],
     ma_add_fieldsets :=
       [('''', [''email'', ''password1'', ''password2'', ''is_staff'', ''is_superuser''])]\<rparr>"

definition MembershipInline :: admin_inline where
  "MembershipInline = \<lparr>in_model = ''organizations.membership'', in_extra = 0,
     in_autocomplete_fields = [''user''], in_readonly_fields = [''created_at'']\<rparr>"

definition OrganizationAdmin :: model_admin where
  "OrganizationAdmin = ModelAdmin\<lparr>
     ma_list_display := [''name'', ''slug'', ''created_by'', ''created_at''],
     ma_search_fields := [''name'', ''slug''], ma_readonly_fields := [''slug'', ''created_at''],
     ma_inlines := [MembershipInline]\<rparr>"

definition MembershipAdmin :: model_admin where
  "MembershipAdmin = ModelAdmin\<lparr>
     ma_list_display := [''user'', ''organization'', ''role'', ''created_at''],
     ma_list_filter := [''role''], ma_search_fields := [''user__email'', ''organization__name''],
     ma_autocomplete_fields := [''user'', ''organization''], ma_readonly_fields := [''created_at'']\<rparr>"

definition InvitationAdmin :: model_admin where
  "InvitationAdmin = ModelAdmin\<lparr>
     ma_list_display := [''email'', ''organization'', ''role'', ''status'', ''invited_by'', ''expires_at''],
     ma_list_filter := [''status'', ''role''], ma_search_fields := [''email'', ''organization__name''],
     ma_autocomplete_fields := [''organization'', ''invited_by''],
     ma_readonly_fields := [''token'', ''created_at'', ''expires_at'']\<rparr>"

definition PlanAdmin :: model_admin where
  "PlanAdmin = ModelAdmin\<lparr>
     ma_list_display := [''code'', ''name'', ''stripe_price_id'', ''is_active''],
     ma_list_filter := [''is_active''], ma_search_fields := [''code'', ''name'', ''stripe_price_id'']\<rparr>"

definition SubscriptionAdmin :: model_admin where
  "SubscriptionAdmin = ModelAdmin\<lparr>
     ma_list_display := [''organization'', ''plan'', ''status'', ''current_period_end'', ''updated_at''],
     ma_list_filter := [''status'', ''plan''],
     ma_search_fields := [''organization__name'', ''stripe_customer_id'', ''stripe_subscription_id''],
     ma_autocomplete_fields := [''organization'', ''plan''],
     ma_readonly_fields := [''stripe_customer_id'', ''stripe_subscription_id'', ''updated_at'']\<rparr>"

definition WebhookEventAdmin :: model_admin where
  "WebhookEventAdmin = ModelAdmin\<lparr>
     ma_list_display := [''stripe_event_id'', ''type'', ''processed_at''],
     ma_search_fields := [''stripe_event_id'', ''type''],
     ma_readonly_fields := [''stripe_event_id'', ''type'', ''processed_at'']\<rparr>"

definition ProjectAdmin :: model_admin where
  "ProjectAdmin = ModelAdmin\<lparr>
     ma_list_display := [''name'', ''organization'', ''created_by'', ''created_at''],
     ma_list_filter := [''organization''],
     ma_search_fields := [''name'', ''description'', ''organization__name''],
     ma_autocomplete_fields := [''organization'', ''created_by''], ma_readonly_fields := [''created_at'']\<rparr>"

definition admin_site :: "(string \<times> model_admin) list" where
  \<comment> \<open>the decorators \<open>@admin.register\<close>\<close>
  "admin_site =
     [(''accounts.user'', UserAdmin), (''organizations.organization'', OrganizationAdmin),
      (''organizations.membership'', MembershipAdmin), (''organizations.invitation'', InvitationAdmin),
      (''billing.plan'', PlanAdmin), (''billing.subscription'', SubscriptionAdmin),
      (''billing.webhookevent'', WebhookEventAdmin), (''projects.project'', ProjectAdmin)]"

definition UserCreationFormEmail :: "string list" where
  \<comment> \<open>\<open>Meta.fields\<close> and the two password fields every \<open>UserCreationForm\<close> has\<close>
  "UserCreationFormEmail = [''email''] @ [''password1'', ''password2'']"

definition UserChangeFormEmail :: "model \<Rightarrow> string list" where
  \<comment> \<open>\<open>"__all__"\<close>\<close>
  "UserChangeFormEmail m = map fst (md_fields m)"

lemmas admin_defs =
  admin_site_def UserAdmin_def OrganizationAdmin_def MembershipAdmin_def InvitationAdmin_def
  PlanAdmin_def SubscriptionAdmin_def WebhookEventAdmin_def ProjectAdmin_def ModelAdmin_def
  MembershipInline_def

subsection \<open>The system checks\<close>

fun split_lookup :: "string \<Rightarrow> string \<Rightarrow> string list" where
  \<comment> \<open>a lookup path at its double underscores\<close>
  "split_lookup acc (c # e # cs) =
     (if c = CHR ''_'' \<and> e = CHR ''_'' then rev acc # split_lookup [] cs
      else split_lookup (c # acc) (e # cs))"
| "split_lookup acc cs = [rev acc @ cs]"

definition field_of :: "schema \<Rightarrow> string \<Rightarrow> string \<Rightarrow> field option" where
  "field_of sch t c = (case map_of sch t of None \<Rightarrow> None | Some m \<Rightarrow> map_of (md_fields m) c)"

fun resolve_path :: "schema \<Rightarrow> string \<Rightarrow> string list \<Rightarrow> field option" where
  "resolve_path sch t [] = None"
| "resolve_path sch t [c] = field_of sch t c"
| "resolve_path sch t (c # cs) =
     (case field_of sch t c of
        None \<Rightarrow> None
      | Some f \<Rightarrow> (case relation_target (fd_type f) of None \<Rightarrow> None | Some t' \<Rightarrow> resolve_path sch t' cs))"

definition is_text :: "field_type \<Rightarrow> bool" where
  "is_text t = (case t of CharField _ \<Rightarrow> True | EmailField _ \<Rightarrow> True | SlugField _ \<Rightarrow> True
     | TextField _ \<Rightarrow> True | _ \<Rightarrow> False)"

definition option_ok :: "(field \<Rightarrow> bool) \<Rightarrow> field option \<Rightarrow> bool" where
  "option_ok P v = (case v of None \<Rightarrow> False | Some f \<Rightarrow> P f)"

definition autocomplete_ok :: "schema \<Rightarrow> (string \<times> model_admin) list \<Rightarrow> string \<Rightarrow> string \<Rightarrow> bool" where
  \<comment> \<open>a relation to a registered model whose admin can be searched\<close>
  "autocomplete_ok sch site t c = option_ok (\<lambda>f.
     case relation_target (fd_type f) of
       None \<Rightarrow> False
     | Some t' \<Rightarrow> (case map_of site t' of None \<Rightarrow> False | Some a \<Rightarrow> ma_search_fields a \<noteq> []))
     (field_of sch t c)"

definition inline_ok :: "schema \<Rightarrow> (string \<times> model_admin) list \<Rightarrow> string \<Rightarrow> admin_inline \<Rightarrow> bool" where
  \<comment> \<open>exactly one foreign key to the parent\<close>
  "inline_ok sch site t i =
     (case map_of sch (in_model i) of
        None \<Rightarrow> False
      | Some m \<Rightarrow>
          length (filter (\<lambda>(_, f). case fd_type f of ForeignKey t' _ \<Rightarrow> t' = t | _ \<Rightarrow> False) (md_fields m)) = 1 \<and>
          list_all (autocomplete_ok sch site (in_model i)) (in_autocomplete_fields i) \<and>
          list_all (\<lambda>c. field_of sch (in_model i) c \<noteq> None) (in_readonly_fields i))"

definition in_a_form :: "field \<Rightarrow> bool" where
  \<comment> \<open>automatic keys and times are not editable\<close>
  "in_a_form f \<longleftrightarrow> fd_editable f \<and>
     (case fd_type f of BigAutoField \<Rightarrow> False | DateTimeField a \<Rightarrow> a = No_Auto | _ \<Rightarrow> True)"

definition flatten_fieldsets :: "(string \<times> string list) list \<Rightarrow> string list" where
  "flatten_fieldsets fs = concat (map snd fs)"

definition admin_ok ::
  "schema \<Rightarrow> (string \<times> model_admin) list \<Rightarrow> string list \<Rightarrow> string \<times> model_admin \<Rightarrow> bool" where
  \<comment> \<open>the third argument: fields the add form has besides the model's\<close>
  "admin_ok sch site extra ta =
     (case ta of (t, a) \<Rightarrow>
       map_of sch t \<noteq> None \<and>
       list_all (\<lambda>c. option_ok (stored \<circ> fd_type) (field_of sch t c)) (ma_list_display a) \<and>
       list_all (\<lambda>c. field_of sch t c \<noteq> None) (ma_list_filter a @ ma_readonly_fields a @ ma_ordering a) \<and>
       list_all (\<lambda>p. option_ok (is_text \<circ> fd_type) (resolve_path sch t (split_lookup [] p)))
         (ma_search_fields a) \<and>
       list_all (autocomplete_ok sch site t) (ma_autocomplete_fields a) \<and>
       list_all (inline_ok sch site t) (ma_inlines a) \<and>
       distinct (flatten_fieldsets (ma_fieldsets a)) \<and>
       list_all (\<lambda>c. c \<in> set (ma_readonly_fields a) \<or> option_ok in_a_form (field_of sch t c))
         (flatten_fieldsets (ma_fieldsets a)) \<and>
       distinct (flatten_fieldsets (ma_add_fieldsets a)) \<and>
       list_all (\<lambda>c. c \<in> set extra \<or> option_ok in_a_form (field_of sch t c))
         (flatten_fieldsets (ma_add_fieldsets a)))"

lemma admin_checks:
  "list_all (admin_ok created_models admin_site UserCreationFormEmail) admin_site"
  by (simp add: admin_defs admin_ok_def option_ok_def field_of_def stored_def
        autocomplete_ok_def relation_target_def is_text_def in_a_form_def inline_ok_def
        flatten_fieldsets_def UserCreationFormEmail_def lookup_eval)

text \<open>The admin site fits the schema: every model the migrations create is registered once, and every
  option names what it needs: listed and filtered columns exist, searches (across relations too) end
  in text columns, autocompletion goes to registered models that can be searched, the inline has its
  one foreign key, read-only fields exist, and the fieldsets show editable or read-only columns, each
  once; the user's together show every column but the key.\<close>

theorem admin_fits_schema:
  "set (map fst admin_site) = set (map fst created_models) \<and> distinct (map fst admin_site) \<and>
   list_all (admin_ok created_models admin_site UserCreationFormEmail) admin_site \<and>
   (case map_of created_models ''accounts.user'' of
      None \<Rightarrow> False
    | Some m \<Rightarrow> set (flatten_fieldsets (ma_fieldsets UserAdmin)) = set (UserChangeFormEmail m) - {''id''})"
proof -
  have "set (map fst admin_site) = set (map fst created_models)" "distinct (map fst admin_site)"
    unfolding created_names by (auto simp: admin_site_def)
  moreover have "list_all (admin_ok created_models admin_site UserCreationFormEmail) admin_site"
    by (rule admin_checks)
  moreover have "case map_of created_models ''accounts.user'' of
      None \<Rightarrow> False
    | Some m \<Rightarrow> set (flatten_fieldsets (ma_fieldsets UserAdmin)) = set (UserChangeFormEmail m) - {''id''}"
    by (auto simp: admin_defs lookup_eval flatten_fieldsets_def UserChangeFormEmail_def)
  ultimately show ?thesis by blast
qed

subsection \<open>What the forms have\<close>

definition form_columns :: "model \<Rightarrow> model_admin \<Rightarrow> (string \<times> string list) list \<Rightarrow> string list" where
  \<comment> \<open>the editable columns, less the read-only ones, of the fieldsets if there are any\<close>
  "form_columns m a fieldsets =
     map fst (filter (\<lambda>(c, f). in_a_form f \<and> c \<notin> set (ma_readonly_fields a) \<and>
       (fieldsets = [] \<or> c \<in> set (flatten_fieldsets fieldsets))) (md_fields m))"

definition add_columns :: "model \<Rightarrow> model_admin \<Rightarrow> string list" where
  "add_columns m a =
     form_columns m a (if ma_add_fieldsets a = [] then ma_fieldsets a else ma_add_fieldsets a)"

definition change_columns :: "model \<Rightarrow> model_admin \<Rightarrow> string list" where
  "change_columns m a = form_columns m a (ma_fieldsets a)"

definition has_default :: "field \<Rightarrow> bool" where
  "has_default f \<longleftrightarrow> fd_default f \<noteq> No_Default \<or>
     (case fd_type f of DateTimeField a \<Rightarrow> a \<noteq> No_Auto | t \<Rightarrow> is_text t \<and> \<not> fd_null f)"

definition gaps :: "model \<Rightarrow> model_admin \<Rightarrow> string list" where
  \<comment> \<open>the columns an add form leaves \<open>NULL\<close> though they have none\<close>
  "gaps m a = map fst (filter (\<lambda>(c, f). stored (fd_type f) \<and> \<not> fd_null f \<and> c \<noteq> ''id'' \<and>
     c \<notin> set (add_columns m a) \<and> \<not> has_default f) (md_fields m))"

definition blank_keys :: "model \<Rightarrow> model_admin \<Rightarrow> string list" where
  \<comment> \<open>the unique text columns no add form sets and no default fills: every added row has the empty string\<close>
  "blank_keys m a = map fst (filter (\<lambda>(c, f). is_unique_field f \<and> is_text (fd_type f) \<and>
     fd_default f = No_Default \<and> c \<notin> set (add_columns m a)) (md_fields m))"

lemma gaps_eval:
  "gaps (created_model organizations_0001 0) OrganizationAdmin = []"
  "gaps (created_model organizations_0001 1) MembershipAdmin = []"
  "gaps (created_model organizations_0002 0) InvitationAdmin = [''expires_at'']"
  "gaps (created_model billing_0001 0) PlanAdmin = []"
  "gaps (created_model billing_0001 1) WebhookEventAdmin = []"
  "gaps (created_model billing_0001 2) SubscriptionAdmin = []"
  "gaps (created_model projects_0001 0) ProjectAdmin = []"
  by (simp_all add: gaps_def add_columns_def form_columns_def lookup_eval admin_defs in_a_form_def
      flatten_fieldsets_def has_default_def is_text_def stored_def)

lemma blank_keys_eval:
  "blank_keys (created_model organizations_0001 0) OrganizationAdmin = [''slug'']"
  "blank_keys (created_model organizations_0001 1) MembershipAdmin = []"
  "blank_keys (created_model organizations_0002 0) InvitationAdmin = []"
  "blank_keys (created_model billing_0001 0) PlanAdmin = []"
  "blank_keys (created_model billing_0001 1) WebhookEventAdmin = [''stripe_event_id'']"
  "blank_keys (created_model billing_0001 2) SubscriptionAdmin = []"
  "blank_keys (created_model projects_0001 0) ProjectAdmin = []"
  by (simp_all add: blank_keys_def is_unique_field_def add_columns_def form_columns_def lookup_eval admin_defs
      in_a_form_def flatten_fieldsets_def is_text_def stored_def)

definition kept_columns :: "(string \<times> string) list" where
  "kept_columns =
     [(''billing.subscription'', ''stripe_customer_id''), (''billing.subscription'', ''stripe_subscription_id''),
      (''organizations.invitation'', ''token''), (''organizations.invitation'', ''expires_at''),
      (''organizations.invitation'', ''created_at''), (''organizations.organization'', ''slug''),
      (''accounts.user'', ''last_login''), (''accounts.user'', ''date_joined''),
      (''billing.webhookevent'', ''stripe_event_id''), (''billing.webhookevent'', ''type''),
      (''billing.webhookevent'', ''processed_at'')]"

lemma kept_columns_ok:
  "list_all (\<lambda>(t, c). case (map_of created_models t, map_of admin_site t) of
      (Some m, Some a) \<Rightarrow> c \<notin> set (change_columns m a)
    | _ \<Rightarrow> False) kept_columns"
  by (simp add: kept_columns_def created_lookup admin_site_def change_columns_def form_columns_def
      lookup_eval admin_defs in_a_form_def flatten_fieldsets_def)

text \<open>What the forms leave out, of the models other than \<open>User\<close> (whose add form is the framework's own
  form class): the one column that may not be empty and gets no value from any add form is the
  expiry of an invitation; the unique text columns that an add form leaves empty, so that a second row
  cannot be added, are an organization's slug and an event's Stripe id; and no change form has a field
  for the Stripe ids of a subscription, the token, expiry or creation time of an invitation, the slug of
  an organization or anything of a recorded event.\<close>

theorem admin_forms_leave_out:
  "list_all (\<lambda>(t, a). t = ''accounts.user'' \<or> (case map_of created_models t of
      None \<Rightarrow> False
    | Some m \<Rightarrow> gaps m a = (if t = ''organizations.invitation'' then [''expires_at''] else []) \<and>
        blank_keys m a = (if t = ''organizations.organization'' then [''slug'']
          else if t = ''billing.webhookevent'' then [''stripe_event_id''] else []))) admin_site \<and>
   list_all (\<lambda>(t, c). case (map_of created_models t, map_of admin_site t) of
      (Some m, Some a) \<Rightarrow> c \<notin> set (change_columns m a)
    | _ \<Rightarrow> False) kept_columns"
proof
  show "list_all (\<lambda>(t, a). t = ''accounts.user'' \<or> (case map_of created_models t of
      None \<Rightarrow> False
    | Some m \<Rightarrow> gaps m a = (if t = ''organizations.invitation'' then [''expires_at''] else []) \<and>
        blank_keys m a = (if t = ''organizations.organization'' then [''slug'']
          else if t = ''billing.webhookevent'' then [''stripe_event_id''] else []))) admin_site"
    by (simp add: admin_site_def created_lookup gaps_eval blank_keys_eval del: One_nat_def)
qed (rule kept_columns_ok)

end
