(* ===== verification/Startup.thy ===== *)
theory Startup
  imports Routing Typing
begin

section \<open>Start-up: the constant settings, the application registry, the worker\<close>

text \<open>
  The tables of \<open>bastiq/settings.py\<close> that do not come from the environment (or only in one value), as
  functions of the loaded settings; the \<open>AppConfig\<close> classes of all \<open>apps.py\<close>; \<open>bastiq/celery.py\<close>; and
  \<open>boot\<close>, what \<open>django.setup\<close> does with them in every process: read the settings, configure logging,
  fill the application registry, run every \<open>ready\<close>. The theorems say when a process comes up, and
  that what came up is the configuration the models, the views and the tasks rely on.
\<close>

subsection \<open>Applications\<close>

definition DJANGO_APPS :: "string list" where
  "DJANGO_APPS =
     [''django.contrib.admin'', ''django.contrib.auth'', ''django.contrib.contenttypes'',
      ''django.contrib.sessions'', ''django.contrib.messages'', ''django.contrib.staticfiles'']"

definition THIRD_PARTY_APPS :: "string list" where
  "THIRD_PARTY_APPS =
     [''rest_framework'', ''rest_framework_simplejwt.token_blacklist'', ''drf_spectacular'']"

definition LOCAL_APPS :: "string list" where
  "LOCAL_APPS =
     [''core.apps.CoreConfig'', ''accounts.apps.AccountsConfig'', ''organizations.apps.OrganizationsConfig'',
      ''billing.apps.BillingConfig'', ''projects.apps.ProjectsConfig'']"

definition INSTALLED_APPS :: "string list" where
  "INSTALLED_APPS = DJANGO_APPS @ THIRD_PARTY_APPS @ LOCAL_APPS"

record app_config =
  ac_name :: string
  ac_default_auto_field :: "string option" \<comment> \<open>\<open>None\<close>: not set by the class\<close>
  ac_verbose_name :: string
  ac_ready :: "string list" \<comment> \<open>the modules its \<open>ready\<close> imports\<close>

definition big_auto_field :: string where
  "big_auto_field = ''django.db.models.BigAutoField''"

definition CoreConfig :: app_config where
  "CoreConfig = \<lparr>ac_name = ''core'', ac_default_auto_field = Some big_auto_field,
     ac_verbose_name = ''Core (tenancy & shared infrastructure)'', ac_ready = []\<rparr>"

definition AccountsConfig :: app_config where
  "AccountsConfig = \<lparr>ac_name = ''accounts'', ac_default_auto_field = Some big_auto_field,
     ac_verbose_name = ''Accounts (users & authentication)'', ac_ready = []\<rparr>"

definition OrganizationsConfig :: app_config where
  "OrganizationsConfig = \<lparr>ac_name = ''organizations'', ac_default_auto_field = Some big_auto_field,
     ac_verbose_name = ''Organizations (tenants, memberships, invitations)'', ac_ready = []\<rparr>"

definition BillingConfig :: app_config where
  "BillingConfig = \<lparr>ac_name = ''billing'', ac_default_auto_field = Some big_auto_field,
     ac_verbose_name = ''Billing (plans, subscriptions, Stripe)'', ac_ready = [''billing.signals'']\<rparr>"

definition ProjectsConfig :: app_config where
  "ProjectsConfig = \<lparr>ac_name = ''projects'', ac_default_auto_field = Some big_auto_field,
     ac_verbose_name = ''Projects (sample tenant-scoped resource)'', ac_ready = []\<rparr>"

definition app_configs :: "(string \<times> app_config) list" where
  \<comment> \<open>the dotted paths of the classes\<close>
  "app_configs =
     [(''core.apps.CoreConfig'', CoreConfig), (''accounts.apps.AccountsConfig'', AccountsConfig),
      (''organizations.apps.OrganizationsConfig'', OrganizationsConfig),
      (''billing.apps.BillingConfig'', BillingConfig), (''projects.apps.ProjectsConfig'', ProjectsConfig)]"

definition create_app :: "string \<Rightarrow> app_config" where
  \<comment> \<open>a class of the repository, or a library's application under its own name\<close>
  "create_app entry =
     (case map_of app_configs entry of
        Some c \<Rightarrow> c
      | None \<Rightarrow> \<lparr>ac_name = entry, ac_default_auto_field = None, ac_verbose_name = [], ac_ready = []\<rparr>)"

definition app_label :: "app_config \<Rightarrow> string" where
  \<comment> \<open>the last component of the name, the default of \<open>AppConfig.label\<close>\<close>
  "app_label c = last (str_split (CHR ''.'') (ac_name c))"

fun populate :: "string list \<Rightarrow> app_config list \<Rightarrow> exn + app_config list" where
  \<comment> \<open>\<open>Apps.populate\<close>: labels must be unique\<close>
  "populate [] apps = Inr apps"
| "populate (entry # entries) apps =
     (let c = create_app entry
      in if app_label c \<in> set (map app_label apps)
         then Inl (ImproperlyConfigured ''Application labels aren't unique.'')
         else populate entries (apps @ [c]))"

subsection \<open>Middleware, templates, authentication\<close>

definition MIDDLEWARE :: "string list" where
  "MIDDLEWARE =
     [''django.middleware.security.SecurityMiddleware'', ''whitenoise.middleware.WhiteNoiseMiddleware'',
      ''django.contrib.sessions.middleware.SessionMiddleware'', ''django.middleware.common.CommonMiddleware'',
      ''django.middleware.csrf.CsrfViewMiddleware'',
      ''django.contrib.auth.middleware.AuthenticationMiddleware'',
      ''django.contrib.messages.middleware.MessageMiddleware'',
      ''django.middleware.clickjacking.XFrameOptionsMiddleware'']"

record template_engine =
  te_backend :: string
  te_dirs :: "string list"
  te_app_dirs :: bool
  te_context_processors :: "string list"

definition TEMPLATES :: "template_engine list" where
  "TEMPLATES =
     [\<lparr>te_backend = ''django.template.backends.django.DjangoTemplates'', te_dirs = [], te_app_dirs = True,
        te_context_processors = [''django.template.context_processors.request'',
          ''django.contrib.auth.context_processors.auth'',
          ''django.contrib.messages.context_processors.messages'']\<rparr>]"

definition AUTH_USER_MODEL :: string where
  "AUTH_USER_MODEL = ''accounts.User''"

definition password_validators :: "django_settings \<Rightarrow> (string \<times> (string \<times> int) list) list" where
  \<comment> \<open>\<open>AUTH_PASSWORD_VALIDATORS\<close>: names with options\<close>
  "password_validators s =
     [(''django.contrib.auth.password_validation.UserAttributeSimilarityValidator'', []),
      (''django.contrib.auth.password_validation.MinimumLengthValidator'',
        [(''min_length'', PASSWORD_MIN_LENGTH s)]),
      (''django.contrib.auth.password_validation.CommonPasswordValidator'', []),
      (''django.contrib.auth.password_validation.NumericPasswordValidator'', [])]"

definition password_hashers :: "django_settings \<Rightarrow> string list option" where
  \<comment> \<open>\<open>None\<close>: the framework's default\<close>
  "password_hashers s =
     (if FAST_PASSWORD_HASHER s then Some [''django.contrib.auth.hashers.MD5PasswordHasher''] else None)"

record rest_settings =
  rf_authentication :: "string list"
  rf_permissions :: "string list"
  rf_schema_class :: string
  rf_renderers :: "string list"
  rf_pagination :: string
  rf_page_size :: int
  rf_throttles :: "string list"
  rf_throttle_rates :: "(string \<times> string) list"
  rf_exception_handler :: string

definition REST_FRAMEWORK :: "django_settings \<Rightarrow> rest_settings" where
  "REST_FRAMEWORK s =
     \<lparr>rf_authentication = [''rest_framework_simplejwt.authentication.JWTAuthentication''],
      rf_permissions = [''rest_framework.permissions.IsAuthenticated''],
      rf_schema_class = ''drf_spectacular.openapi.AutoSchema'',
      rf_renderers = [''rest_framework.renderers.JSONRenderer'',
        ''rest_framework.renderers.BrowsableAPIRenderer''],
      rf_pagination = ''rest_framework.pagination.PageNumberPagination'', rf_page_size = PAGE_SIZE s,
      rf_throttles = [''rest_framework.throttling.AnonRateThrottle'',
        ''rest_framework.throttling.UserRateThrottle'', ''rest_framework.throttling.ScopedRateThrottle''],
      rf_throttle_rates = THROTTLE_RATES s,
      rf_exception_handler = ''core.exceptions.api_exception_handler''\<rparr>"

record jwt_settings =
  jw_access_lifetime :: time
  jw_refresh_lifetime :: time
  jw_rotate :: bool
  jw_blacklist_after_rotation :: bool
  jw_update_last_login :: bool
  jw_header_types :: "string list"
  jw_user_id_field :: string
  jw_user_id_claim :: string

definition SIMPLE_JWT :: "django_settings \<Rightarrow> jwt_settings" where
  "SIMPLE_JWT s =
     \<lparr>jw_access_lifetime = ACCESS_TOKEN_MINUTES s * 60 * second,
      jw_refresh_lifetime = REFRESH_TOKEN_DAYS s * day, jw_rotate = True,
      jw_blacklist_after_rotation = True, jw_update_last_login = True, jw_header_types = [''Bearer''],
      jw_user_id_field = ''id'', jw_user_id_claim = ''user_id''\<rparr>"

record docs_settings =
  sp_title :: string
  sp_version :: string
  sp_serve_include_schema :: bool
  sp_serve_permissions :: "string list"
  sp_component_split_request :: bool
  sp_schema_path_prefix :: string

definition SPECTACULAR_SETTINGS :: "django_settings \<Rightarrow> docs_settings" where
  \<comment> \<open>without the description and the options of the Swagger page\<close>
  "SPECTACULAR_SETTINGS s =
     \<lparr>sp_title = ''Bastiq API'', sp_version = ''0.1.0'', sp_serve_include_schema = False,
      sp_serve_permissions = [DOCS_PERMISSION s], sp_component_split_request = True,
      sp_schema_path_prefix = ''/api''\<rparr>"

record static_settings =
  st_url :: string
  st_root :: string
  st_storages :: "(string \<times> string) list"
  st_use_finders :: bool
  st_autorefresh :: bool

definition static_files :: "string \<Rightarrow> django_settings \<Rightarrow> static_settings" where
  \<comment> \<open>the first argument: \<open>BASE_DIR\<close>; the WhiteNoise switches are set in debug mode only\<close>
  "static_files base s =
     \<lparr>st_url = ''static/'', st_root = base @ ''/staticfiles'',
      st_storages = [(''default'', ''django.core.files.storage.FileSystemStorage''),
        (''staticfiles'', ''whitenoise.storage.CompressedManifestStaticFilesStorage'')],
      st_use_finders = DEBUG s, st_autorefresh = DEBUG s\<rparr>"

definition locale_settings :: "string \<times> string \<times> bool \<times> bool" where
  \<comment> \<open>\<open>LANGUAGE_CODE\<close>, \<open>TIME_ZONE\<close>, \<open>USE_I18N\<close>, \<open>USE_TZ\<close>\<close>
  "locale_settings = (''en-us'', ''UTC'', True, True)"

definition ROOT_URLCONF :: string where
  "ROOT_URLCONF = ''bastiq.urls''"

definition SERVER_APPLICATIONS :: "(string \<times> string) list" where
  "SERVER_APPLICATIONS = [(''WSGI_APPLICATION'', ''bastiq.wsgi.application''),
     (''ASGI_APPLICATION'', ''bastiq.asgi.application'')]"

subsection \<open>Logging\<close>

definition upper_char :: "char \<Rightarrow> string" where
  \<comment> \<open>one character of \<open>str.upper\<close>; the two of Latin-1 whose capital lies outside it stay\<close>
  "upper_char c =
     (let n = code_point c
      in if n = 223 then ''SS''
         else if 97 \<le> n \<and> n \<le> 122 \<or> 224 \<le> n \<and> n \<le> 254 \<and> n \<noteq> 247 then [char_of (n - 32)]
         else [c])"

definition str_upper :: "string \<Rightarrow> string" where
  "str_upper s = concat (map upper_char s)"

record logger =
  lg_handlers :: "string list"
  lg_level :: string
  lg_propagate :: bool

record logging =
  lo_version :: int
  lo_disable_existing :: bool
  lo_formatters :: "(string \<times> string) list" \<comment> \<open>name, format\<close>
  lo_handlers :: "(string \<times> string \<times> string) list" \<comment> \<open>name, class, formatter\<close>
  lo_root :: "string list \<times> string" \<comment> \<open>handlers, level\<close>
  lo_loggers :: "(string \<times> logger) list"

definition LOG_LEVEL :: "environ \<Rightarrow> string" where
  "LOG_LEVEL env = str_upper (env_str env ''DJANGO_LOG_LEVEL'' ''INFO'')"

definition LOGGING :: "environ \<Rightarrow> logging" where
  "LOGGING env =
     \<lparr>lo_version = 1, lo_disable_existing = False,
      lo_formatters = [(''verbose'', ''%(asctime)s %(levelname)s %(name)s %(message)s'')],
      lo_handlers = [(''console'', ''logging.StreamHandler'', ''verbose'')],
      lo_root = ([''console''], LOG_LEVEL env),
      lo_loggers =
        [(''django.request'', \<lparr>lg_handlers = [''console''], lg_level = ''ERROR'', lg_propagate = False\<rparr>),
         (''bastiq'', \<lparr>lg_handlers = [''console''], lg_level = LOG_LEVEL env, lg_propagate = False\<rparr>)]\<rparr>"

definition level_names :: "string list" where
  \<comment> \<open>what \<open>logging\<close> knows by name\<close>
  "level_names = [''CRITICAL'', ''FATAL'', ''ERROR'', ''WARN'', ''WARNING'', ''INFO'', ''DEBUG'', ''NOTSET'']"

definition dict_config :: "logging \<Rightarrow> exn + unit" where
  \<comment> \<open>\<open>logging.config.dictConfig\<close>: names must resolve\<close>
  "dict_config l =
     (let logger_ok = (\<lambda>(handlers, level).
            level \<in> set level_names \<and> list_all (\<lambda>h. h \<in> set (map fst (lo_handlers l))) handlers)
      in if lo_version l = 1 \<and>
            list_all (\<lambda>(_, _, f). f \<in> set (map fst (lo_formatters l))) (lo_handlers l) \<and>
            list_all (\<lambda>(_, g). logger_ok (lg_handlers g, lg_level g)) (lo_loggers l) \<and>
            logger_ok (lo_root l)
         then Inr () else Inl PyValueError)"

subsection \<open>The worker (\<open>bastiq/celery.py\<close>)\<close>

definition celery_table :: "environ \<Rightarrow> (string \<times> json) list" where
  "celery_table env =
     [(''CELERY_BROKER_URL'',
        JStr (env_str env ''CELERY_BROKER_URL'' (env_str env ''REDIS_URL'' ''redis://localhost:6379/0''))),
      (''CELERY_RESULT_BACKEND'', JStr (env_str env ''CELERY_RESULT_BACKEND'' [])),
      (''CELERY_TASK_ALWAYS_EAGER'', JBool (env_bool env ''CELERY_TASK_ALWAYS_EAGER'' False)),
      (''CELERY_TASK_EAGER_PROPAGATES'', JBool True), (''CELERY_TASK_ACKS_LATE'', JBool True),
      (''CELERY_WORKER_PREFETCH_MULTIPLIER'', JInt 1),
      (''CELERY_BROKER_CONNECTION_RETRY_ON_STARTUP'', JBool True),
      (''CELERY_TASK_SERIALIZER'', JStr ''json''), (''CELERY_RESULT_SERIALIZER'', JStr ''json''),
      (''CELERY_ACCEPT_CONTENT'', JList [JStr ''json''])]"

definition config_from_object :: "string \<Rightarrow> (string \<times> json) list \<Rightarrow> (string \<times> json) list" where
  \<comment> \<open>Celery's documented reading of a namespace: the prefix is cut off, the rest is in lower case\<close>
  "config_from_object namespace settings =
     concat (map (\<lambda>(k, v). case strip_prefix (namespace @ ''_'') k of
       None \<Rightarrow> [] | Some rest \<Rightarrow> [(str_lower rest, v)]) settings)"

definition task_modules :: "(string \<times> string list) list" where
  \<comment> \<open>the functions decorated with \<open>shared_task\<close>\<close>
  "task_modules =
     [(''accounts.tasks'', [''send_verification_email_task'', ''send_password_reset_email_task'']),
      (''organizations.tasks'', [''send_invitation_email_task''])]"

definition autodiscover_tasks :: "app_config list \<Rightarrow> string list" where
  \<comment> \<open>Celery's documented search: the module \<open>tasks\<close> of every installed application that has one\<close>
  "autodiscover_tasks apps =
     concat (map (\<lambda>c. let module_name = ac_name c @ ''.tasks'' in
       case map_of task_modules module_name of
         None \<Rightarrow> [] | Some fs \<Rightarrow> map (\<lambda>f. module_name @ ''.'' @ f) fs) apps)"

definition celery_tasks :: "app_config list \<Rightarrow> string list" where
  \<comment> \<open>with the diagnostic task of the module itself\<close>
  "celery_tasks apps = ''bastiq.celery.debug_task'' # autodiscover_tasks apps"

fun task_message :: "task \<Rightarrow> string \<times> json" where
  \<comment> \<open>what \<open>delay\<close> puts on the queue: the name of the task and its argument\<close>
  "task_message (Send_Verification_Email u) = (''accounts.tasks.send_verification_email_task'', JInt u)"
| "task_message (Send_Password_Reset_Email u) = (''accounts.tasks.send_password_reset_email_task'', JInt u)"
| "task_message (Send_Invitation_Email i) = (''organizations.tasks.send_invitation_email_task'', JInt i)"

record mail_services =
  ms_crypto :: crypto
  ms_urlencode :: "string \<times> string \<Rightarrow> string"
  ms_date :: "time \<Rightarrow> string"

definition run_message ::
  "mail_services \<Rightarrow> django_settings \<Rightarrow> string list \<Rightarrow> time \<Rightarrow> string \<times> json \<Rightarrow> db \<Rightarrow> mail list option" where
  \<comment> \<open>the worker: a message whose task is not registered is not run\<close>
  "run_message ms s registered now message d =
     (case message of
        (name, JInt k) \<Rightarrow>
          (if name \<notin> set registered then None
           else if name = ''accounts.tasks.send_verification_email_task''
           then Some (send_verification_email_task (ms_crypto ms) (ms_urlencode ms) (FRONTEND_URL s)
             (EMAIL_VERIFICATION_TIMEOUT s) now k d)
           else if name = ''accounts.tasks.send_password_reset_email_task''
           then Some (send_password_reset_email_task (ms_crypto ms) (ms_urlencode ms) (FRONTEND_URL s)
             (PASSWORD_RESET_TIMEOUT s) now k d)
           else if name = ''organizations.tasks.send_invitation_email_task''
           then Some (send_invitation_email_task (ms_urlencode ms) (ms_date ms) (FRONTEND_URL s) k d)
           else None)
      | _ \<Rightarrow> None)"

subsection \<open>Entry points\<close>

definition setdefault :: "string \<Rightarrow> string \<Rightarrow> environ \<Rightarrow> environ" where
  \<comment> \<open>\<open>os.environ.setdefault\<close>\<close>
  "setdefault k v env = (case env k of None \<Rightarrow> env(k \<mapsto> v) | Some _ \<Rightarrow> env)"

definition wsgi_application :: "(environ \<Rightarrow> 'a) \<Rightarrow> environ \<Rightarrow> 'a" where
  \<comment> \<open>the argument: \<open>get_wsgi_application\<close>\<close>
  "wsgi_application get_application env =
     get_application (setdefault ''DJANGO_SETTINGS_MODULE'' ''bastiq.settings'' env)"

definition asgi_application :: "(environ \<Rightarrow> 'a) \<Rightarrow> environ \<Rightarrow> 'a" where
  "asgi_application get_application env =
     get_application (setdefault ''DJANGO_SETTINGS_MODULE'' ''bastiq.settings'' env)"

definition celery_app :: "(environ \<Rightarrow> 'a) \<Rightarrow> environ \<Rightarrow> 'a" where
  "celery_app configure env = configure (setdefault ''DJANGO_SETTINGS_MODULE'' ''bastiq.settings'' env)"

definition manage_main :: "(environ \<Rightarrow> string list \<Rightarrow> 'a) option \<Rightarrow> string list \<Rightarrow> environ \<Rightarrow> exn + 'a" where
  \<comment> \<open>the first argument: \<open>execute_from_command_line\<close>, \<open>None\<close> when Django cannot be imported\<close>
  "manage_main execute argv env =
     (let env' = setdefault ''DJANGO_SETTINGS_MODULE'' ''bastiq.settings'' env
      in case execute of
           None \<Rightarrow> Inl (PyImportError ''Couldn't import Django. Are you sure it's installed and available on your PYTHONPATH environment variable? Did you forget to activate a virtual environment?'')
         | Some run \<Rightarrow> Inr (run env' argv))"

subsection \<open>Signals and start-up\<close>

type_synonym receiver = "bool \<Rightarrow> time \<Rightarrow> key \<Rightarrow> db \<Rightarrow> db" \<comment> \<open>\<open>created\<close>, the time, the instance's key\<close>

type_synonym signal_table = "(string \<times> string \<times> receiver) list" \<comment> \<open>\<open>dispatch_uid\<close>, sender, receiver\<close>

definition signal_modules :: "(string \<times> (string \<times> string \<times> receiver) list) list" where
  \<comment> \<open>the functions decorated with \<open>receiver(post_save)\<close>\<close>
  "signal_modules =
     [(''billing.signals'',
        [(''billing.create_free_subscription'', ''organizations.organization'', create_free_subscription)])]"

definition signal_connect :: "string \<times> string \<times> receiver \<Rightarrow> signal_table \<Rightarrow> signal_table" where
  \<comment> \<open>a receiver with a known \<open>dispatch_uid\<close> and sender is not connected again\<close>
  "signal_connect r table =
     (if (fst r, fst (snd r)) \<in> set (map (\<lambda>(uid, sender, _). (uid, sender)) table) then table else table @ [r])"

definition import_module :: "string \<Rightarrow> signal_table \<Rightarrow> signal_table" where
  "import_module name table =
     (case map_of signal_modules name of None \<Rightarrow> table | Some rs \<Rightarrow> fold signal_connect rs table)"

definition run_ready :: "app_config list \<Rightarrow> signal_table" where
  "run_ready apps = fold import_module (concat (map ac_ready apps)) []"

definition post_save :: "signal_table \<Rightarrow> string \<Rightarrow> receiver" where
  \<comment> \<open>\<open>post_save.send\<close>\<close>
  "post_save table sender created now k d =
     fold (\<lambda>(_, sender', r). if sender' = sender then r created now k else id) table d"

record process =
  pc_settings :: django_settings
  pc_apps :: "app_config list"
  pc_signals :: signal_table
  pc_tasks :: "string list"
  pc_celery :: "(string \<times> json) list"

definition boot :: "environ \<Rightarrow> exn + process" where
  "boot env =
     bind_res (load_settings env) (\<lambda>s.
     bind_res (dict_config (LOGGING env)) (\<lambda>_.
     bind_res (populate INSTALLED_APPS []) (\<lambda>apps.
       Inr \<lparr>pc_settings = s, pc_apps = apps, pc_signals = run_ready apps, pc_tasks = celery_tasks apps,
         pc_celery = config_from_object ''CELERY'' (celery_table env)\<rparr>)))"

subsection \<open>When a process comes up\<close>

definition booted_apps :: "app_config list" where
  "booted_apps = map create_app INSTALLED_APPS"

lemmas app_defs =
  INSTALLED_APPS_def DJANGO_APPS_def THIRD_PARTY_APPS_def LOCAL_APPS_def create_app_def app_configs_def
  CoreConfig_def AccountsConfig_def OrganizationsConfig_def BillingConfig_def ProjectsConfig_def

lemma booted_labels:
  "map app_label booted_apps =
     [''admin'', ''auth'', ''contenttypes'', ''sessions'', ''messages'', ''staticfiles'', ''rest_framework'',
      ''token_blacklist'', ''drf_spectacular'', ''core'', ''accounts'', ''organizations'', ''billing'', ''projects'']"
  by (simp add: booted_apps_def app_defs app_label_def)

lemma populate_distinct:
  "distinct (map app_label (apps @ map create_app entries)) \<Longrightarrow>
   populate entries apps = Inr (apps @ map create_app entries)"
  by (induction entries arbitrary: apps) (auto simp: Let_def)

lemma populate_installed: "populate INSTALLED_APPS [] = Inr booted_apps"
proof -
  have "distinct (map app_label ([] @ map create_app INSTALLED_APPS))"
    using booted_labels by (simp add: booted_apps_def)
  from populate_distinct [OF this] show ?thesis by (simp add: booted_apps_def)
qed

lemma dict_config_LOGGING:
  "dict_config (LOGGING env) = (if LOG_LEVEL env \<in> set level_names then Inr () else Inl PyValueError)"
proof -
  have "''ERROR'' \<in> set level_names" by (simp add: level_names_def)
  then show ?thesis by (simp add: dict_config_def LOGGING_def)
qed

lemma boot_Inr:
  "boot env = Inr p \<longleftrightarrow> LOG_LEVEL env \<in> set level_names \<and>
     (\<exists>s. load_settings env = Inr s \<and> p = \<lparr>pc_settings = s, pc_apps = booted_apps,
        pc_signals = run_ready booted_apps, pc_tasks = celery_tasks booted_apps,
        pc_celery = config_from_object ''CELERY'' (celery_table env)\<rparr>)"
  by (auto simp: boot_def bind_res_Inr_iff dict_config_LOGGING populate_installed)

text \<open>What stops a process from coming up: the settings do not load (exactly then the settings' own
  exception is raised), or the log level is no level of Python's; a blank level is none, unlike a blank
  integer, which takes its default. Nothing else does: the application labels never clash.\<close>

theorem boot_fails_iff:
  "(case boot env of
      Inr p \<Rightarrow> load_settings env = Inr (pc_settings p) \<and> LOG_LEVEL env \<in> set level_names \<and>
        pc_apps p = map create_app INSTALLED_APPS
    | Inl e \<Rightarrow> load_settings env = Inl e \<or>
        e = PyValueError \<and> LOG_LEVEL env \<notin> set level_names) \<and>
   (env ''DJANGO_LOG_LEVEL'' = Some [] \<longrightarrow> isl (boot env)) \<and>
   (env ''DJANGO_LOG_LEVEL'' = None \<longrightarrow> isl (boot env) = isl (load_settings env))"
proof -
  have level: "env ''DJANGO_LOG_LEVEL'' = Some [] \<Longrightarrow> LOG_LEVEL env = []"
    "env ''DJANGO_LOG_LEVEL'' = None \<Longrightarrow> LOG_LEVEL env = ''INFO''"
    by (simp_all add: LOG_LEVEL_def env_str_def str_upper_def upper_char_def code_point_def)
  show ?thesis
  proof (cases "load_settings env")
    case (Inl e)
    then show ?thesis by (simp add: boot_def)
  next
    case (Inr s)
    then show ?thesis using level
      by (simp add: boot_def dict_config_LOGGING populate_installed booted_apps_def) (auto simp: level_names_def)
  qed
qed

theorem boot_fails_iff_witness:
  "isl (boot (demo_environ(''DJANGO_LOG_LEVEL'' := Some []))) \<and> \<not> isl (boot demo_environ)"
proof -
  have "\<not> isl (load_settings demo_environ)" by code_simp
  moreover have "demo_environ ''DJANGO_LOG_LEVEL'' = None" by (simp add: demo_environ_def)
  ultimately show ?thesis
    using boot_fails_iff [of demo_environ] boot_fails_iff [of "demo_environ(''DJANGO_LOG_LEVEL'' := Some [])"]
    by simp
qed

subsection \<open>What came up\<close>

lemma booted_signals:
  "run_ready booted_apps =
     [(''billing.create_free_subscription'', ''organizations.organization'', create_free_subscription)]"
  by (simp add: run_ready_def booted_apps_def app_defs import_module_def signal_modules_def signal_connect_def)

lemma booted_tasks:
  "celery_tasks booted_apps = ''bastiq.celery.debug_task'' #
     [''accounts.tasks.send_verification_email_task'', ''accounts.tasks.send_password_reset_email_task'',
      ''organizations.tasks.send_invitation_email_task'']"
  by (simp add: celery_tasks_def autodiscover_tasks_def booted_apps_def app_defs task_modules_def)

text \<open>C37. A process that came up is wired: the post-save signal of an organization runs the receiver that
  gives it its Free subscription, once, and the signal of any other model runs nothing; and whatever
  task the API queues, the worker knows it by the name in the message and sends the mails of that task
  with the timeouts and the URL of the settings.\<close>

theorem booted_process_wired:
  assumes "boot env = Inr p"
  shows "post_save (pc_signals p) ''organizations.organization'' created now k d =
      create_free_subscription created now k d \<and>
    (sender \<noteq> ''organizations.organization'' \<longrightarrow> post_save (pc_signals p) sender created now k d = d) \<and>
    run_message ms (pc_settings p) (pc_tasks p) now (task_message task) d =
      Some (case task of
          Send_Verification_Email u \<Rightarrow> send_verification_email_task (ms_crypto ms) (ms_urlencode ms)
            (FRONTEND_URL (pc_settings p)) (EMAIL_VERIFICATION_TIMEOUT (pc_settings p)) now u d
        | Send_Password_Reset_Email u \<Rightarrow> send_password_reset_email_task (ms_crypto ms) (ms_urlencode ms)
            (FRONTEND_URL (pc_settings p)) (PASSWORD_RESET_TIMEOUT (pc_settings p)) now u d
        | Send_Invitation_Email i \<Rightarrow> send_invitation_email_task (ms_urlencode ms) (ms_date ms)
            (FRONTEND_URL (pc_settings p)) i d)"
proof -
  from assms have p: "pc_signals p = run_ready booted_apps" "pc_tasks p = celery_tasks booted_apps"
    by (auto simp: boot_Inr)
  show ?thesis
    by (cases task) (simp_all add: p booted_signals booted_tasks post_save_def run_message_def)
qed

theorem booted_process_wired_witness:
  "\<exists>p. boot demo_environ = Inr p \<and>
     post_save (pc_signals p) ''organizations.organization'' True 5 1 demo_db =
       create_free_subscription True 5 1 demo_db"
proof -
  have "\<not> isl (load_settings demo_environ)" by code_simp
  then obtain s where "load_settings demo_environ = Inr s" by (cases "load_settings demo_environ") auto
  moreover have "LOG_LEVEL demo_environ \<in> set level_names"
    by (simp add: LOG_LEVEL_def env_str_def demo_environ_def str_upper_def upper_char_def code_point_def
        level_names_def)
  ultimately obtain p where "boot demo_environ = Inr p" by (auto simp: boot_Inr)
  with booted_process_wired [OF this, where sender = "[]"] show ?thesis by blast
qed

subsection \<open>The configuration and the code fit\<close>

definition model_label :: "string \<Rightarrow> string" where
  \<comment> \<open>the application of a model\<close>
  "model_label t = takeWhile (\<lambda>c. c \<noteq> CHR ''.'') t"

definition models_installed :: "app_config list \<Rightarrow> (string \<times> model) list \<Rightarrow> bool" where
  \<comment> \<open>the application of every model and of every model it refers to is installed, and the automatic key
    is of the application's default type\<close>
  "models_installed apps sch =
     list_all (\<lambda>(t, m).
       (case map_of (map (\<lambda>c. (app_label c, c)) apps) (model_label t) of
          None \<Rightarrow> False
        | Some c \<Rightarrow> ac_default_auto_field c = Some big_auto_field \<and>
            map_option fd_type (map_of (md_fields m) ''id'') = Some BigAutoField) \<and>
       list_all (\<lambda>(_, f). case relation_target (fd_type f) of
           None \<Rightarrow> True
         | Some t' \<Rightarrow> model_label t' \<in> set (map app_label apps)) (md_fields m)) sch"

definition precedes :: "'a \<Rightarrow> 'a \<Rightarrow> 'a list \<Rightarrow> bool" where
  "precedes x y xs \<longleftrightarrow> x \<in> set (takeWhile (\<lambda>z. z \<noteq> y) xs) \<and> y \<in> set xs"

definition middleware_ok :: "string list \<Rightarrow> bool" where
  \<comment> \<open>the orders the middleware's documentation asks for\<close>
  "middleware_ok ms \<longleftrightarrow>
     take 2 ms = [''django.middleware.security.SecurityMiddleware'',
       ''whitenoise.middleware.WhiteNoiseMiddleware''] \<and>
     precedes ''django.contrib.sessions.middleware.SessionMiddleware''
       ''django.contrib.auth.middleware.AuthenticationMiddleware'' ms \<and>
     precedes ''django.contrib.sessions.middleware.SessionMiddleware''
       ''django.contrib.messages.middleware.MessageMiddleware'' ms \<and>
     precedes ''django.middleware.csrf.CsrfViewMiddleware''
       ''django.contrib.auth.middleware.AuthenticationMiddleware'' ms \<and>
     distinct ms"

definition admin_dependencies_ok :: "app_config list \<Rightarrow> template_engine list \<Rightarrow> string list \<Rightarrow> bool" where
  \<comment> \<open>the framework's checks \<open>admin.E401\<close> to \<open>admin.E410\<close>\<close>
  "admin_dependencies_ok apps engines ms \<longleftrightarrow>
     (let names = map ac_name apps
      in list_all (\<lambda>n. n \<in> set names)
           [''django.contrib.contenttypes'', ''django.contrib.auth'', ''django.contrib.messages''] \<and>
         list_ex (\<lambda>e. te_backend e = ''django.template.backends.django.DjangoTemplates'' \<and>
           list_all (\<lambda>p. p \<in> set (te_context_processors e))
             [''django.contrib.auth.context_processors.auth'',
              ''django.contrib.messages.context_processors.messages'',
              ''django.template.context_processors.request'']) engines \<and>
         list_all (\<lambda>m. m \<in> set ms)
           [''django.contrib.auth.middleware.AuthenticationMiddleware'',
            ''django.contrib.messages.middleware.MessageMiddleware'',
            ''django.contrib.sessions.middleware.SessionMiddleware''])"

definition celery_ok :: "(string \<times> json) list \<Rightarrow> bool" where
  \<comment> \<open>a worker accepts what it and its clients write\<close>
  "celery_ok config \<longleftrightarrow>
     (case map_of config ''accept_content'' of
        Some (JList accepted) \<Rightarrow>
          list_all (\<lambda>k. case map_of config k of None \<Rightarrow> False | Some v \<Rightarrow> v \<in> set accepted)
            [''task_serializer'', ''result_serializer'']
      | _ \<Rightarrow> False)"

lemma booted_lookup [simp]:
  "map_of (map (\<lambda>c. (app_label c, c)) booted_apps) ''accounts'' = Some AccountsConfig"
  "map_of (map (\<lambda>c. (app_label c, c)) booted_apps) ''organizations'' = Some OrganizationsConfig"
  "map_of (map (\<lambda>c. (app_label c, c)) booted_apps) ''billing'' = Some BillingConfig"
  "map_of (map (\<lambda>c. (app_label c, c)) booted_apps) ''projects'' = Some ProjectsConfig"
  by (simp_all add: booted_apps_def app_defs app_label_def)

lemma models_installed_booted: "models_installed booted_apps created_models"
  unfolding models_installed_def booted_labels
  by (simp add: created_models_eq model_label_def lookup_eval relation_target_def AccountsConfig_def
      OrganizationsConfig_def BillingConfig_def ProjectsConfig_def)

lemma celery_names:
  "map str_lower [''BROKER_URL'', ''RESULT_BACKEND'', ''TASK_ALWAYS_EAGER'', ''TASK_EAGER_PROPAGATES'',
     ''TASK_ACKS_LATE'', ''WORKER_PREFETCH_MULTIPLIER'', ''BROKER_CONNECTION_RETRY_ON_STARTUP'',
     ''TASK_SERIALIZER'', ''RESULT_SERIALIZER'', ''ACCEPT_CONTENT''] =
   [''broker_url'', ''result_backend'', ''task_always_eager'', ''task_eager_propagates'',
     ''task_acks_late'', ''worker_prefetch_multiplier'', ''broker_connection_retry_on_startup'',
     ''task_serializer'', ''result_serializer'', ''accept_content'']"
  by code_simp

lemma celery_booted:
  "celery_ok (config_from_object ''CELERY'' (celery_table env))"
  using celery_names by (simp add: celery_ok_def config_from_object_def celery_table_def)

text \<open>The constant settings fit the code: the application of every migrated model and of every model
  it refers to is installed and gives its keys their type; \<open>AUTH_USER_MODEL\<close> is the migrated user model
  whose key the tokens carry; revoking sessions has the blacklist application it needs; the framework's
  checks for the admin site and the documented orders of the middleware hold; views that say nothing
  require a login; and the worker accepts what is queued, for every environment.\<close>

theorem configuration_fits:
  "models_installed (map create_app INSTALLED_APPS) created_models \<and>
   str_lower AUTH_USER_MODEL \<in> set (map fst created_models) \<and>
   (case map_of created_models (str_lower AUTH_USER_MODEL) of
      None \<Rightarrow> False
    | Some m \<Rightarrow> map_option fd_type (map_of (md_fields m) (jw_user_id_field (SIMPLE_JWT s))) = Some BigAutoField) \<and>
   jw_blacklist_after_rotation (SIMPLE_JWT s) \<and>
   ''rest_framework_simplejwt.token_blacklist'' \<in> set INSTALLED_APPS \<and>
   admin_dependencies_ok (map create_app INSTALLED_APPS) TEMPLATES MIDDLEWARE \<and> middleware_ok MIDDLEWARE \<and>
   rf_permissions (REST_FRAMEWORK s) = [''rest_framework.permissions.IsAuthenticated''] \<and>
   celery_ok (config_from_object ''CELERY'' (celery_table env))"
proof -
  have user: "str_lower AUTH_USER_MODEL = ''accounts.user''"
    by code_simp
  have "admin_dependencies_ok booted_apps TEMPLATES MIDDLEWARE"
    by (simp add: admin_dependencies_ok_def booted_apps_def app_defs TEMPLATES_def MIDDLEWARE_def)
  moreover have "middleware_ok MIDDLEWARE"
    by (simp add: middleware_ok_def MIDDLEWARE_def precedes_def)
  moreover have "''rest_framework_simplejwt.token_blacklist'' \<in> set INSTALLED_APPS"
    by (simp add: INSTALLED_APPS_def THIRD_PARTY_APPS_def)
  ultimately show ?thesis
    unfolding user booted_apps_def [symmetric]
    by (simp add: models_installed_booted celery_booted created_names SIMPLE_JWT_def REST_FRAMEWORK_def
        lookup_eval)
qed

subsection \<open>Throttling of the public endpoints\<close>

lemma throttle_rates_loaded:
  "load_settings env = Inr s \<Longrightarrow> THROTTLE_RATES s = throttle_rates env"
  unfolding load_settings_def Let_def by (cases "hosts_and_origins env") (auto simp: bind_res_Inr_iff)

text \<open>Every scope a view names has a rate (a missing one would be an error on every request of that
  view), and whatever an anonymous caller may \<open>POST\<close> to has a scope of its own, except the webhook,
  whose caller has to sign: registration, verification, login and refresh, and both reset endpoints.\<close>

theorem public_posts_throttled:
  assumes "load_settings env = Inr s" and "class_of lib docs v = Some vc"
    and "v \<notin> {Schema_View, Docs_View}"
  shows "(vc_throttle_scope vc = Some scope \<longrightarrow> scope \<in> set (map fst (rf_throttle_rates (REST_FRAMEWORK s)))) \<and>
    (v \<in> public_views private_docs \<and> POST \<in> set (vc_handlers vc) \<and> v \<noteq> Webhook_View \<longrightarrow>
      vc_throttle_scope vc \<in>
        Some ` {''register'', ''email_verify'', ''login'', ''password_reset''} \<and>
      ''rest_framework.throttling.ScopedRateThrottle'' \<in> set (rf_throttles (REST_FRAMEWORK s)))"
proof -
  have rates: "map fst (rf_throttle_rates (REST_FRAMEWORK s)) =
      [''anon'', ''user'', ''login'', ''register'', ''password_reset'', ''email_verify'']"
    by (simp add: REST_FRAMEWORK_def throttle_rates_loaded [OF assms(1)] throttle_rates_def)
  have throttles: "''rest_framework.throttling.ScopedRateThrottle'' \<in> set (rf_throttles (REST_FRAMEWORK s))"
    by (simp add: REST_FRAMEWORK_def)
  show ?thesis unfolding rates
    using assms(2,3) throttles
    by (cases v) (auto simp: class_of_def public_views_def RegisterView_def VerifyEmailView_def
        LoginView_def RefreshView_def PasswordResetRequestView_def PasswordResetConfirmView_def
        MeView_def PlansView_def SubscriptionView_def CheckoutView_def PortalView_def WebhookView_def
        InvitationAcceptView_def scoped_view_def api_view_def routed_def)
qed

theorem public_posts_throttled_witness:
  "\<exists>s vc. load_settings demo_environ = Inr s \<and> class_of demo_library [] Login_View = Some vc \<and>
     vc_throttle_scope vc \<in> Some ` {''register'', ''email_verify'', ''login'', ''password_reset''}"
proof -
  have "\<not> isl (load_settings demo_environ)" by code_simp
  then obtain s where s: "load_settings demo_environ = Inr s" by (cases "load_settings demo_environ") auto
  have vc: "class_of demo_library [] Login_View = Some LoginView" by (simp add: class_of_def)
  have "Login_View \<in> public_views True" "POST \<in> set (vc_handlers LoginView)"
    by (simp_all add: public_views_def LoginView_def scoped_view_def api_view_def)
  with public_posts_throttled [OF s vc, of "''login''" True] s vc show ?thesis by blast
qed

subsection \<open>One settings module for every process\<close>

text \<open>Every entry point gives the framework the same environment, and none overrides a module that was
  already chosen.\<close>

lemma entry_points_agree:
  "wsgi_application f env = f (setdefault ''DJANGO_SETTINGS_MODULE'' ''bastiq.settings'' env)"
  "asgi_application f env = wsgi_application f env" "celery_app f env = wsgi_application f env"
  "manage_main (Some g) argv env = Inr (wsgi_application (\<lambda>e. g e argv) env)"
  "env ''DJANGO_SETTINGS_MODULE'' = Some m \<Longrightarrow> wsgi_application f env = f env"
  by (simp_all add: wsgi_application_def asgi_application_def celery_app_def manage_main_def setdefault_def)

lemma setdefault_other:
  assumes "key \<noteq> k"
  shows "setdefault k v env key = env key"
    "env_str (setdefault k v env) key dflt = env_str env key dflt"
    "env_bool (setdefault k v env) key b = env_bool env key b"
    "env_int (setdefault k v env) key i = env_int env key i"
    "env_list (setdefault k v env) key dflt = env_list env key dflt"
proof -
  show other: "setdefault k v env key = env key" using assms by (simp add: setdefault_def split: option.split)
  show "env_str (setdefault k v env) key dflt = env_str env key dflt"
    "env_bool (setdefault k v env) key b = env_bool env key b"
    "env_int (setdefault k v env) key i = env_int env key i"
    "env_list (setdefault k v env) key dflt = env_list env key dflt"
    by (simp_all add: env_str_def env_bool_def env_int_def env_list_def other)
qed

lemma boot_same_settings:
  "boot (setdefault ''DJANGO_SETTINGS_MODULE'' m env) = boot env"
proof -
  let ?e = "setdefault ''DJANGO_SETTINGS_MODULE'' m env"
  have parts: "hosts_and_origins ?e = hosts_and_origins env" "secret_key ?e debug = secret_key env debug"
    "email_config ?e = email_config env" "hardening_config ?e debug = hardening_config env debug"
    "throttle_rates ?e = throttle_rates env" "docs_permission ?e = docs_permission env"
    "LOGGING ?e = LOGGING env" "celery_table ?e = celery_table env" for debug
    by (simp_all add: hosts_and_origins_def secret_key_def email_config_def hardening_config_def
        throttle_rates_def docs_permission_def LOGGING_def LOG_LEVEL_def celery_table_def setdefault_other Let_def cong: if_cong)
  have "load_settings ?e = load_settings env"
    unfolding load_settings_def Let_def by (simp add: parts setdefault_other)
  with parts show ?thesis by (simp add: boot_def)
qed

end
