(* ===== verification/Api_Docs.thy ===== *)
theory Api_Docs
  imports Routing
begin

section \<open>The documented API (the \<open>extend_schema\<close> annotations of the views)\<close>

text \<open>
  What the views declare of themselves for the OpenAPI document, as data, beside the status codes the
  handlers answer with. Declared by hand and not derived, these can disagree with the code: the
  theorems compare them with the permission classes of \<open>Routing\<close> and with the replies.
\<close>

subsection \<open>The annotations\<close>

datatype doc_location = In_Header | In_Path

record doc_param =
  dp_name :: string
  dp_location :: doc_location
  dp_required :: bool
  dp_type :: string

datatype doc_body =
    From_Class \<comment> \<open>derived from \<open>serializer_class\<close>\<close>
  | No_Body \<comment> \<open>\<open>request=None\<close>\<close>
  | Body string

record api_doc =
  ad_tags :: "string list"
  ad_parameters :: "doc_param list"
  ad_request :: doc_body
  ad_responses :: "(nat \<times> string) list" \<comment> \<open>empty: derived\<close>

definition tagged :: "string \<Rightarrow> api_doc" where
  "tagged t = \<lparr>ad_tags = [t], ad_parameters = [], ad_request = From_Class, ad_responses = []\<rparr>"

definition ORG_HEADER_PARAM :: doc_param where
  "ORG_HEADER_PARAM = \<lparr>dp_name = ORG_ID_HEADER, dp_location = In_Header, dp_required = True, dp_type = ''int''\<rparr>"

definition DetailResponse :: "string \<times> (string \<times> string) list" where
  \<comment> \<open>an inline serializer: name and fields\<close>
  "DetailResponse = (''DetailResponse'', [(''detail'', ''CharField'')])"

definition VerifyEmailView_doc :: api_doc where
  "VerifyEmailView_doc = (tagged ''auth'')\<lparr>ad_request := Body ''VerifyEmailSerializer'',
     ad_responses := [(200, fst DetailResponse)]\<rparr>"

definition PasswordResetRequestView_doc :: api_doc where
  "PasswordResetRequestView_doc = (tagged ''auth'')\<lparr>ad_request := Body ''PasswordResetRequestSerializer'',
     ad_responses := [(202, fst DetailResponse)]\<rparr>"

definition PasswordResetConfirmView_doc :: api_doc where
  "PasswordResetConfirmView_doc = (tagged ''auth'')\<lparr>ad_request := Body ''PasswordResetConfirmSerializer'',
     ad_responses := [(200, fst DetailResponse)]\<rparr>"

definition RegisterView_doc :: api_doc where
  "RegisterView_doc = (tagged ''auth'')\<lparr>ad_responses := [(201, ''UserSerializer'')]\<rparr>"

definition SubscriptionView_doc :: api_doc where
  "SubscriptionView_doc = (tagged ''billing'')\<lparr>ad_parameters := [ORG_HEADER_PARAM],
     ad_responses := [(200, ''SubscriptionSerializer'')]\<rparr>"

definition CheckoutView_doc :: api_doc where
  "CheckoutView_doc = (tagged ''billing'')\<lparr>ad_parameters := [ORG_HEADER_PARAM],
     ad_request := Body ''CheckoutSerializer'', ad_responses := [(200, ''CheckoutResponse'')]\<rparr>"

definition PortalView_doc :: api_doc where
  "PortalView_doc = (tagged ''billing'')\<lparr>ad_parameters := [ORG_HEADER_PARAM], ad_request := No_Body,
     ad_responses := [(200, ''PortalResponse'')]\<rparr>"

definition WebhookView_doc :: api_doc where
  "WebhookView_doc = (tagged ''billing'')\<lparr>ad_request := No_Body, ad_responses := [(200, ''WebhookAck'')]\<rparr>"

definition members_doc :: api_doc where
  "members_doc = (tagged ''organizations'')\<lparr>ad_responses := [(200, ''MembershipSerializer'')]\<rparr>"

definition member_doc :: api_doc where
  \<comment> \<open>one annotation for \<open>patch\<close> and \<open>delete\<close>\<close>
  "member_doc = (tagged ''organizations'')\<lparr>ad_request := Body ''MemberRoleSerializer'',
     ad_responses := [(200, ''MembershipSerializer'')], ad_parameters :=
       [\<lparr>dp_name = ''member_pk'', dp_location = In_Path, dp_required = True, dp_type = ''int''\<rparr>]\<rparr>"

definition invitations_doc :: "http_method \<Rightarrow> api_doc" where
  "invitations_doc m =
     (if m = POST
      then (tagged ''organizations'')\<lparr>ad_request := Body ''InvitationCreateSerializer'',
        ad_responses := [(201, ''InvitationSerializer'')]\<rparr>
      else (tagged ''organizations'')\<lparr>ad_responses := [(200, ''InvitationSerializer'')]\<rparr>)"

definition InvitationAcceptView_doc :: api_doc where
  "InvitationAcceptView_doc = (tagged ''organizations'')\<lparr>ad_request := Body ''InvitationAcceptSerializer'',
     ad_responses := [(200, ''MembershipSerializer'')]\<rparr>"

definition ProjectViewSet_doc :: api_doc where
  "ProjectViewSet_doc = (tagged ''projects'')\<lparr>ad_parameters := [ORG_HEADER_PARAM]\<rparr>"

definition doc_of :: "view \<Rightarrow> http_method \<Rightarrow> api_doc option" where
  \<comment> \<open>\<open>None\<close>: views of the framework, and those outside the REST framework\<close>
  "doc_of v m =
     (case v of
        Landing \<Rightarrow> None | Admin_Site \<Rightarrow> None | Healthz \<Rightarrow> None | Schema_View \<Rightarrow> None | Docs_View \<Rightarrow> None
      | Register_View \<Rightarrow> Some RegisterView_doc
      | Verify_Email_View \<Rightarrow> Some VerifyEmailView_doc
      | Login_View \<Rightarrow> Some (tagged ''auth'')
      | Refresh_View \<Rightarrow> Some (tagged ''auth'')
      | Password_Reset_Request_View \<Rightarrow> Some PasswordResetRequestView_doc
      | Password_Reset_Confirm_View \<Rightarrow> Some PasswordResetConfirmView_doc
      | Me_View \<Rightarrow> Some (tagged ''auth'')
      | Plans_View \<Rightarrow> Some (tagged ''billing'')
      | Subscription_View \<Rightarrow> Some SubscriptionView_doc
      | Checkout_View \<Rightarrow> Some CheckoutView_doc
      | Portal_View \<Rightarrow> Some PortalView_doc
      | Webhook_View \<Rightarrow> Some WebhookView_doc
      | Invitation_Accept_View \<Rightarrow> Some InvitationAcceptView_doc
      | Organization_List \<Rightarrow> Some (tagged ''organizations'')
      | Organization_Detail _ \<Rightarrow> Some (tagged ''organizations'')
      | Organization_Members _ \<Rightarrow> Some members_doc
      | Organization_Member _ _ \<Rightarrow> Some member_doc
      | Organization_Invitations _ \<Rightarrow> Some (invitations_doc m)
      | Project_List_View \<Rightarrow> Some ProjectViewSet_doc
      | Project_Detail_View _ \<Rightarrow> Some ProjectViewSet_doc)"

definition success_status :: "view \<Rightarrow> http_method \<Rightarrow> nat" where
  \<comment> \<open>the status of the handler's reply when nothing is raised\<close>
  "success_status v m =
     (case v of
        Register_View \<Rightarrow> 201
      | Password_Reset_Request_View \<Rightarrow> 202
      | Organization_List \<Rightarrow> if m = POST then 201 else 200
      | Organization_Detail _ \<Rightarrow> if m = DELETE then 204 else 200
      | Organization_Member _ _ \<Rightarrow> if m = DELETE then 204 else 200
      | Organization_Invitations _ \<Rightarrow> if m = POST then 201 else 200
      | Project_List_View \<Rightarrow> if m = POST then 201 else 200
      | Project_Detail_View _ \<Rightarrow> if m = DELETE then 204 else 200
      | _ \<Rightarrow> 200)"

subsection \<open>The documentation and the code\<close>

lemmas doc_defs =
  RegisterView_doc_def VerifyEmailView_doc_def PasswordResetRequestView_doc_def
  PasswordResetConfirmView_doc_def SubscriptionView_doc_def CheckoutView_doc_def PortalView_doc_def
  WebhookView_doc_def members_doc_def member_doc_def invitations_doc_def InvitationAcceptView_doc_def
  ProjectViewSet_doc_def tagged_def ORG_HEADER_PARAM_def DetailResponse_def

lemmas class_defs =
  RegisterView_def VerifyEmailView_def LoginView_def PasswordResetRequestView_def
  PasswordResetConfirmView_def MeView_def PlansView_def SubscriptionView_def CheckoutView_def
  PortalView_def WebhookView_def InvitationAcceptView_def OrganizationViewSet_def ProjectViewSet_def
  scoped_view_def api_view_def routed_def

definition documents_header :: "api_doc \<Rightarrow> bool" where
  "documents_header a \<longleftrightarrow> ORG_HEADER_PARAM \<in> set (ad_parameters a)"

definition needs_header :: "view_class \<Rightarrow> bool" where
  \<comment> \<open>without the header nobody gets through, whoever is logged in\<close>
  "needs_header vc \<longleftrightarrow> (\<forall>d r. rq_org_header r = None \<longrightarrow> isl (class_permissions vc d r))"

lemma without_header: "rq_org_header r = None \<Longrightarrow> IsOrganizationMember d r = (False, r)"
  by (simp add: IsOrganizationMember_def split: option.splits)

lemma tenant_needs_header:
  "vc_permissions vc = (IsAuthenticated, []) # (IsOrganizationMember, msg) # perms \<Longrightarrow> needs_header vc"
  by (auto simp: needs_header_def class_permissions_def IsAuthenticated_def without_header)

lemma passes_without_header:
  assumes "class_permissions vc d (fresh_request m (Some u) None) = Inr r"
  shows "\<not> needs_header vc"
proof
  assume "needs_header vc"
  then have "isl (class_permissions vc d (fresh_request m (Some u) None))"
    unfolding needs_header_def by (simp add: fresh_request_def)
  with assms show False by simp
qed

text \<open>The documentation names the tenant header exactly where it is needed: for every documented
  operation of the repository's own views, the parameter \<open>X-Organization-ID\<close> is declared if and only
  if the permission classes let nobody through without it.\<close>

theorem header_documented_iff_needed:
  assumes "class_of lib docs v = Some vc" "doc_of v m = Some a" "v \<noteq> Refresh_View"
  shows "documents_header a \<longleftrightarrow> needs_header vc"
proof -
  define u where "u = demo_user 1 []"
  have tenant: "needs_header vc" if "vc_permissions vc \<in> {tenant_permissions, owner_permissions, project_permissions}"
    using that tenant_needs_header [of vc]
    by (auto simp: tenant_permissions_def owner_permissions_def project_permissions_def)
  have user: "\<not> needs_header vc" if "vc_authenticates vc" "vc_permissions vc = [(IsAuthenticated, [])]"
    by (rule passes_without_header [where d = demo_db and m = GET and u = u])
      (simp add: class_permissions_def that IsAuthenticated_def fresh_request_def)
  have public: "\<not> needs_header vc" if "vc_permissions vc = [(AllowAny, [])]"
    by (rule passes_without_header [where d = demo_db and m = GET and u = u])
      (simp add: class_permissions_def that AllowAny_def)
  show ?thesis
    using assms tenant user public
    by (cases v) (auto simp: class_of_def doc_of_def documents_header_def doc_defs class_defs org_permissions_def
        split: if_splits)
qed

theorem header_documented_iff_needed_witness:
  "\<exists>vc. class_of demo_library [] Checkout_View = Some vc \<and> needs_header vc"
proof -
  have "class_of demo_library [] Checkout_View = Some CheckoutView" "doc_of Checkout_View POST = Some CheckoutView_doc"
    by (simp_all add: class_of_def doc_of_def)
  from header_documented_iff_needed [OF this] this(1) show ?thesis
    by (simp add: documents_header_def doc_defs)
qed

text \<open>Every declared response has the status the handler answers with, with one exception: removing a
  member answers 204 without a body and is documented as a 200 with a membership.\<close>

theorem documented_status:
  assumes "doc_of v m = Some a" "ad_responses a \<noteq> []" "class_of lib docs v = Some vc" "m \<in> set (vc_handlers vc)"
  shows "map fst (ad_responses a) = [success_status v m] \<longleftrightarrow> \<not> (m = DELETE \<and> (\<exists>pk mpk. v = Organization_Member pk mpk))"
  using assms
  by (cases v) (auto simp: class_of_def doc_of_def success_status_def doc_defs class_defs split: if_splits)

theorem documented_status_witness:
  "map fst (ad_responses member_doc) \<noteq> [success_status (Organization_Member ''1'' ''2'') DELETE]"
  using documented_status [of "Organization_Member ''1'' ''2''" DELETE member_doc demo_library "[]"]
  by (simp add: doc_of_def member_doc_def class_of_def class_defs)

end
