(* ===== verification/Spec2Isabelle.thy ===== *)
theory Spec2Isabelle
  imports Races Invite_Races Webhook_Serial Account_Races Billing_Spec Migrations Routing Deployment Reads Preservation Sessions Admin Startup Api_Docs
begin

text \<open>
  \<^bold>\<open>Bastiq: a model of the backend and what is proved of it.\<close>

  The program is a multi-tenant backend on Django and the REST framework. Users register and log in
  (\<open>accounts\<close>), belong to organizations with a role and invite others (\<open>organizations\<close>), pay by plan
  through Stripe (\<open>billing\<close>) and own projects inside the organization a request names in its
  \<open>X-Organization-ID\<close> header (\<open>core\<close>, \<open>projects\<close>). All state is the database; a handler is a function
  of its arguments and the database that gives back a result or an exception and the database it
  leaves. \<open>transaction.atomic\<close> is the function \<open>atomic\<close>, which restores the database when its block
  raises. Times are integers in microseconds and are arguments, as is everything random.

  \<^bold>\<open>Which theory models what\<close> (paths under \<open>src/\<close>).

  \<^item> \<open>Py_Base\<close>: the Python operations the sources use (\<open>int\<close> of a string with its white space, signs,
    underscores and the limit of 4300 digits, \<open>strip\<close>, \<open>lower\<close>, \<open>split\<close>, JSON values). Characters are the
    8-bit characters of HOL, so case folding is that of the ASCII and Latin-1 range as defined there.
  \<^item> \<open>Tables\<close>, \<open>Errors\<close>, \<open>Schema\<close>: rows, primary keys and the queries the ORM calls stand for; exceptions
    with their status codes and \<open>core/exceptions.py\<close>; one record per model and the database record.
  \<^item> \<open>Org_Models\<close>, \<open>Billing_Models\<close>, \<open>Users\<close>: the models with their guards, cascades and constraints
    (\<open>organizations/models.py\<close>, \<open>organizations/admin.py\<close>, \<open>billing/models.py\<close>, \<open>billing/limits.py\<close>,
    \<open>billing/signals.py\<close>, \<open>accounts/models.py\<close>, \<open>accounts/managers.py\<close>).
  \<^item> \<open>Invariants\<close>: \<open>db_inv\<close>, what holds between requests, and one lemma per row operation that keeps it.
  \<^item> \<open>Rbac\<close>, \<open>Tenancy\<close>: \<open>core/rbac.py\<close>; \<open>core/permissions.py\<close>, \<open>core/viewsets.py\<close>, \<open>core/models.py\<close>.
  \<^item> \<open>Projects\<close>, \<open>Org_Service\<close>, \<open>Members\<close>, \<open>Invitations\<close>: the views and serializers of \<open>projects\<close> and
    \<open>organizations\<close>, with the invitation mail.
  \<^item> \<open>Webhooks\<close>, \<open>Billing_Views\<close>: \<open>billing/webhooks.py\<close>, \<open>billing/stripe_client.py\<close>, \<open>billing/views.py\<close>.
  \<^item> \<open>Tokens\<close>, \<open>Accounts\<close>: signed tokens, sessions, mails, and the views and serializers of \<open>accounts\<close>.
  \<^item> \<open>Lifecycle\<close>: every writing endpoint as one step, and the databases a deployment can reach.
  \<^item> \<open>Routing\<close>: the URL configurations of the project and its apps, the view classes of all
    \<open>views.py\<close> as the attributes the framework reads (permissions, methods, throttle scopes), and the
    gate in front of the handlers; \<open>core/views.py\<close>.
  \<^item> \<open>Api_Docs\<close>: the \<open>extend_schema\<close> annotations of the views, compared with their permissions and replies.
  \<^item> \<open>Races\<close>, \<open>Invite_Races\<close>: requests of one organization interleaved, with and without the row lock; the
    paths of the admin site around the guards; the statements of invitations interleaved with acceptances.
  \<^item> \<open>Webhook_Races\<close>, \<open>Webhook_Serial\<close>: the handlers of \<open>billing/webhooks.py\<close> query by query, deliveries
    interleaved, and when what they commit is what they give one after the other.
  \<^item> \<open>Account_Races\<close>: the statements of password resets with one token, and of registrations, interleaved.
  \<^item> \<open>Seeding\<close>: the commands \<open>seed_plans\<close> and \<open>seed_demo\<close> and the data migrations.
  \<^item> \<open>Reads\<close>: what every reading endpoint can tell a user who is no member.
  \<^item> \<open>Deployment\<close>: the API and the operator's commands as one system.
  \<^item> \<open>Access_Spec\<close>: an abstract system of organizations, roles and open invitations, with the steps an
    actor may make, and the proof that every call of the API is such a step.
  \<^item> \<open>Billing_Spec\<close>: an abstract system of accounts (organization, plan, status) and processed events, in
    which only Stripe changes an account, and the proof that every call of the API is such a step.
  \<^item> \<open>Sessions\<close>: what follows from it, and from isolation, for sequences of calls by several callers.
  \<^item> \<open>Migrations\<close>: the model declarations and all migrations as data, with their executor.
  \<^item> \<open>Typing\<close>: when rows of cells are legal for migrated models (the types and widths of the columns,
    nullability, unique columns, constraints, foreign keys), and the tables of the database record read as
    such rows.
  \<^item> \<open>Preservation\<close>: every call and command keeps them legal.
  \<^item> \<open>Admin\<close>: the registered admin classes of all four \<open>admin.py\<close> as the options the framework reads, the
    framework's system checks on them, and the columns their forms leave out.
  \<^item> \<open>Settings\<close>: \<open>bastiq/settings.py\<close> as a function of the environment.
  \<^item> \<open>Startup\<close>: the constant tables of \<open>bastiq/settings.py\<close>, the \<open>apps.py\<close> of all apps, \<open>bastiq/celery.py\<close> and
    the entry points (\<open>manage.py\<close>, \<open>bastiq/wsgi.py\<close>, \<open>bastiq/asgi.py\<close>): when a process comes up, and what
    is wired in it (signals, tasks, throttle scopes).
  \<^item> \<open>Demo\<close>: a small database (two organizations, five users) the witnesses run on.
  \<^item> this theory: what only several components together promise.

  \<^bold>\<open>Interfaces.\<close> \<open>db_table\<close> and \<open>unique_key\<close> are the contracts of a keyed table and of a unique column,
  interpreted for every model and column; \<open>last_owner_guard\<close> is what a last-owner test must give,
  interpreted for the API's test and the model's; \<open>capped_resource\<close> is a plan limit, for projects
  and for seats; \<open>tenant_table\<close> is a table with an organization column; \<open>webhook_handler\<close> is what an
  event handler may touch, interpreted for the four handlers and their dispatch;
  \<open>invariant_system\<close> is a transition system with an invariant, interpreted for the API, for the API with
  the commands, for the locked creations and for the interleaved invitations, deliveries, resets and
  registrations.

  \<^bold>\<open>What the lemmas show.\<close> Isolation: replies and writes of one tenant neither depend on nor touch
  another's rows (but for the counter new keys come from); to a user who is no member no reply depends
  on what an organization owns, and no sequence of calls of people without role or open invitation
  changes it, except that an invitation past its expiry may be marked so. Access: every path names one
  view, and an anonymous request passes exactly the public ones. Invariants:
  keys, references, uniqueness, an Owner per organization, over all databases that calls and
  commands can reach; and what those databases hold is legal for the migrated schema, as long as requests
  carry accounts that exist and the configured texts fit their columns. Authority: nobody acts above
  their role; the API refines an abstract system in which only Owners make and unmake Owners. Limits: projects and seats stay
  within the plan, under interleavings too when the lock has a row to lock (seats: up to the acceptances
  that commit between the two counts of an invitation). Billing: deliveries are
  processed once or not at all, in every interleaving, and touch one subscription; those about different
  organizations are serializable; nothing but a signed delivery changes a plan or a status. Accounts: tokens have one purpose, one
  lifetime and, for resets, open only while password and last login are those they were made for; no
  address has two accounts. Seeding and migrations: idempotence, and a schema that is the
  one the models declare and the row operations respect. Start-up: when a process comes up, and that
  its settings, signals and tasks are those the models, views and mails rely on. The theorems of
  \<open>Webhook_Serial\<close> on two events of one organization, those of \<open>Account_Races\<close> on two uses of a token and on
  the loser of two registrations, those of
  \<open>Races\<close> and \<open>Invite_Races\<close> on two removals, on an acceptance between two counts, on
  an organization without a subscription and on the admin site, the one of \<open>Admin\<close> on its add forms, the one of \<open>Invitations\<close> on stale
  invitations and the one of \<open>Deployment\<close> on addresses with upper-case letters show where a promise of
  the code's comments ends.

  \<^bold>\<open>Bounds.\<close> The slug search is a total function: its measure counts the taken variants from the
  current suffix on. The retry loop has the six attempts of the code and its theorem covers their
  exhaustion. The search for migration orders runs for as many steps as there are migrations, and
  \<open>orders_complete\<close> shows that is enough for every order. No other definition has fuel: the query-by-query handlers are
  values of a datatype, so each of them is finite.

  \<^bold>\<open>Parameters.\<close> Code outside the repository is an argument: Django's signing (hypothesis
  \<open>signing_ok\<close>: a token opens under its own salt within its age to what was signed), SHA-256 (hypothesis
  \<open>no_second_preimage\<close>: its first digits, cut as the code cuts them, do not collide on the payloads at hand),
  \<open>make_password\<close> (where a reset must close its token: the salted hash is a new string), \<open>validate_password\<close>, \<open>normalize_email\<close>, \<open>slugify\<close>, Stripe's calls, the configured price ids (hypothesis \<open>settings_fit\<close> where they
  are stored), the JWT library
  (hypotheses \<open>jwt_ok\<close> and \<open>exact_login\<close>) and the views of libraries (hypothesis \<open>library_views_ok\<close>), the collation of names, \<open>str\<close> of a JSON value, URL encoding, date formats.
  Request bodies enter as the framework's fields accepted or refused them. Three things the framework
  does are written out from its documentation because the code relies on them, and count as
  assumptions: the deletion of referring rows (\<open>organization_delete\<close>, \<open>user_delete\<close>; \<open>deletes_follow_schema\<close>
  compares them with the declared rules), the reading of Celery's settings and the discovery of its
  tasks (\<open>config_from_object\<close>, \<open>autodiscover_tasks\<close>), and the chain from a view class to its handler.

  \<^bold>\<open>Not modelled.\<close> The landing page's template, the pages of the admin site (what its forms save, its sessions and permissions), the texts of the documentation page, what loggers print, the
  counting of throttles (only which views have which scope), pagination (lists are the whole list
  before it is cut into pages): they are data for the frameworks or have no effect on the state.
  Requests are atomic steps except in the theories whose names end in \<open>Races\<close>, in \<open>Webhook_Serial\<close> and in
  the slug retry loop; there a transaction reads what is committed at each statement. A save in those
  theories finds its row: deletions of organizations are not among the steps.
\<close>

section \<open>Properties across components\<close>

subsection \<open>From registration to a verified account\<close>

lemma task_finds_user: "tbl_first (\<lambda>u. u_id u = k) t = tbl_get u_id k t"
  by (simp add: tbl_first_def tbl_get_def)

lemma verification_mail_has_token:
  "\<exists>subject pre post. send_verification_email c ue fe timeout now u =
     (u_email u, subject, pre @ generate_email_verification_token c now u @ post)"
  by (simp add: send_verification_email_def Let_def,
      rule exI [of _ "''Hi '' @ full_name u @ '','' @ nl @ nl @
          ''Confirm your email address by opening this link:'' @ nl @
          account_link ue fe ''/verify-email'' (generate_email_verification_token c now u) @ nl @ nl @
          ''Or POST this token to /api/auth/verify-email:'' @ nl"], simp)

lemma invitation_mail_has_token:
  "\<exists>subject pre post. send_invitation_email ue fmt fe org i = (i_email i, subject, pre @ i_token i @ post)"
  by (simp add: send_invitation_email_def Let_def,
      rule exI [of _ "''You've been invited to join '' @ o_name org @ '' as a '' @
          role_display (i_role i) @ ''.'' @ nl @ nl @
          ''Accept by opening this link (you'll need a Bastiq account for '' @ i_email i @ ''):'' @ nl @
          fe @ ''/invitations/accept?'' @ ue (''token'', i_token i) @ nl @ nl @
          ''Or POST this token to /api/invitations/accept:'' @ nl"], simp)

text \<open>C20. Sign-up works end to end: a registration that succeeded queued one task; the worker's run of
  it mails the new account's own address a token, and whoever sends that token back within the
  timeout (counted from the mail) verifies exactly that account.\<close>

theorem signup_to_verified:
  assumes c: "signing_ok c" and inv: "db_inv d" "emails_lower d"
    and reg: "register_view ne pw collate t0 (Inr (email, password, name)) d = (Inr out, d1)"
    and fresh: "t2 - t1 \<le> timeout * second"
  shows "\<exists>u subject pre token post d2.
    db_queue d1 = db_queue d @ [Send_Verification_Email (u_id u)] \<and>
    tbl_get u_id (u_id u) (db_users d1) = Some u \<and> \<not> u_is_email_verified u \<and>
    send_verification_email_task c ue fe timeout t1 (u_id u) d1 =
      [(u_email u, subject, pre @ token @ post)] \<and>
    verify_email_view c timeout t2 (Inr token) d1 = (Inr ''Email address verified.'', d2) \<and>
    tbl_get u_id (u_id u) (db_users d2) = Some (u\<lparr>u_is_email_verified := True\<rparr>) \<and>
    (\<forall>k. k \<noteq> u_id u \<longrightarrow> tbl_get u_id k (db_users d2) = tbl_get u_id k (db_users d1))"
proof -
  from register_success [OF inv reg] obtain u where
    u: "db_inv d1" "tb_rows (db_users d1) = tb_rows (db_users d) @ [u]" "\<not> u_is_email_verified u"
      "db_queue d1 = db_queue d @ [Send_Verification_Email (u_id u)]"
    by auto
  have get: "tbl_get u_id (u_id u) (db_users d1) = Some u"
    using db_invD(1) [OF u(1)] u(2) by (simp add: keys_ok_def tbl_get_iff)
  obtain subject pre post where m: "send_verification_email c ue fe timeout t1 u =
      (u_email u, subject, pre @ generate_email_verification_token c t1 u @ post)"
    using verification_mail_has_token by blast
  let ?d2 = "d1\<lparr>db_users := tbl_update_where (\<lambda>x. u_id x = u_id u)
     (\<lambda>x. x\<lparr>u_is_email_verified := True\<rparr>) (db_users d1)\<rparr>"
  have "verify_email_view c timeout t2 (Inr (generate_email_verification_token c t1 u)) d1 =
      (Inr ''Email address verified.'', ?d2)"
    using c fresh by (simp add: verify_email_view_eq read_verification_generated token_error_def col_int_def)
  moreover have "send_verification_email_task c ue fe timeout t1 (u_id u) d1 =
      [(u_email u, subject, pre @ generate_email_verification_token c t1 u @ post)]"
    using get m by (simp add: send_verification_email_task_def task_finds_user)
  moreover have "tbl_get u_id (u_id u) (db_users ?d2) = Some (u\<lparr>u_is_email_verified := True\<rparr>)"
    "\<forall>k. k \<noteq> u_id u \<longrightarrow> tbl_get u_id k (db_users ?d2) = tbl_get u_id k (db_users d1)"
    using get by (simp_all add: user_t.get_update)
  ultimately show ?thesis using u(3,4) get by blast
qed

theorem signup_to_verified_witness:
  "\<exists>out d1. register_view id demo_passwords (\<lambda>_. 0) 5 (Inr ('' Zoe@New.test'', ''longpassword'', ''Zoe  Z'')) demo_db =
     (Inr out, d1) \<and> (\<exists>token d2 u. verify_email_view demo_crypto 60 9 (Inr token) d1 =
       (Inr ''Email address verified.'', d2) \<and> tbl_get u_id (u_id u) (db_users d2) =
       Some (u\<lparr>u_is_email_verified := True\<rparr>))"
proof -
  have "\<not> isl (fst (register_view id demo_passwords (\<lambda>_. 0) 5
      (Inr ('' Zoe@New.test'', ''longpassword'', ''Zoe  Z'')) demo_db))" by code_simp
  then obtain out d1 where reg: "register_view id demo_passwords (\<lambda>_. 0) 5
      (Inr ('' Zoe@New.test'', ''longpassword'', ''Zoe  Z'')) demo_db = (Inr out, d1)"
    by (cases "fst (register_view id demo_passwords (\<lambda>_. 0) 5
      (Inr ('' Zoe@New.test'', ''longpassword'', ''Zoe  Z'')) demo_db)") (auto simp: prod_eq_iff)
  have "(9::int) - 7 \<le> 60 * second" by (simp add: second_def)
  from signup_to_verified [OF demo_signing_ok demo_inv demo_emails_lower reg this] reg
  show ?thesis by blast
qed


subsection \<open>From an invitation to a membership\<close>

lemma accept_live:
  assumes "tbl_unique i_token (db_invites d)" "i \<in> set (tb_rows (db_invites d))" "i_status i = PENDING"
    and "\<not> is_expired t i" "str_lower (u_email u) = str_lower (i_email i)"
    and "get_or_create_member t (u_id u) (i_org i) (i_role i) d = (m, d')"
  shows "invitation_accept t (Inr (i_token i)) d (Some u) =
    (Inr (membership_repr (set_invite_status i ACCEPTED d') m), set_invite_status i ACCEPTED d')"
  using find_token [OF assms(1,2) refl] assms(3-6)
  by (simp add: invitation_accept_def accept_block_def atomic_def)

text \<open>C21. Inviting works end to end: an invitation that was created is mailed to the invited address
  with its token; an account with that address (up to case) that accepts it in time becomes a
  member of the inviting organization with the invited role, unless it was one already, and the
  seats in use do not grow.\<close>

theorem invitation_to_member:
  assumes inv: "db_inv d"
    and created: "invitation_create now days token raw body d caller = (Inr out, d1)"
    and addressee: "str_lower (u_email guest) = fst (snd out)"
    and in_time: "t < now + days * day"
  shows "\<exists>i org subject pre post m d2.
    i \<in> set (tb_rows (db_invites d1)) \<and> tbl_get o_id (i_org i) (db_orgs d1) = Some org \<and>
    send_invitation_email_task ue fmt fe (i_id i) d1 = [(i_email i, subject, pre @ token @ post)] \<and>
    invitation_accept t (Inr token) d1 (Some guest) = (Inr (membership_repr d2 m), d2) \<and>
    find_membership (u_id guest) (o_id org) d2 = Some m \<and>
    (find_membership (u_id guest) (o_id org) d = None \<longrightarrow> m_role m = i_role i) \<and>
    seat_count (o_id org) d2 \<le> seat_count (o_id org) d1"
proof (cases rule: invitation_create_cases [of now days token raw body d caller])
  case (refused e)
  with created show ?thesis by simp
next
  case (created u org m0 email role d')
  note c = created
  let ?i = "new_invite now days token u org email role (tb_next (db_invites d))"
  have out: "out = invitation_repr ?i"
    and d1: "d1 = enqueue (Send_Invitation_Email (tb_next (db_invites d))) d'"
    using c(11) assms(2) by auto
  have f: "i_org ?i = o_id org" "i_email ?i = email" "i_role ?i = role" "i_token ?i = token"
    "i_status ?i = PENDING" "i_expires_at ?i = now + days * day" "i_id ?i = tb_next (db_invites d)"
    by (simp_all add: new_invite_def)
  have org_row: "org \<in> set (tb_rows (db_orgs d))" using c(1) by (auto simp: org_access_def)
  then have "o_id org \<in> org_keys d" by (auto simp: org_keys_def)
  then have inv': "db_inv d'"
    using inv_insert_invite [OF inv, of "new_invite now days token u org email role 0"] c(9,10)
    by (simp add: new_invite_def)
  then have inv1: "db_inv d1" by (simp add: d1)
  have rows: "tb_rows (db_invites d1) = tb_rows (db_invites d) @ [?i]"
    unfolding d1 c(10) by (simp add: new_invite_def)
  have i: "?i \<in> set (tb_rows (db_invites d1))" by (simp add: rows)
  have same: "db_orgs d1 = db_orgs d" "db_members d1 = db_members d"
    unfolding d1 c(10) by simp_all
  have org: "tbl_get o_id (o_id org) (db_orgs d1) = Some org"
    using org_row db_invD(1) [OF inv] by (simp add: same keys_ok_def tbl_get_iff)
  have wf: "tbl_wf i_id (db_invites d1)" using db_invD(1) [OF inv1] by (simp add: keys_ok_def)
  have "tbl_get i_id (i_id ?i) (db_invites d1) = Some ?i" using i wf by (simp add: tbl_get_iff)
  then have found: "tbl_first (\<lambda>x. i_id x = i_id ?i) (db_invites d1) = Some ?i"
    by (simp add: tbl_first_def tbl_get_def)
  obtain subject pre post where m: "send_invitation_email ue fmt fe org ?i =
      (i_email ?i, subject, pre @ token @ post)"
    using invitation_mail_has_token [of ue fmt fe org ?i] f(4) by auto
  have task: "send_invitation_email_task ue fmt fe (i_id ?i) d1 = [(i_email ?i, subject, pre @ token @ post)]"
    using found org m f(1) by (simp add: send_invitation_email_task_def)
  obtain mm d2 where g: "get_or_create_member t (u_id guest) (i_org ?i) (i_role ?i) d1 = (mm, d2)"
    by fastforce
  let ?d3 = "set_invite_status ?i ACCEPTED d2"
  have uniq: "tbl_unique i_token (db_invites d1)" using db_invD(4) [OF inv1] by (simp add: unique_ok_def)
  have "str_lower (u_email guest) = str_lower (i_email ?i)"
    using addressee c(5) f(2) by (simp add: out invitation_repr_def)
  then have acc: "invitation_accept t (Inr token) d1 (Some guest) = (Inr (membership_repr ?d3 mm), ?d3)"
    using accept_live [OF uniq i f(5) _ _ g] in_time f(4,6) by (simp add: is_expired_def)
  note spec = get_or_create_member_spec [OF g]
  have mem: "find_membership (u_id guest) (o_id org) ?d3 = Some mm \<and>
      (find_membership (u_id guest) (o_id org) d = None \<longrightarrow> m_role mm = role)"
    using spec unfolding find_membership_def f(1,3)
    by (auto simp: tbl_first_def find_append same)
  have seats: "seat_count (o_id org) ?d3 \<le> seat_count (o_id org) d1"
  proof -
    have inv2: "db_invites d2 = db_invites d1" using spec by auto
    have members: "member_count (o_id org) d2 \<le> member_count (o_id org) d1 + 1"
      using spec by (auto simp: member_count_def tbl_count_def)
    have "pending_count (o_id org) ?d3 + 1 = pending_count (o_id org) d1"
      using count_status_change [of d2 ?i ACCEPTED "o_id org"] wf i f(1,5) inv2
      by (simp add: pending_count_def)
    moreover have "member_count (o_id org) ?d3 = member_count (o_id org) d2"
      by (simp add: member_count_def)
    ultimately show ?thesis using members by (simp add: seat_count_def)
  qed
  show ?thesis
    by (rule exI [of _ ?i], rule exI [of _ org], rule exI [of _ subject], rule exI [of _ pre],
        rule exI [of _ post], rule exI [of _ mm], rule exI [of _ ?d3])
      (use i org task acc mem seats f in simp)
qed

theorem invitation_to_member_witness:
  "\<exists>out d1 m d2. invitation_create 5 7 ''t9'' ''1'' (Inr ('' Nora@new.test'', None)) demo_db (Some adam) =
      (Inr out, d1) \<and> invitation_accept 9 (Inr ''t9'') d1 (Some nora) = (Inr (membership_repr d2 m), d2)"
proof -
  have out: "fst (invitation_create 5 7 ''t9'' ''1'' (Inr ('' Nora@new.test'', None)) demo_db (Some adam)) =
      Inr (2, ''nora@new.test'', MEMBER, PENDING, Some 2, 5, 5 + 7 * day)"
    "str_lower (u_email nora) = ''nora@new.test''"
    by code_simp+
  then obtain d1 where c: "invitation_create 5 7 ''t9'' ''1'' (Inr ('' Nora@new.test'', None)) demo_db (Some adam) =
      (Inr (2, ''nora@new.test'', MEMBER, PENDING, Some 2, 5, 5 + 7 * day), d1)"
    by (metis prod.collapse)
  from invitation_to_member [OF demo_inv c, of nora 9] out(2) c show ?thesis
    by (fastforce simp: day_def)
qed

subsection \<open>After a downgrade\<close>

text \<open>C33. A downgrade takes nothing away and stops growth: when a subscription ends, an organization that
  has at least as many projects as the Free plan allows keeps every project, every further
  creation is refused with 402 and changes nothing, and deleting still works.\<close>

theorem downgrade_stops_growth:
  assumes inv: "db_inv d"
    and obj: "map_of kvs ''metadata'' = Some (JObj md)" "map_of md ''organization_id'' = Some (JStr v)"
      "py_int v = Some k" "sub_of_org k d = Some sub"
    and free: "free_plan d = Some free" "plan_limit free ''max_projects'' = Some l"
    and width: "length (s_stripe_customer_id sub) \<le> 255"
    and full: "l \<le> int (project_count k d)"
    and caller: "resolves d (fresh_request POST (Some u) h) u org m" "o_id org = k"
  shows "\<exists>d'. handle_subscription_deleted py_str now (JObj kvs) d = Inr d' \<and>
    db_projects d' = db_projects d \<and>
    (\<exists>e. project_create t (Inr (name, description)) d' (fresh_request POST (Some u) h) = (Inl e, d') \<and>
       status_code e = Some 402)"
proof -
  from subscription_deleted_effect [OF inv obj free(1) width, of py_str now "''max_projects''"]
  obtain d' where d': "handle_subscription_deleted py_str now (JObj kvs) d = Inr d'"
    "limit_of k ''max_projects'' d' = Some l" "db_projects d' = db_projects d" "db_members d' = db_members d"
    using free(2) by auto
  have "db_orgs d' = db_orgs d" using subscription_deleted.handle_frame [OF d'(1)] by simp
  then have r: "resolves d' (fresh_request POST (Some u) h) u org m"
    using caller(1) d'(4) by (simp add: resolves_def find_membership_def)
  have "l \<le> int (project_count k d')" using full d'(3) by (simp add: project_count_def)
  with project_cap.refused_at_cap [OF d'(2)] obtain e where
    e: "check_can_create_project k d' = Inl e" "status_code e = Some 402" by blast
  have "project_create t (Inr (name, description)) d' (fresh_request POST (Some u) h) = (Inl e, d')"
    using project_permissions_resolved [OF r] e(1) caller(2)
    by (simp add: project_create_def project_perform_create_def atomic_def)
  with d' e(2) show ?thesis by blast
qed

definition busy_db :: db where
  \<comment> \<open>Acme with four projects on its Pro plan; Free allows three\<close>
  "busy_db = demo_db\<lparr>db_projects := \<lparr>tb_rows = [demo_project 1 1 ''A'' 1, demo_project 2 1 ''B'' 1,
     demo_project 3 1 ''C'' 1, demo_project 4 1 ''D'' 3], tb_next = 5\<rparr>\<rparr>"

theorem downgrade_stops_growth_witness:
  "\<exists>d' e. handle_subscription_deleted demo_str 7
      (JObj [(''metadata'', JObj [(''organization_id'', JStr ''1'')])]) busy_db = Inr d' \<and>
     project_create 9 (Inr (''E'', [])) d' (fresh_request POST (Some olivia) (Some ''1'')) = (Inl e, d')"
proof -
  have inv: "db_inv busy_db" by (simp add: db_inv_def) (intro conjI; code_simp)
  have sub: "sub_of_org 1 busy_db = Some (demo_sub 1 1 2 ''cus_1'' ''sub_1'')"
    "free_plan busy_db = Some (demo_plan 1 ''free'' ''Free'' (Some 3) (Some 3) [])"
    "plan_limit (demo_plan 1 ''free'' ''Free'' (Some 3) (Some 3) []) ''max_projects'' = Some 3"
    "length (s_stripe_customer_id (demo_sub 1 1 2 ''cus_1'' ''sub_1'')) \<le> 255"
    "(3::int) \<le> int (project_count 1 busy_db)" "o_id acme = 1"
    by code_simp+
  have res: "resolves busy_db (fresh_request POST (Some olivia) (Some ''1'')) olivia acme acme_owner"
    using demo_resolves(1) [of POST] by (simp add: resolves_def find_membership_def busy_db_def)
  have md: "map_of [(''metadata'', JObj [(''organization_id'', JStr ''1'')])] ''metadata'' =
      Some (JObj [(''organization_id'', JStr ''1'')])"
    "map_of [(''organization_id'', JStr ''1'')] ''organization_id'' = Some (JStr ''1'')"
    "py_int ''1'' = Some 1"
    by (simp_all add: py_int_eval)
  from downgrade_stops_growth [OF inv md(1,2,3) sub(1,2,3,4,5) res sub(6)] show ?thesis by blast
qed

end
